(* ===== verification/Prelude.thy ===== *)
theory Prelude
  imports Main "HOL-Library.Word"
begin

text \<open>
  Shared vocabulary of the development: bytes and machine integers, the outcome of a Rust
  computation, state-passing computations with the \<open>?\<close> operator, the byte order functions of
  Rust's standard library (\<open>to_be_bytes\<close>, \<open>from_be_bytes\<close>), the validity of UTF-8 and the
  interface to the \<open>bytes\<close> crate.  The collections \<open>run_simps\<close> and \<open>codec_simps\<close> gather the
  rewrite rules that the component proofs use.
\<close>

named_theorems run_simps "evaluation of state-passing computations"
named_theorems codec_simps "evaluation of the serializer and the deserializer"

section \<open>Machine integers and bytes\<close>

type_synonym byte = "8 word"
type_synonym u8 = "8 word"
type_synonym u16 = "16 word"
type_synonym u32 = "32 word"
type_synonym u64 = "64 word"
type_synonym bytes = "8 word list"

text \<open>
  A Rust \<open>String\<close> is a vector of bytes that is valid UTF-8; it is modelled by those bytes, and
  \<open>as_bytes\<close> and \<open>len\<close> are the identity and the length of the list.  \<open>usize\<close> is
  64 bits wide, as on the platforms the server runs on.
\<close>

type_synonym rstring = "8 word list"

section \<open>Outcomes\<close>

text \<open>
  A Rust computation returns \<open>Ok\<close>, returns \<open>Err\<close> or panics (\<open>unimplemented!\<close>,
  \<open>unreachable!\<close>, a failed slice or buffer access).
\<close>

datatype ('a, 'e) outcome = Ok 'a | Err 'e | Panic

text \<open>The operator \<open>?\<close>: go on with the value, or leave the function with the error.\<close>

definition and_then ::
  "('s \<Rightarrow> ('a, 'e) outcome \<times> 's) \<Rightarrow> ('a \<Rightarrow> 's \<Rightarrow> ('b, 'e) outcome \<times> 's) \<Rightarrow> 's \<Rightarrow> ('b, 'e) outcome \<times> 's" where
  "and_then m f s =
     (case m s of
        (Ok a, s') \<Rightarrow> f a s'
      | (Err e, s') \<Rightarrow> (Err e, s')
      | (Panic, s') \<Rightarrow> (Panic, s'))"

lemma and_then_Ok [run_simps]: "m s = (Ok a, s') \<Longrightarrow> and_then m f s = f a s'"
  by (simp add: and_then_def)

lemma and_then_Err [run_simps]: "m s = (Err e, s') \<Longrightarrow> and_then m f s = (Err e, s')"
  by (simp add: and_then_def)

lemma and_then_Panic [run_simps]: "m s = (Panic, s') \<Longrightarrow> and_then m f s = (Panic, s')"
  by (simp add: and_then_def)

lemma and_then_eq_Ok_iff:
  "and_then m f s = (Ok b, t) \<longleftrightarrow> (\<exists>a s'. m s = (Ok a, s') \<and> f a s' = (Ok b, t))"
  by (auto simp: and_then_def split: prod.splits outcome.splits)

text \<open>\<open>Result::map\<close> on the value, keeping the state.\<close>

definition map_ok :: "('a \<Rightarrow> 'b) \<Rightarrow> ('a, 'e) outcome \<Rightarrow> ('b, 'e) outcome" where
  "map_ok f r = (case r of Ok a \<Rightarrow> Ok (f a) | Err e \<Rightarrow> Err e | Panic \<Rightarrow> Panic)"

lemma map_ok_simps [simp]:
  "map_ok f (Ok a) = Ok (f a)" "map_ok f (Err e) = Err e" "map_ok f Panic = Panic"
  by (simp_all add: map_ok_def)

lemma map_ok_eq_Ok_iff [simp]: "map_ok f r = Ok b \<longleftrightarrow> (\<exists>a. r = Ok a \<and> b = f a)"
  by (cases r) auto

section \<open>Lists\<close>

lemma take_drop_append [simp]: "take n (drop n xs) @ drop (n + n) xs = drop n xs"
  by (metis append_take_drop_id drop_drop)

lemma drop_eq_append_drop: "drop p xs = ys @ zs \<Longrightarrow> drop (p + length ys) xs = zs"
  by (metis add.commute append_eq_conv_conj drop_drop)

lemma drop_eq_appendD: "drop p xs = ys @ zs \<Longrightarrow> ys \<noteq> [] \<Longrightarrow> p + length ys \<le> length xs"
proof -
  assume a: "drop p xs = ys @ zs" and ne: "ys \<noteq> []"
  have "length xs - p = length ys + length zs" using arg_cong [OF a, of length] by simp
  moreover have "0 < length ys" using ne by simp
  ultimately show ?thesis by linarith
qed

section \<open>Casts between widths\<close>

lemma unat_ucast_id: "unat (v :: 'a::len word) < 2 ^ LENGTH('b::len) \<Longrightarrow> unat (ucast v :: 'b word) = unat v"
  by (simp add: unsigned_ucast_eq take_bit_nat_eq_self)

lemma ucast_ucast_id:
  "unat (v :: 'a::len word) < 2 ^ LENGTH('b::len) \<Longrightarrow> ucast (ucast v :: 'b word) = v"
  by (simp add: word_unat_eq_iff unsigned_ucast_eq unsigned_take_bit_eq take_bit_nat_eq_self)

text \<open>Truncating a widened value gives it back: \<open>(v as u64) as u8\<close>, and the same for signed types.\<close>

lemma ucast_up_down: "LENGTH('a::len) \<le> LENGTH('b::len) \<Longrightarrow> ucast (ucast (v :: 'a word) :: 'b word) = v"
  by (rule bit_word_eqI) (simp add: bit_simps)

lemma ucast_scast_up_down:
  "LENGTH('a::len) \<le> LENGTH('b::len) \<Longrightarrow> ucast (scast (v :: 'a word) :: 'b word) = v"
  by (rule bit_word_eqI) (auto simp: bit_simps)

section \<open>Byte order\<close>

text \<open>
  The standard library's conversions between an unsigned integer and its bytes.  A word of
  \<open>8 * n\<close> bits has \<open>n\<close> bytes, the most significant one first in big-endian order.
\<close>

definition byte_of :: "nat \<Rightarrow> byte" where
  "byte_of v = word_of_nat v"

primrec be_nat :: "nat \<Rightarrow> nat \<Rightarrow> bytes" where
  "be_nat 0 v = []"
| "be_nat (Suc n) v = be_nat n (v div 256) @ [byte_of (v mod 256)]"

definition from_be_nat :: "bytes \<Rightarrow> nat" where
  "from_be_nat bs = foldl (\<lambda>a b. 256 * a + unat b) 0 bs"

definition to_be_bytes :: "'a::len word \<Rightarrow> bytes" where
  "to_be_bytes w = be_nat (LENGTH('a) div 8) (unat w)"

definition to_le_bytes :: "'a::len word \<Rightarrow> bytes" where
  "to_le_bytes w = rev (to_be_bytes w)"

definition from_be_bytes :: "bytes \<Rightarrow> 'a::len word" where
  "from_be_bytes bs = word_of_nat (from_be_nat bs)"

definition from_le_bytes :: "bytes \<Rightarrow> 'a::len word" where
  "from_le_bytes bs = from_be_bytes (rev bs)"

lemma length_be_nat [simp]: "length (be_nat n v) = n"
  by (induction n arbitrary: v) auto

lemma be_nat_numeral [simp]:
  "be_nat (numeral k) v = be_nat (pred_numeral k) (v div 256) @ [byte_of (v mod 256)]"
  by (subst numeral_eq_Suc) (rule be_nat.simps(2))

lemma from_be_nat_snoc [simp]: "from_be_nat (bs @ [b]) = 256 * from_be_nat bs + unat b"
  by (simp add: from_be_nat_def)

lemma from_be_nat_Nil [simp]: "from_be_nat [] = 0"
  by (simp add: from_be_nat_def)

lemma unat_byte_of [simp]: "v < 256 \<Longrightarrow> unat (byte_of v) = v"
  by (simp add: byte_of_def unat_of_nat)

lemma from_be_nat_be_nat: "v < 256 ^ n \<Longrightarrow> from_be_nat (be_nat n v) = v"
proof (induction n arbitrary: v)
  case 0
  then show ?case by simp
next
  case (Suc n)
  then have "v div 256 < 256 ^ n" by (simp add: less_mult_imp_div_less mult.commute)
  then show ?case by (simp add: Suc.IH)
qed

lemma length_to_be_bytes [simp]: "length (to_be_bytes (w :: 'a::len word)) = LENGTH('a) div 8"
  by (simp add: to_be_bytes_def)

lemma length_to_le_bytes [simp]: "length (to_le_bytes (w :: 'a::len word)) = LENGTH('a) div 8"
  by (simp add: to_le_bytes_def)

lemma from_be_bytes_to_be_bytes:
  assumes "8 dvd LENGTH('a::len)"
  shows "from_be_bytes (to_be_bytes (w :: 'a word)) = w"
proof -
  obtain n where n: "LENGTH('a) = 8 * n" using assms by blast
  have "unat w < 2 ^ LENGTH('a)" by (rule unsigned_less)
  also have "(2::nat) ^ LENGTH('a) = 256 ^ n" by (simp add: n power_mult)
  finally have "unat w < 256 ^ n" .
  then show ?thesis by (simp add: from_be_bytes_def to_be_bytes_def n from_be_nat_be_nat)
qed

lemma from_be_bytes_inverse [simp]:
  "from_be_bytes (to_be_bytes (a :: u16)) = a"
  "from_be_bytes (to_be_bytes (b :: u32)) = b"
  "from_be_bytes (to_be_bytes (c :: u64)) = c"
  by (rule from_be_bytes_to_be_bytes; simp)+

lemma from_le_bytes_inverse [simp]:
  "from_le_bytes (to_le_bytes (a :: u16)) = a"
  "from_le_bytes (to_le_bytes (b :: u32)) = b"
  "from_le_bytes (to_le_bytes (c :: u64)) = c"
  by (simp_all add: from_le_bytes_def to_le_bytes_def)

lemma from_be_nat_less: "from_be_nat bs < 256 ^ length bs"
proof (induction bs rule: rev_induct)
  case Nil
  then show ?case by simp
next
  case (snoc b bs)
  have "unat b < 256" using unsigned_less [of b] by simp
  then show ?case using snoc by simp
qed

lemma be_nat_from_be_nat: "be_nat (length bs) (from_be_nat bs) = bs"
proof (induction bs rule: rev_induct)
  case Nil
  then show ?case by simp
next
  case (snoc b bs)
  have "unat b < 256" using unsigned_less [of b] by simp
  then have "(256 * from_be_nat bs + unat b) div 256 = from_be_nat bs"
    and "(256 * from_be_nat bs + unat b) mod 256 = unat b" by simp_all
  then show ?case using snoc by (simp add: byte_of_def)
qed

text \<open>Every sequence of as many bytes as the word has is the encoding of one word.\<close>

lemma to_be_bytes_from_be_bytes:
  assumes "8 * length bs = LENGTH('a::len)"
  shows "to_be_bytes (from_be_bytes bs :: 'a word) = bs"
proof -
  have "256 ^ length bs = (2::nat) ^ LENGTH('a)" by (simp add: assms [symmetric] power_mult)
  then have "unat (word_of_nat (from_be_nat bs) :: 'a word) = from_be_nat bs"
    using from_be_nat_less [of bs] by (simp add: unat_of_nat)
  moreover have "LENGTH('a) div 8 = length bs" using assms by simp
  ultimately show ?thesis by (simp add: to_be_bytes_def from_be_bytes_def be_nat_from_be_nat)
qed

section \<open>UTF-8\<close>

text \<open>
  \<open>String::from_utf8\<close> of the standard library accepts exactly the well-formed byte sequences of
  the Unicode standard (no overlong forms, no surrogates, nothing above U+10FFFF), and
  \<open>char::to_string\<close> yields the encoding of one scalar value.
\<close>

definition utf8_cont :: "byte \<Rightarrow> bool" where
  "utf8_cont b \<longleftrightarrow> 128 \<le> unat b \<and> unat b \<le> 191"

fun utf8_valid :: "bytes \<Rightarrow> bool" where
  "utf8_valid [] = True"
| "utf8_valid (b # bs) =
     (let v = unat b in
      if v < 128 then utf8_valid bs
      else if 194 \<le> v \<and> v \<le> 223 then
        (case bs of c # cs \<Rightarrow> utf8_cont c \<and> utf8_valid cs | _ \<Rightarrow> False)
      else if 224 \<le> v \<and> v \<le> 239 then
        (case bs of c # d # cs \<Rightarrow>
             utf8_cont c \<and> (v = 224 \<longrightarrow> 160 \<le> unat c) \<and> (v = 237 \<longrightarrow> unat c \<le> 159)
           \<and> utf8_cont d \<and> utf8_valid cs
         | _ \<Rightarrow> False)
      else if 240 \<le> v \<and> v \<le> 244 then
        (case bs of c # d # e # cs \<Rightarrow>
             utf8_cont c \<and> (v = 240 \<longrightarrow> 144 \<le> unat c) \<and> (v = 244 \<longrightarrow> unat c \<le> 143)
           \<and> utf8_cont d \<and> utf8_cont e \<and> utf8_valid cs
         | _ \<Rightarrow> False)
      else False)"

text \<open>A Rust \<open>char\<close> is a Unicode scalar value.\<close>

definition is_scalar :: "nat \<Rightarrow> bool" where
  "is_scalar c \<longleftrightarrow> c < 55296 \<or> (57344 \<le> c \<and> c < 1114112)"

definition encode_utf8 :: "nat \<Rightarrow> bytes" where
  "encode_utf8 c =
     (if c < 128 then [byte_of c]
      else if c < 2048 then [byte_of (192 + c div 64), byte_of (128 + c mod 64)]
      else if c < 65536 then
        [byte_of (224 + c div 4096), byte_of (128 + c div 64 mod 64),
         byte_of (128 + c mod 64)]
      else
        [byte_of (240 + c div 262144), byte_of (128 + c div 4096 mod 64),
         byte_of (128 + c div 64 mod 64), byte_of (128 + c mod 64)])"

lemma utf8_cont_byte_of [simp]: "v < 64 \<Longrightarrow> utf8_cont (byte_of (128 + v))"
  by (simp add: utf8_cont_def)

lemma utf8_valid_2 [simp]:
  "2 \<le> v \<Longrightarrow> v < 32 \<Longrightarrow> d < 64 \<Longrightarrow>
   utf8_valid (byte_of (192 + v) # byte_of (128 + d) # bs) = utf8_valid bs"
  by (simp add: Let_def)

lemma utf8_valid_3 [simp]:
  "v < 16 \<Longrightarrow> d < 64 \<Longrightarrow> e < 64 \<Longrightarrow> v = 0 \<longrightarrow> 32 \<le> d \<Longrightarrow> v = 13 \<longrightarrow> d \<le> 31 \<Longrightarrow>
   utf8_valid (byte_of (224 + v) # byte_of (128 + d) # byte_of (128 + e) # bs) = utf8_valid bs"
  by (simp add: Let_def)

lemma utf8_valid_4 [simp]:
  "v < 5 \<Longrightarrow> d < 64 \<Longrightarrow> e < 64 \<Longrightarrow> f < 64 \<Longrightarrow> v = 0 \<longrightarrow> 16 \<le> d \<Longrightarrow> v = 4 \<longrightarrow> d \<le> 15 \<Longrightarrow>
   utf8_valid (byte_of (240 + v) # byte_of (128 + d) # byte_of (128 + e) # byte_of (128 + f) # bs)
   = utf8_valid bs"
proof -
  assume "v < 5" "d < 64" "e < 64" "f < 64" "v = 0 \<longrightarrow> 16 \<le> d" "v = 4 \<longrightarrow> d \<le> 15"
  moreover from this have u: "unat (byte_of (240 + v)) = 240 + v" "unat (byte_of (128 + d)) = 128 + d"
    by simp_all
  ultimately show ?thesis unfolding utf8_valid.simps u Let_def by simp
qed

lemma sixbit_bounds:
  fixes c :: nat
  shows "2048 \<le> c \<Longrightarrow> c div 4096 = 0 \<Longrightarrow> 32 \<le> c div 64 mod 64"
    and "c < 55296 \<Longrightarrow> c div 4096 = 13 \<Longrightarrow> c div 64 mod 64 \<le> 31"
    and "65536 \<le> c \<Longrightarrow> c div 262144 = 0 \<Longrightarrow> 16 \<le> c div 4096 mod 64"
    and "c < 1114112 \<Longrightarrow> c div 262144 = 4 \<Longrightarrow> c div 4096 mod 64 \<le> 15"
proof -
  have split: "c div (64 * m) * 64 + c div m mod 64 = c div m" for m
    by (simp add: div_mult2_eq mult.commute)
  show "32 \<le> c div 64 mod 64" if "2048 \<le> c" "c div 4096 = 0"
    using split [of 64] that by simp
  show "c div 64 mod 64 \<le> 31" if "c < 55296" "c div 4096 = 13"
  proof -
    have "c div 64 < 864" using that by simp
    then show ?thesis using split [of 64] that by simp
  qed
  show "16 \<le> c div 4096 mod 64" if "65536 \<le> c" "c div 262144 = 0"
  proof -
    have "16 \<le> c div 4096" using that by simp
    then show ?thesis using split [of 4096] that by simp
  qed
  show "c div 4096 mod 64 \<le> 15" if "c < 1114112" "c div 262144 = 4"
  proof -
    have "c div 4096 < 272" using that by simp
    then show ?thesis using split [of 4096] that by simp
  qed
qed

lemma utf8_valid_encode_append:
  assumes "is_scalar c"
  shows "utf8_valid (encode_utf8 c @ bs) = utf8_valid bs"
proof -
  consider "c < 128" | "128 \<le> c" "c < 2048" | "2048 \<le> c" "c < 65536" | "65536 \<le> c" "c < 1114112"
    using assms unfolding is_scalar_def by linarith
  then show ?thesis
  proof cases
    case 1
    then show ?thesis by (simp add: encode_utf8_def)
  next
    case 2
    then have "2 \<le> c div 64" "c div 64 < 32" by auto
    then show ?thesis using 2 by (simp add: encode_utf8_def del: utf8_valid.simps)
  next
    case 3
    let ?d = "c div 64 mod 64"
    have b: "c div 4096 < 16" "?d < 64" using 3 by auto
    have over: "c div 4096 = 0 \<longrightarrow> 32 \<le> ?d" using 3 sixbit_bounds(1) by blast
    have "c div 4096 = 13 \<Longrightarrow> c < 57344" by simp
    then have "c div 4096 = 13 \<Longrightarrow> c < 55296" using assms unfolding is_scalar_def by linarith
    then have surr: "c div 4096 = 13 \<longrightarrow> ?d \<le> 31" using sixbit_bounds(2) by blast
    show ?thesis
      using 3 utf8_valid_3 [OF b _ over surr] by (simp add: encode_utf8_def del: utf8_valid.simps)
  next
    case 4
    let ?d = "c div 4096 mod 64"
    have b: "c div 262144 < 5" "?d < 64" using 4 by auto
    have over: "c div 262144 = 0 \<longrightarrow> 16 \<le> ?d" using 4 sixbit_bounds(3) by blast
    have top: "c div 262144 = 4 \<longrightarrow> ?d \<le> 15" using 4 sixbit_bounds(4) by blast
    show ?thesis
      using 4 utf8_valid_4 [OF b _ _ over top] by (simp add: encode_utf8_def del: utf8_valid.simps)
  qed
qed

lemma utf8_valid_encode [simp]: "is_scalar c \<Longrightarrow> utf8_valid (encode_utf8 c)"
  using utf8_valid_encode_append [of c "[]"] by simp

section \<open>The interface to the \<open>bytes\<close> crate\<close>

text \<open>
  The serializer and the deserializer write to a \<open>BytesMut\<close> and read from a \<open>Cursor\<close> through
  the traits \<open>BufMut\<close> and \<open>Buf\<close> of the crate \<open>bytes\<close>, whose code is not in the repository.
  The buffer itself is the list of its bytes; what the crate contributes, the encoding and
  decoding of multi-byte numbers, is the parameter \<open>buf_ops\<close>.  A field \<open>put_n\<close> holds the
  bytes that \<open>put_n\<close> appends; a field \<open>get_n\<close> reads the number at the head of the readable
  bytes.  A floating-point number is its IEEE bit pattern (\<open>to_bits\<close>).
\<close>

record buf_ops =
  put_u16 :: "u16 \<Rightarrow> bytes"
  put_u16_le :: "u16 \<Rightarrow> bytes"
  put_u32 :: "u32 \<Rightarrow> bytes"
  put_u32_le :: "u32 \<Rightarrow> bytes"
  put_u64 :: "u64 \<Rightarrow> bytes"
  put_u64_le :: "u64 \<Rightarrow> bytes"
  put_f32 :: "u32 \<Rightarrow> bytes"
  put_f32_le :: "u32 \<Rightarrow> bytes"
  put_f64 :: "u64 \<Rightarrow> bytes"
  put_f64_le :: "u64 \<Rightarrow> bytes"
  get_u16 :: "bytes \<Rightarrow> u16"
  get_u16_le :: "bytes \<Rightarrow> u16"
  get_u32 :: "bytes \<Rightarrow> u32"
  get_u32_le :: "bytes \<Rightarrow> u32"
  get_u64 :: "bytes \<Rightarrow> u64"
  get_u64_le :: "bytes \<Rightarrow> u64"
  get_f32 :: "bytes \<Rightarrow> u32"
  get_f64 :: "bytes \<Rightarrow> u64"

text \<open>The documented behaviour: the \<open>_le\<close> variants are little-endian, the others big-endian.\<close>

locale bytes_crate =
  fixes B :: buf_ops
  assumes put_u16 [codec_simps]: "put_u16 B w16 = to_be_bytes w16"
    and put_u16_le [codec_simps]: "put_u16_le B w16 = to_le_bytes w16"
    and put_u32 [codec_simps]: "put_u32 B w32 = to_be_bytes w32"
    and put_u32_le [codec_simps]: "put_u32_le B w32 = to_le_bytes w32"
    and put_u64 [codec_simps]: "put_u64 B w64 = to_be_bytes w64"
    and put_u64_le [codec_simps]: "put_u64_le B w64 = to_le_bytes w64"
    and put_f32 [codec_simps]: "put_f32 B w32 = to_be_bytes w32"
    and put_f32_le [codec_simps]: "put_f32_le B w32 = to_le_bytes w32"
    and put_f64 [codec_simps]: "put_f64 B w64 = to_be_bytes w64"
    and put_f64_le [codec_simps]: "put_f64_le B w64 = to_le_bytes w64"
    and get_u16 [codec_simps]: "get_u16 B (to_be_bytes w16 @ rest) = w16"
    and get_u16_le [codec_simps]: "get_u16_le B (to_le_bytes w16 @ rest) = w16"
    and get_u32 [codec_simps]: "get_u32 B (to_be_bytes w32 @ rest) = w32"
    and get_u32_le [codec_simps]: "get_u32_le B (to_le_bytes w32 @ rest) = w32"
    and get_u64 [codec_simps]: "get_u64 B (to_be_bytes w64 @ rest) = w64"
    and get_u64_le [codec_simps]: "get_u64_le B (to_le_bytes w64 @ rest) = w64"
    and get_f32 [codec_simps]: "get_f32 B (to_be_bytes w32 @ rest) = w32"
    and get_f64 [codec_simps]: "get_f64 B (to_be_bytes w64 @ rest) = w64"

text \<open>
  The instance made of the standard library's conversions; the witnesses evaluate on it.
\<close>

definition std_bytes :: buf_ops where
  "std_bytes =
     \<lparr>put_u16 = to_be_bytes, put_u16_le = to_le_bytes,
      put_u32 = to_be_bytes, put_u32_le = to_le_bytes,
      put_u64 = to_be_bytes, put_u64_le = to_le_bytes,
      put_f32 = to_be_bytes, put_f32_le = to_le_bytes,
      put_f64 = to_be_bytes, put_f64_le = to_le_bytes,
      get_u16 = (\<lambda>bs. from_be_bytes (take 2 bs)), get_u16_le = (\<lambda>bs. from_le_bytes (take 2 bs)),
      get_u32 = (\<lambda>bs. from_be_bytes (take 4 bs)), get_u32_le = (\<lambda>bs. from_le_bytes (take 4 bs)),
      get_u64 = (\<lambda>bs. from_be_bytes (take 8 bs)), get_u64_le = (\<lambda>bs. from_le_bytes (take 8 bs)),
      get_f32 = (\<lambda>bs. from_be_bytes (take 4 bs)), get_f64 = (\<lambda>bs. from_be_bytes (take 8 bs))\<rparr>"

interpretation std: bytes_crate std_bytes
  by unfold_locales (simp_all add: std_bytes_def)

end
