(* ===== verification/Serde_Error.thy ===== *)
theory Serde_Error
  imports Prelude
begin

text \<open>
  The error type of the serialization format, \<open>serde/src/error.rs\<close>: the enumeration, its
  \<open>Display\<close> and the constructor \<open>custom\<close> through which data types report their own errors.
\<close>

datatype serde_error = Message rstring | Eof | Format | TrailingBytes

type_synonym 'a serde_result = "('a, serde_error) outcome"

text \<open>String literals of the source are ASCII; their bytes are the character codes.\<close>

definition str_bytes :: "string \<Rightarrow> rstring" where
  "str_bytes s = map of_char s"

text \<open>\<open>ser::Error::custom\<close> and \<open>de::Error::custom\<close>; the argument is \<open>msg.to_string()\<close>.\<close>

definition ser_custom :: "rstring \<Rightarrow> serde_error" where
  "ser_custom msg = Message msg"

definition de_custom :: "rstring \<Rightarrow> serde_error" where
  "de_custom msg = Message msg"

text \<open>\<open>Display::fmt\<close>: the string that is written to the formatter.\<close>

fun serde_error_fmt :: "serde_error \<Rightarrow> rstring" where
  "serde_error_fmt (Message msg) = msg"
| "serde_error_fmt Eof = str_bytes ''unexpected end of input''"
| "serde_error_fmt Format = str_bytes ''unexpected input format''"
| "serde_error_fmt TrailingBytes = str_bytes ''invalid implement, trailing bytes''"

end
