(* ===== verification/Ser.thy ===== *)
theory Ser
  imports Serde_Error
begin

text \<open>
  The serializer, \<open>serde/src/ser.rs\<close>.  A \<open>Serialize\<close> implementation is generated by serde or
  comes with it; for the serializer it is a parameter: a function from the serializer's state to
  a result and a new state (\<open>value.serialize(&mut ser)\<close>).  Every method of the trait
  \<open>ser::Serializer\<close> and of the seven compound traits is one definition.
\<close>

unbundle bit_operations_syntax

record serializer =
  le :: bool
  out :: bytes

type_synonym serialize = "serializer \<Rightarrow> unit serde_result \<times> serializer"

section \<open>Integers\<close>

definition zigzag_encode :: "u64 \<Rightarrow> u64" where
  "zigzag_encode val = push_bit 1 val XOR signed_drop_bit 63 val"

text \<open>\<open>put_u8\<close> and \<open>put\<close> append to the buffer.\<close>

definition put :: "bytes \<Rightarrow> serializer \<Rightarrow> serializer" where
  "put bs s = s\<lparr>out := out s @ bs\<rparr>"

definition serialize_unsigned :: "buf_ops \<Rightarrow> u64 \<Rightarrow> serialize" where
  "serialize_unsigned B val s =
     (if val \<le> 0xFC then (Ok (), put [ucast val] s)
      else if 0xFD \<le> val \<and> val \<le> 0xFFFF then
        (Ok (), (let s = put [0xFD] s in
           put (if le s then put_u16_le B (ucast val) else put_u16 B (ucast val)) s))
      else if 0xFFFF01 \<le> val \<and> val \<le> 0xFFFFFFFF then
        (Ok (), (let s = put [0xFE] s in
           put (if le s then put_u32_le B (ucast val) else put_u32 B (ucast val)) s))
      else
        (Ok (), (let s = put [0xFF] s in
           put (if le s then put_u64_le B val else put_u64 B val) s)))"

definition serialize_signed :: "buf_ops \<Rightarrow> u64 \<Rightarrow> serialize" where
  "serialize_signed B val = serialize_unsigned B (zigzag_encode val)"

section \<open>The methods of \<open>ser::Serializer\<close>\<close>

definition serialize_bool :: "bool \<Rightarrow> serialize" where
  "serialize_bool v s = (Ok (), put [if v then 1 else 0] s)"

definition serialize_i8 :: "buf_ops \<Rightarrow> u8 \<Rightarrow> serialize" where
  "serialize_i8 B v = serialize_signed B (scast v)"

definition serialize_i16 :: "buf_ops \<Rightarrow> u16 \<Rightarrow> serialize" where
  "serialize_i16 B v = serialize_signed B (scast v)"

definition serialize_i32 :: "buf_ops \<Rightarrow> u32 \<Rightarrow> serialize" where
  "serialize_i32 B v = serialize_signed B (scast v)"

definition serialize_i64 :: "buf_ops \<Rightarrow> u64 \<Rightarrow> serialize" where
  "serialize_i64 B v = serialize_signed B v"

definition serialize_u8 :: "buf_ops \<Rightarrow> u8 \<Rightarrow> serialize" where
  "serialize_u8 B v = serialize_unsigned B (ucast v)"

definition serialize_u16 :: "buf_ops \<Rightarrow> u16 \<Rightarrow> serialize" where
  "serialize_u16 B v = serialize_unsigned B (ucast v)"

definition serialize_u32 :: "buf_ops \<Rightarrow> u32 \<Rightarrow> serialize" where
  "serialize_u32 B v = serialize_unsigned B (ucast v)"

definition serialize_u64 :: "buf_ops \<Rightarrow> u64 \<Rightarrow> serialize" where
  "serialize_u64 B v = serialize_unsigned B v"

definition serialize_f32 :: "buf_ops \<Rightarrow> u32 \<Rightarrow> serialize" where
  "serialize_f32 B v s = (Ok (), put (if le s then put_f32_le B v else put_f32 B v) s)"

definition serialize_f64 :: "buf_ops \<Rightarrow> u64 \<Rightarrow> serialize" where
  "serialize_f64 B v s = (Ok (), put (if le s then put_f64_le B v else put_f64 B v) s)"

definition serialize_bytes :: "buf_ops \<Rightarrow> bytes \<Rightarrow> serialize" where
  "serialize_bytes B v =
     and_then (serialize_u64 B (word_of_nat (length v))) (\<lambda>_ s. (Ok (), put v s))"

definition serialize_str :: "buf_ops \<Rightarrow> rstring \<Rightarrow> serialize" where
  "serialize_str B v = and_then (serialize_bytes B v) (\<lambda>_ s. (Ok (), s))"

definition serialize_char :: "buf_ops \<Rightarrow> nat \<Rightarrow> serialize" where
  "serialize_char B v = serialize_str B (encode_utf8 v)"

definition serialize_none :: serialize where
  "serialize_none = serialize_bool False"

definition serialize_some :: "serialize \<Rightarrow> serialize" where
  "serialize_some value = and_then (serialize_bool True) (\<lambda>_. value)"

definition serialize_unit :: serialize where
  "serialize_unit s = (Ok (), s)"

definition serialize_unit_struct :: "rstring \<Rightarrow> serialize" where
  "serialize_unit_struct name = serialize_unit"

definition serialize_unit_variant :: "rstring \<Rightarrow> u32 \<Rightarrow> rstring \<Rightarrow> serialize" where
  "serialize_unit_variant name variant_index variant s = (Ok (), s)"

definition serialize_newtype_struct :: "rstring \<Rightarrow> serialize \<Rightarrow> serialize" where
  "serialize_newtype_struct name value = value"

definition serialize_newtype_variant :: "rstring \<Rightarrow> u32 \<Rightarrow> rstring \<Rightarrow> serialize \<Rightarrow> serialize" where
  "serialize_newtype_variant name variant_index variant value =
     and_then value (\<lambda>_ s. (Ok (), s))"

text \<open>
  The methods that open a compound value return the serializer itself as the state of the
  compound; the model returns \<open>Ok ()\<close> and the state.
\<close>

definition serialize_seq :: "buf_ops \<Rightarrow> nat option \<Rightarrow> serialize" where
  "serialize_seq B len =
     (case len of
        Some len \<Rightarrow> and_then (serialize_u64 B (word_of_nat len)) (\<lambda>_ s. (Ok (), s))
      | None \<Rightarrow> (\<lambda>s. (Panic, s)))"

definition serialize_tuple :: "buf_ops \<Rightarrow> nat \<Rightarrow> serialize" where
  "serialize_tuple B len = serialize_seq B (Some len)"

definition serialize_tuple_struct :: "buf_ops \<Rightarrow> rstring \<Rightarrow> nat \<Rightarrow> serialize" where
  "serialize_tuple_struct B name len = serialize_seq B (Some len)"

definition serialize_tuple_variant :: "rstring \<Rightarrow> u32 \<Rightarrow> rstring \<Rightarrow> nat \<Rightarrow> serialize" where
  "serialize_tuple_variant name variant_index variant len s = (Ok (), s)"

definition serialize_map :: "buf_ops \<Rightarrow> nat option \<Rightarrow> serialize" where
  "serialize_map B len = serialize_seq B len"

definition serialize_struct :: "rstring \<Rightarrow> nat \<Rightarrow> serialize" where
  "serialize_struct name len s = (Ok (), s)"

definition serialize_struct_variant :: "rstring \<Rightarrow> u32 \<Rightarrow> rstring \<Rightarrow> nat \<Rightarrow> serialize" where
  "serialize_struct_variant name variant_index variant len s = (Ok (), s)"

section \<open>The compound traits\<close>

definition seq_serialize_element :: "serialize \<Rightarrow> serialize" where
  "seq_serialize_element value = value"

definition seq_end :: serialize where
  "seq_end s = (Ok (), s)"

definition tuple_serialize_element :: "serialize \<Rightarrow> serialize" where
  "tuple_serialize_element value = value"

definition tuple_end :: serialize where
  "tuple_end s = (Ok (), s)"

definition tuple_struct_serialize_field :: "serialize \<Rightarrow> serialize" where
  "tuple_struct_serialize_field value = value"

definition tuple_struct_end :: serialize where
  "tuple_struct_end s = (Ok (), s)"

definition tuple_variant_serialize_field :: "serialize \<Rightarrow> serialize" where
  "tuple_variant_serialize_field value = value"

definition tuple_variant_end :: serialize where
  "tuple_variant_end s = (Ok (), s)"

definition map_serialize_key :: "serialize \<Rightarrow> serialize" where
  "map_serialize_key key = key"

definition map_serialize_value :: "serialize \<Rightarrow> serialize" where
  "map_serialize_value value = value"

definition map_end :: serialize where
  "map_end s = (Ok (), s)"

definition struct_serialize_field :: "rstring \<Rightarrow> serialize \<Rightarrow> serialize" where
  "struct_serialize_field key value = value"

definition struct_end :: serialize where
  "struct_end s = (Ok (), s)"

definition struct_variant_serialize_field :: "rstring \<Rightarrow> serialize \<Rightarrow> serialize" where
  "struct_variant_serialize_field key value = value"

definition struct_variant_end :: serialize where
  "struct_variant_end s = (Ok (), s)"

section \<open>Entry points\<close>

text \<open>The capacity of the buffer has no effect on its contents.\<close>

definition to_bytes_le :: "serialize \<Rightarrow> bytes serde_result" where
  "to_bytes_le value =
     (let (r, ser) = value \<lparr>le = True, out = []\<rparr> in map_ok (\<lambda>_. out ser) r)"

definition to_bytes :: "serialize \<Rightarrow> bytes serde_result" where
  "to_bytes value =
     (let (r, ser) = value \<lparr>le = False, out = []\<rparr> in map_ok (\<lambda>_. out ser) r)"

end
