(* ===== verification/De.thy ===== *)
theory De
  imports Serde_Error
begin

text \<open>
  The deserializer, \<open>serde/src/de.rs\<close>.  \<open>Deserialize\<close> implementations, seeds and visitors come
  from serde; for the deserializer they are parameters: a seed is a function on the
  deserializer's state, and a visitor is a record of the functions that the deserializer calls.
\<close>

unbundle bit_operations_syntax

section \<open>State\<close>

record deserializer =
  input :: bytes
  pos :: nat
  de_le :: bool

type_synonym 'a de_m = "deserializer \<Rightarrow> 'a serde_result \<times> deserializer"

definition deserializer_from_bytes :: "bytes \<Rightarrow> deserializer" where
  "deserializer_from_bytes inp = \<lparr>input = inp, pos = 0, de_le = False\<rparr>"

definition deserializer_from_bytes_le :: "bytes \<Rightarrow> deserializer" where
  "deserializer_from_bytes_le inp = \<lparr>input = inp, pos = 0, de_le = True\<rparr>"

text \<open>
  The cursor over the input: what is left to read, and the reads, which panic when fewer bytes
  are left than they take.
\<close>

definition chunk :: "deserializer \<Rightarrow> bytes" where
  "chunk d = drop (pos d) (input d)"

definition remaining :: "deserializer \<Rightarrow> nat" where
  "remaining d = length (chunk d)"

definition has_remaining :: "deserializer \<Rightarrow> bool" where
  "has_remaining d \<longleftrightarrow> 0 < remaining d"

definition advance :: "nat \<Rightarrow> unit de_m" where
  "advance n d = (if remaining d < n then (Panic, d) else (Ok (), d\<lparr>pos := pos d + n\<rparr>))"

definition get :: "nat \<Rightarrow> (bytes \<Rightarrow> 'a) \<Rightarrow> 'a de_m" where
  "get n g d = (if remaining d < n then (Panic, d) else (Ok (g (chunk d)), d\<lparr>pos := pos d + n\<rparr>))"

definition get_u8 :: "u8 de_m" where
  "get_u8 = get 1 hd"

section \<open>Parsing\<close>

definition zigzag_decode :: "u64 \<Rightarrow> u64" where
  "zigzag_decode val = drop_bit 1 val XOR - (val AND 1)"

definition parse_bool :: "bool de_m" where
  "parse_bool d =
     (if \<not> has_remaining d then (Err Eof, d)
      else and_then get_u8 (\<lambda>b d. (Ok (b \<noteq> 0), d)) d)"

definition parse_unsigned :: "buf_ops \<Rightarrow> u64 de_m" where
  "parse_unsigned B d =
     (if \<not> has_remaining d then (Err Eof, d)
      else and_then get_u8 (\<lambda>tag d.
        if tag = 0xFF then
          (if remaining d < 8 then (Err Eof, d)
           else get 8 (if de_le d then get_u64_le B else get_u64 B) d)
        else if tag = 0xFE then
          (if remaining d < 4 then (Err Eof, d)
           else and_then (get 4 (if de_le d then get_u32_le B else get_u32 B)) (\<lambda>v d. (Ok (ucast v), d)) d)
        else if tag = 0xFD then
          (if remaining d < 2 then (Err Eof, d)
           else and_then (get 2 (if de_le d then get_u16_le B else get_u16 B)) (\<lambda>v d. (Ok (ucast v), d)) d)
        else (Ok (ucast tag), d)) d)"

definition parse_signed :: "buf_ops \<Rightarrow> u64 de_m" where
  "parse_signed B = and_then (parse_unsigned B) (\<lambda>u d. (Ok (zigzag_decode u), d))"

text \<open>\<open>chunk().get(..len)\<close> is \<open>None\<close> when the chunk is shorter than \<open>len\<close>.\<close>

definition parse_bytes :: "buf_ops \<Rightarrow> bytes de_m" where
  "parse_bytes B = and_then (parse_unsigned B) (\<lambda>l d.
     let len = unat l in
     if remaining d < len then (Err Eof, d)
     else if length (chunk d) < len then (Err Eof, d)
     else let bs = take len (chunk d) in and_then (advance len) (\<lambda>_ d. (Ok bs, d)) d)"

definition parse_string :: "buf_ops \<Rightarrow> rstring de_m" where
  "parse_string B = and_then (parse_bytes B) (\<lambda>bs d.
     if utf8_valid bs then (Ok bs, d) else (Err Format, d))"

section \<open>Access to the elements of a compound\<close>

record type_separated =
  ts_de :: deserializer
  ts_len :: nat
  ts_pos :: nat

definition type_separated_new :: "deserializer \<Rightarrow> nat \<Rightarrow> type_separated" where
  "type_separated_new d len = \<lparr>ts_de = d, ts_len = len, ts_pos = 0\<rparr>"

text \<open>\<open>seed.deserialize(&mut *self.de)\<close>.\<close>

definition ts_deserialize :: "'a de_m \<Rightarrow> type_separated \<Rightarrow> 'a serde_result \<times> type_separated" where
  "ts_deserialize seed ts = (let (r, d) = seed (ts_de ts) in (r, ts\<lparr>ts_de := d\<rparr>))"

definition next_element_seed ::
  "'a de_m \<Rightarrow> type_separated \<Rightarrow> 'a option serde_result \<times> type_separated" where
  "next_element_seed seed ts =
     (if ts_pos ts < ts_len ts then
        (let (r, ts) = ts_deserialize seed (ts\<lparr>ts_pos := ts_pos ts + 1\<rparr>) in (map_ok Some r, ts))
      else (Ok None, ts))"

definition seq_size_hint :: "type_separated \<Rightarrow> nat option" where
  "seq_size_hint ts = Some (ts_len ts)"

definition next_key_seed ::
  "'a de_m \<Rightarrow> type_separated \<Rightarrow> 'a option serde_result \<times> type_separated" where
  "next_key_seed seed ts =
     (if ts_pos ts < ts_len ts then
        (let (r, ts) = ts_deserialize seed ts in (map_ok Some r, ts))
      else (Ok None, ts))"

definition next_value_seed ::
  "'a de_m \<Rightarrow> type_separated \<Rightarrow> 'a serde_result \<times> type_separated" where
  "next_value_seed seed ts = ts_deserialize seed (ts\<lparr>ts_pos := ts_pos ts + 1\<rparr>)"

definition map_size_hint :: "type_separated \<Rightarrow> nat option" where
  "map_size_hint ts = Some (ts_len ts)"

section \<open>Visitors\<close>

record 'v visitor =
  visit_bool :: "bool \<Rightarrow> 'v serde_result"
  visit_i8 :: "u8 \<Rightarrow> 'v serde_result"
  visit_i16 :: "u16 \<Rightarrow> 'v serde_result"
  visit_i32 :: "u32 \<Rightarrow> 'v serde_result"
  visit_i64 :: "u64 \<Rightarrow> 'v serde_result"
  visit_u8 :: "u8 \<Rightarrow> 'v serde_result"
  visit_u16 :: "u16 \<Rightarrow> 'v serde_result"
  visit_u32 :: "u32 \<Rightarrow> 'v serde_result"
  visit_u64 :: "u64 \<Rightarrow> 'v serde_result"
  visit_f32 :: "u32 \<Rightarrow> 'v serde_result"
  visit_f64 :: "u64 \<Rightarrow> 'v serde_result"
  visit_string :: "rstring \<Rightarrow> 'v serde_result"
  visit_byte_buf :: "bytes \<Rightarrow> 'v serde_result"
  visit_unit :: "'v serde_result"
  visit_none :: "'v serde_result"
  visit_some :: "'v de_m"
  visit_newtype_struct :: "'v de_m"
  visit_seq :: "type_separated \<Rightarrow> 'v serde_result \<times> type_separated"
  visit_map :: "type_separated \<Rightarrow> 'v serde_result \<times> type_separated"
  visit_enum :: "'v de_m"

section \<open>The methods of \<open>de::Deserializer\<close>\<close>

definition deserialize_any :: "'v visitor \<Rightarrow> 'v de_m" where
  "deserialize_any visitor d = (visit_unit visitor, d)"

definition deserialize_bool :: "'v visitor \<Rightarrow> 'v de_m" where
  "deserialize_bool visitor = and_then parse_bool (\<lambda>v d. (visit_bool visitor v, d))"

definition deserialize_i8 :: "buf_ops \<Rightarrow> 'v visitor \<Rightarrow> 'v de_m" where
  "deserialize_i8 B visitor = and_then (parse_signed B) (\<lambda>v d. (visit_i8 visitor (ucast v), d))"

definition deserialize_i16 :: "buf_ops \<Rightarrow> 'v visitor \<Rightarrow> 'v de_m" where
  "deserialize_i16 B visitor = and_then (parse_signed B) (\<lambda>v d. (visit_i16 visitor (ucast v), d))"

definition deserialize_i32 :: "buf_ops \<Rightarrow> 'v visitor \<Rightarrow> 'v de_m" where
  "deserialize_i32 B visitor = and_then (parse_signed B) (\<lambda>v d. (visit_i32 visitor (ucast v), d))"

definition deserialize_i64 :: "buf_ops \<Rightarrow> 'v visitor \<Rightarrow> 'v de_m" where
  "deserialize_i64 B visitor = and_then (parse_signed B) (\<lambda>v d. (visit_i64 visitor v, d))"

definition deserialize_u8 :: "buf_ops \<Rightarrow> 'v visitor \<Rightarrow> 'v de_m" where
  "deserialize_u8 B visitor = and_then (parse_unsigned B) (\<lambda>v d. (visit_u8 visitor (ucast v), d))"

definition deserialize_u16 :: "buf_ops \<Rightarrow> 'v visitor \<Rightarrow> 'v de_m" where
  "deserialize_u16 B visitor = and_then (parse_unsigned B) (\<lambda>v d. (visit_u16 visitor (ucast v), d))"

definition deserialize_u32 :: "buf_ops \<Rightarrow> 'v visitor \<Rightarrow> 'v de_m" where
  "deserialize_u32 B visitor = and_then (parse_unsigned B) (\<lambda>v d. (visit_u32 visitor (ucast v), d))"

definition deserialize_u64 :: "buf_ops \<Rightarrow> 'v visitor \<Rightarrow> 'v de_m" where
  "deserialize_u64 B visitor = and_then (parse_unsigned B) (\<lambda>v d. (visit_u64 visitor v, d))"

definition deserialize_f32 :: "buf_ops \<Rightarrow> 'v visitor \<Rightarrow> 'v de_m" where
  "deserialize_f32 B visitor d =
     (if remaining d < 4 then (Err Eof, d)
      else and_then (get 4 (get_f32 B)) (\<lambda>v d. (visit_f32 visitor v, d)) d)"

definition deserialize_f64 :: "buf_ops \<Rightarrow> 'v visitor \<Rightarrow> 'v de_m" where
  "deserialize_f64 B visitor d =
     (if remaining d < 8 then (Err Eof, d)
      else and_then (get 8 (get_f64 B)) (\<lambda>v d. (visit_f64 visitor v, d)) d)"

definition deserialize_char :: "'v visitor \<Rightarrow> 'v de_m" where
  "deserialize_char visitor d = (Panic, d)"

definition deserialize_str :: "'v visitor \<Rightarrow> 'v de_m" where
  "deserialize_str visitor d = (Panic, d)"

definition deserialize_string :: "buf_ops \<Rightarrow> 'v visitor \<Rightarrow> 'v de_m" where
  "deserialize_string B visitor = and_then (parse_string B) (\<lambda>v d. (visit_string visitor v, d))"

definition deserialize_bytes :: "'v visitor \<Rightarrow> 'v de_m" where
  "deserialize_bytes visitor d = (Panic, d)"

definition deserialize_byte_buf :: "buf_ops \<Rightarrow> 'v visitor \<Rightarrow> 'v de_m" where
  "deserialize_byte_buf B visitor = and_then (parse_bytes B) (\<lambda>v d. (visit_byte_buf visitor v, d))"

definition deserialize_option :: "'v visitor \<Rightarrow> 'v de_m" where
  "deserialize_option visitor = and_then parse_bool (\<lambda>b d.
     if b then visit_some visitor d else (visit_none visitor, d))"

definition deserialize_unit :: "'v visitor \<Rightarrow> 'v de_m" where
  "deserialize_unit visitor d = (visit_unit visitor, d)"

definition deserialize_unit_struct :: "rstring \<Rightarrow> 'v visitor \<Rightarrow> 'v de_m" where
  "deserialize_unit_struct name visitor = deserialize_unit visitor"

definition deserialize_newtype_struct :: "rstring \<Rightarrow> 'v visitor \<Rightarrow> 'v de_m" where
  "deserialize_newtype_struct name visitor = visit_newtype_struct visitor"

definition deserialize_tuple :: "nat \<Rightarrow> 'v visitor \<Rightarrow> 'v de_m" where
  "deserialize_tuple len visitor d =
     (let (r, ts) = visit_seq visitor (type_separated_new d len) in (r, ts_de ts))"

definition deserialize_seq :: "buf_ops \<Rightarrow> 'v visitor \<Rightarrow> 'v de_m" where
  "deserialize_seq B visitor = and_then (parse_unsigned B) (\<lambda>size. deserialize_tuple (unat size) visitor)"

definition deserialize_tuple_struct :: "rstring \<Rightarrow> nat \<Rightarrow> 'v visitor \<Rightarrow> 'v de_m" where
  "deserialize_tuple_struct name len visitor = deserialize_tuple len visitor"

definition deserialize_map :: "buf_ops \<Rightarrow> 'v visitor \<Rightarrow> 'v de_m" where
  "deserialize_map B visitor = and_then (parse_unsigned B) (\<lambda>size d.
     let (r, ts) = visit_map visitor (type_separated_new d (unat size)) in (r, ts_de ts))"

definition deserialize_struct :: "rstring \<Rightarrow> rstring list \<Rightarrow> 'v visitor \<Rightarrow> 'v de_m" where
  "deserialize_struct name field_names visitor = deserialize_tuple (length field_names) visitor"

text \<open>\<open>Enum\<close> holds the deserializer; its access methods work on that state.\<close>

definition deserialize_enum :: "rstring \<Rightarrow> rstring list \<Rightarrow> 'v visitor \<Rightarrow> 'v de_m" where
  "deserialize_enum name variants visitor = and_then (visit_enum visitor) (\<lambda>value d. (Ok value, d))"

definition deserialize_identifier :: "buf_ops \<Rightarrow> 'v visitor \<Rightarrow> 'v de_m" where
  "deserialize_identifier B visitor = deserialize_string B visitor"

definition deserialize_ignored_any :: "'v visitor \<Rightarrow> 'v de_m" where
  "deserialize_ignored_any visitor = deserialize_any visitor"

section \<open>Access to an enum\<close>

definition variant_seed :: "'a de_m \<Rightarrow> 'a de_m" where
  "variant_seed seed = and_then seed (\<lambda>val d. (Ok val, d))"

definition unit_variant :: "unit de_m" where
  "unit_variant d = (Ok (), d)"

definition newtype_variant_seed :: "'a de_m \<Rightarrow> 'a de_m" where
  "newtype_variant_seed seed = seed"

definition tuple_variant :: "buf_ops \<Rightarrow> nat \<Rightarrow> 'v visitor \<Rightarrow> 'v de_m" where
  "tuple_variant B len visitor = deserialize_seq B visitor"

definition struct_variant :: "buf_ops \<Rightarrow> rstring list \<Rightarrow> 'v visitor \<Rightarrow> 'v de_m" where
  "struct_variant B field_names visitor = deserialize_map B visitor"

section \<open>Entry points\<close>

definition from_bytes :: "'a de_m \<Rightarrow> bytes \<Rightarrow> 'a serde_result" where
  "from_bytes deserialize inp =
     (let (r, d) = deserialize (deserializer_from_bytes inp) in
      case r of
        Ok t \<Rightarrow> (if has_remaining d then Err TrailingBytes else Ok t)
      | Err e \<Rightarrow> Err e
      | Panic \<Rightarrow> Panic)"

definition from_bytes_le :: "'a de_m \<Rightarrow> bytes \<Rightarrow> 'a serde_result" where
  "from_bytes_le deserialize inp =
     (let (r, d) = deserialize (deserializer_from_bytes_le inp) in
      case r of
        Ok t \<Rightarrow> (if has_remaining d then Err TrailingBytes else Ok t)
      | Err e \<Rightarrow> Err e
      | Panic \<Rightarrow> Panic)"

end
