(* ===== verification/Codec.thy ===== *)
theory Codec
  imports Ser De
begin

text \<open>
  What the serializer writes and what the deserializer reads back.  The byte format is stated
  once, as functions on values (\<open>varint\<close> for integers); \<open>encodes\<close> says that a serializer call
  appends exactly given bytes, \<open>decodes\<close> that a deserializer call reads a value from given
  bytes whatever follows them and stops behind them.
\<close>

section \<open>Zigzag\<close>

lemma signed_drop_bit_63: "signed_drop_bit 63 (v :: u64) = (if bit v 63 then - 1 else 0)"
proof (rule bit_word_eqI)
  fix n assume "n < LENGTH(64)"
  then show "bit (signed_drop_bit 63 v) n = bit (if bit v 63 then - 1 else 0 :: u64) n"
    by (cases n) (auto simp: bit_signed_drop_bit_iff)
qed

lemma push_bit_1_low: "push_bit 1 (v :: u64) AND 1 = 0" "NOT (push_bit 1 v) AND 1 = 1"
proof -
  show "push_bit 1 v AND 1 = 0"
    by (rule bit_word_eqI) (auto simp: bit_simps simp del: push_bit_Suc One_nat_def)
  show "NOT (push_bit 1 v) AND 1 = 1"
    by (rule bit_word_eqI) (auto simp: bit_simps simp del: push_bit_Suc One_nat_def)
qed

lemma zigzag_decode_encode [simp]: "zigzag_decode (zigzag_encode v) = v"
proof (cases "bit v 63")
  case False
  have "drop_bit 1 (push_bit 1 v) = v"
  proof (rule bit_word_eqI)
    fix n assume "n < LENGTH(64)"
    then show "bit (drop_bit 1 (push_bit 1 v)) n = bit v n"
      using False by (cases "n = 63") (auto simp: bit_simps simp del: push_bit_Suc One_nat_def)
  qed
  then show ?thesis using False push_bit_1_low by (simp add: zigzag_encode_def zigzag_decode_def signed_drop_bit_63)
next
  case True
  let ?u = "NOT (push_bit 1 v)"
  have "NOT (drop_bit 1 ?u) = v"
  proof (rule bit_word_eqI)
    fix n assume "n < LENGTH(64)"
    then show "bit (NOT (drop_bit 1 ?u)) n = bit v n"
      using True by (cases "n = 63") (auto simp: bit_simps simp del: push_bit_Suc One_nat_def)
  qed
  moreover have "zigzag_encode v = ?u"
    using True by (simp add: zigzag_encode_def signed_drop_bit_63)
  moreover have "zigzag_decode ?u = NOT (drop_bit 1 ?u)"
    unfolding zigzag_decode_def push_bit_1_low by (simp del: push_bit_Suc One_nat_def)
  ultimately show ?thesis by (simp only:)
qed

lemma zigzag_encode_inj: "zigzag_encode v = zigzag_encode w \<longleftrightarrow> v = w"
  by (metis zigzag_decode_encode)

text \<open>
  Zigzag maps the signed values 0, -1, 1, -2, ... to the unsigned values 0, 1, 2, 3, ..., so that
  a value of small magnitude has a short encoding.
\<close>

lemma zigzag_encode_uint:
  "uint (zigzag_encode v) = (if 0 \<le> sint v then 2 * sint v else - 2 * sint v - 1)"
proof -
  have sign: "bit v 63 \<longleftrightarrow> sint v < 0" using bit_last_iff [of v] by simp
  have range: "- (2 ^ 63) \<le> sint v" "sint v < 2 ^ 63"
    using sint_greater_eq [of v] sint_less [of v] by simp_all
  have uv: "uint v = sint v mod 2 ^ 64" by (simp add: uint_sint take_bit_eq_mod)
  have "uint (push_bit 1 v) = take_bit LENGTH(64) (push_bit 1 (uint v))"
    by (rule unsigned_push_bit_eq)
  also have "\<dots> = 2 * sint v mod 2 ^ 64"
    by (simp add: take_bit_eq_mod uv mod_mult_right_eq mult.commute)
  finally have push: "uint (push_bit 1 v) = 2 * sint v mod 2 ^ 64" .
  show ?thesis
  proof (cases "0 \<le> sint v")
    case True
    then show ?thesis using range push sign by (simp add: zigzag_encode_def signed_drop_bit_63)
  next
    case False
    have "uint (NOT (push_bit 1 v)) = take_bit LENGTH(64) (NOT (uint (push_bit 1 v)))"
      by (rule unsigned_not_eq)
    also have "\<dots> = (- (2 * sint v mod 2 ^ 64) - 1) mod 2 ^ 64"
      by (simp only: push take_bit_eq_mod not_eq_complement) simp
    also have "\<dots> = (- (2 * sint v) - 1) mod 2 ^ 64"
      by (metis mod_diff_left_eq mod_minus_eq)
    also have "\<dots> = - 2 * sint v - 1" using False range by simp
    finally show ?thesis using False sign by (simp add: zigzag_encode_def signed_drop_bit_63)
  qed
qed

section \<open>The byte format\<close>

definition int_bytes :: "bool \<Rightarrow> 'a::len word \<Rightarrow> bytes" where
  "int_bytes l w = (if l then to_le_bytes w else to_be_bytes w)"

definition varint :: "u64 \<Rightarrow> bool \<Rightarrow> bytes" where
  "varint v l =
     (if v \<le> 0xFC then [ucast v]
      else if v \<le> 0xFFFF then 0xFD # int_bytes l (ucast v :: u16)
      else if 0xFFFF01 \<le> v \<and> v \<le> 0xFFFFFFFF then 0xFE # int_bytes l (ucast v :: u32)
      else 0xFF # int_bytes l v)"

definition encodes :: "serialize \<Rightarrow> (bool \<Rightarrow> bytes) \<Rightarrow> bool" where
  "encodes ser enc \<longleftrightarrow> (\<forall>s. ser s = (Ok (), put (enc (le s)) s))"

definition skip :: "nat \<Rightarrow> deserializer \<Rightarrow> deserializer" where
  "skip n d = d\<lparr>pos := pos d + n\<rparr>"

definition decodes :: "'a de_m \<Rightarrow> (bool \<Rightarrow> bytes) \<Rightarrow> 'a serde_result \<Rightarrow> bool" where
  "decodes de enc r \<longleftrightarrow>
     (\<forall>d rest. chunk d = enc (de_le d) @ rest \<longrightarrow> de d = (r, skip (length (enc (de_le d))) d))"

lemma put_put [codec_simps]: "put b (put a s) = put (a @ b) s"
  by (simp add: put_def)

lemma put_Nil [codec_simps]: "put [] s = s"
  by (simp add: put_def)

lemma put_select [simp]: "le (put a s) = le s" "out (put a s) = out s @ a"
  by (simp_all add: put_def)

lemma skip_skip [codec_simps]: "skip b (skip a d) = skip (a + b) d"
  by (simp add: skip_def add.assoc)

lemma skip_0 [codec_simps]: "skip 0 d = d"
  by (simp add: skip_def)

lemma skip_select [simp]:
  "de_le (skip n d) = de_le d" "input (skip n d) = input d" "pos (skip n d) = pos d + n"
  "chunk (skip n d) = drop n (chunk d)"
  by (simp_all add: skip_def chunk_def add.commute)

lemma encodesI: "(\<And>s. ser s = (Ok (), put (enc (le s)) s)) \<Longrightarrow> encodes ser enc"
  by (simp add: encodes_def)

lemma encodesD: "encodes ser enc \<Longrightarrow> ser s = (Ok (), put (enc (le s)) s)"
  by (simp add: encodes_def)

lemma decodesI:
  "(\<And>d rest. chunk d = enc (de_le d) @ rest \<Longrightarrow> de d = (r, skip (length (enc (de_le d))) d))
   \<Longrightarrow> decodes de enc r"
  by (simp add: decodes_def)

lemma decodesD:
  "decodes de enc r \<Longrightarrow> chunk d = enc (de_le d) @ rest \<Longrightarrow>
   de d = (r, skip (length (enc (de_le d))) d)"
  by (simp add: decodes_def)

text \<open>Sequencing with \<open>?\<close>: encodings concatenate, decodings follow one another.\<close>

lemma encodes_and_then:
  "encodes m a \<Longrightarrow> encodes n b \<Longrightarrow> encodes (and_then m (\<lambda>_. n)) (\<lambda>l. a l @ b l)"
  by (simp add: encodes_def and_then_def codec_simps)

lemma encodes_return: "encodes (\<lambda>s. (Ok (), s)) (\<lambda>_. [])"
  by (simp add: encodes_def codec_simps)

lemma encodes_and_then_return: "encodes m a \<Longrightarrow> encodes (and_then m (\<lambda>_ s. (Ok (), s))) a"
  using encodes_and_then [OF _ encodes_return] by simp

lemma decodes_and_then:
  assumes "decodes m a (Ok v)" and "decodes (f v) b r"
  shows "decodes (and_then m f) (\<lambda>l. a l @ b l) r"
proof (rule decodesI)
  fix d rest assume "chunk d = (a (de_le d) @ b (de_le d)) @ rest"
  then show "and_then m f d = (r, skip (length (a (de_le d) @ b (de_le d))) d)"
    using decodesD [OF assms(1), of d "b (de_le d) @ rest"]
      decodesD [OF assms(2), of "skip (length (a (de_le d))) d" rest]
    by (simp add: and_then_Ok skip_skip)
qed

lemma decodes_return: "decodes (\<lambda>d. (r, d)) (\<lambda>_. []) r"
  by (simp add: decodes_def skip_0)

lemma decodes_visit: "decodes m a (Ok v) \<Longrightarrow> decodes (and_then m (\<lambda>v d. (g v, d))) a (g v)"
  using decodes_and_then [OF _ decodes_return, of m a v g] by simp

text \<open>The entry points: a value that was written alone is read back, with nothing left over.\<close>

lemma to_bytes_encodes:
  "encodes ser enc \<Longrightarrow> to_bytes ser = Ok (enc False)"
  "encodes ser enc \<Longrightarrow> to_bytes_le ser = Ok (enc True)"
  by (simp_all add: encodes_def to_bytes_def to_bytes_le_def Let_def)

lemma from_bytes_decodes:
  assumes "decodes de enc r"
  shows "from_bytes de (enc False) = r" and "from_bytes_le de (enc True) = r"
  using decodesD [OF assms, of "deserializer_from_bytes (enc False)" "[]"]
    decodesD [OF assms, of "deserializer_from_bytes_le (enc True)" "[]"]
  by (simp_all add: from_bytes_def from_bytes_le_def deserializer_from_bytes_def
      deserializer_from_bytes_le_def chunk_def has_remaining_def remaining_def skip_def
      split: outcome.splits)

text \<open>Writing and reading back in either byte order: the reader ends with the result \<open>r\<close>.\<close>

definition round_trips :: "serialize \<Rightarrow> 'a de_m \<Rightarrow> 'a serde_result \<Rightarrow> bool" where
  "round_trips ser de r \<longleftrightarrow>
     (\<exists>bs. to_bytes ser = Ok bs \<and> from_bytes de bs = r) \<and>
     (\<exists>bs. to_bytes_le ser = Ok bs \<and> from_bytes_le de bs = r)"

lemma round_tripsI: "encodes ser enc \<Longrightarrow> decodes de enc r \<Longrightarrow> round_trips ser de r"
  using to_bytes_encodes [of ser enc] from_bytes_decodes [of de enc r] by (auto simp: round_trips_def)

text \<open>Bytes behind the value are an error.\<close>

lemma from_bytes_trailing:
  assumes "decodes de enc (Ok v)" and "extra \<noteq> []"
  shows "from_bytes de (enc False @ extra) = Err TrailingBytes"
    and "from_bytes_le de (enc True @ extra) = Err TrailingBytes"
  using decodesD [OF assms(1), of "deserializer_from_bytes (enc False @ extra)" extra]
    decodesD [OF assms(1), of "deserializer_from_bytes_le (enc True @ extra)" extra] assms(2)
  by (simp_all add: from_bytes_def from_bytes_le_def deserializer_from_bytes_def
      deserializer_from_bytes_le_def chunk_def has_remaining_def remaining_def skip_def)

section \<open>Reading from the cursor\<close>

lemma remaining_append: "chunk d = bs @ rest \<Longrightarrow> remaining d = length bs + length rest"
  by (simp add: remaining_def)

lemma get_append:
  "chunk d = bs @ rest \<Longrightarrow> length bs = n \<Longrightarrow> get n g d = (Ok (g (bs @ rest)), skip n d)"
  by (simp add: get_def remaining_append skip_def)

lemma get_u8_Cons: "chunk d = b # rest \<Longrightarrow> get_u8 d = (Ok b, skip (Suc 0) d)"
  using get_append [of d "[b]" rest 1 hd] by (simp add: get_u8_def)

lemma has_remaining_Cons: "chunk d = b # rest \<Longrightarrow> has_remaining d"
  by (simp add: has_remaining_def remaining_def)

lemma parse_bool_Cons: "chunk d = b # rest \<Longrightarrow> parse_bool d = (Ok (b \<noteq> 0), skip (Suc 0) d)"
  by (simp add: parse_bool_def has_remaining_Cons and_then_def get_u8_Cons)

lemma advance_append: "chunk d = bs @ rest \<Longrightarrow> advance (length bs) d = (Ok (), skip (length bs) d)"
  by (simp add: advance_def remaining_append skip_def)

section \<open>The primitives write the format and read it back\<close>

lemma length_int_bytes [simp]: "length (int_bytes l (w :: 'a::len word)) = LENGTH('a) div 8"
  by (simp add: int_bytes_def)

lemma parse_unsigned_tag:
  assumes "chunk d = tag # bs @ rest"
  shows "tag = 0xFF \<Longrightarrow> length bs = 8 \<Longrightarrow> parse_unsigned B d =
           (Ok ((if de_le d then get_u64_le B else get_u64 B) (bs @ rest)), skip 9 d)"
    and "tag = 0xFE \<Longrightarrow> length bs = 4 \<Longrightarrow> parse_unsigned B d =
           (Ok (ucast ((if de_le d then get_u32_le B else get_u32 B) (bs @ rest))), skip 5 d)"
    and "tag = 0xFD \<Longrightarrow> length bs = 2 \<Longrightarrow> parse_unsigned B d =
           (Ok (ucast ((if de_le d then get_u16_le B else get_u16 B) (bs @ rest))), skip 3 d)"
    and "tag \<notin> {0xFF, 0xFE, 0xFD} \<Longrightarrow> parse_unsigned B d = (Ok (ucast tag), skip 1 d)"
proof -
  have tl: "chunk (skip (Suc 0) d) = bs @ rest" using assms by simp
  note step = parse_unsigned_def has_remaining_Cons [OF assms] get_u8_Cons [OF assms]
    and_then_def remaining_append [OF tl] get_append [OF tl] codec_simps
  show "tag = 0xFF \<Longrightarrow> length bs = 8 \<Longrightarrow> parse_unsigned B d =
           (Ok ((if de_le d then get_u64_le B else get_u64 B) (bs @ rest)), skip 9 d)"
    and "tag = 0xFE \<Longrightarrow> length bs = 4 \<Longrightarrow> parse_unsigned B d =
           (Ok (ucast ((if de_le d then get_u32_le B else get_u32 B) (bs @ rest))), skip 5 d)"
    and "tag = 0xFD \<Longrightarrow> length bs = 2 \<Longrightarrow> parse_unsigned B d =
           (Ok (ucast ((if de_le d then get_u16_le B else get_u16 B) (bs @ rest))), skip 3 d)"
    and "tag \<notin> {0xFF, 0xFE, 0xFD} \<Longrightarrow> parse_unsigned B d = (Ok (ucast tag), skip 1 d)"
    by (simp_all add: step)
qed

context bytes_crate
begin

lemma serialize_unsigned_encodes: "encodes (serialize_unsigned B v) (varint v)"
proof (rule encodesI)
  fix s
  have low: "0xFD \<le> v" if "\<not> v \<le> 0xFC" using that by unat_arith
  show "serialize_unsigned B v s = (Ok (), put (varint v (le s)) s)"
    using low by (simp add: serialize_unsigned_def varint_def int_bytes_def Let_def codec_simps)
qed

lemma parse_unsigned_decodes: "decodes (parse_unsigned B) (varint v) (Ok v)"
proof (rule decodesI)
  fix d rest assume c: "chunk d = varint v (de_le d) @ rest"
  consider "v \<le> 0xFC" | "\<not> v \<le> 0xFC" "v \<le> 0xFFFF" | "0xFFFF01 \<le> v" "v \<le> 0xFFFFFFFF"
    | "\<not> v \<le> 0xFFFF" "\<not> (0xFFFF01 \<le> v \<and> v \<le> 0xFFFFFFFF)"
    by blast
  then show "parse_unsigned B d = (Ok v, skip (length (varint v (de_le d))) d)"
  proof cases
    case 1
    then have u: "unat v \<le> 252" by (simp add: word_le_nat_alt)
    then have "unat (ucast v :: u8) = unat v" by (simp add: unat_ucast_id)
    then have "(ucast v :: u8) \<notin> {0xFF, 0xFE, 0xFD}" using u by auto
    then show ?thesis
      using c 1 u parse_unsigned_tag(4) [of d _ "[]" rest B]
      by (simp add: varint_def ucast_ucast_id)
  next
    case 2
    then have "unat v < 2 ^ 16" by (simp add: word_le_nat_alt)
    then show ?thesis
      using c 2 parse_unsigned_tag(3) [of d _ "int_bytes (de_le d) (ucast v :: u16)" rest B]
      by (cases "de_le d") (simp_all add: varint_def int_bytes_def codec_simps ucast_ucast_id)
  next
    case 3
    then have "unat v < 2 ^ 32" by (simp add: word_le_nat_alt)
    moreover have "\<not> v \<le> 0xFC" "\<not> v \<le> 0xFFFF" using 3(1) by unat_arith+
    ultimately show ?thesis
      using c 3 parse_unsigned_tag(2) [of d _ "int_bytes (de_le d) (ucast v :: u32)" rest B]
      by (cases "de_le d") (simp_all add: varint_def int_bytes_def codec_simps ucast_ucast_id)
  next
    case 4
    have "\<not> v \<le> 0xFC" using 4(1) by unat_arith
    then show ?thesis
      using c 4 parse_unsigned_tag(1) [of d _ "int_bytes (de_le d) v" rest B]
      by (cases "de_le d") (simp_all add: varint_def int_bytes_def codec_simps)
  qed
qed

lemma parse_signed_decodes: "decodes (parse_signed B) (varint (zigzag_encode v)) (Ok v)"
  using decodes_visit [OF parse_unsigned_decodes, of "\<lambda>u. Ok (zigzag_decode u)" "zigzag_encode v"]
  by (simp add: parse_signed_def)

lemma parse_bytes_decodes:
  assumes "length v < 2 ^ 64"
  shows "decodes (parse_bytes B) (\<lambda>l. varint (word_of_nat (length v)) l @ v) (Ok v)"
  unfolding parse_bytes_def
proof (rule decodes_and_then [OF parse_unsigned_decodes])
  have n: "unat (word_of_nat (length v) :: u64) = length v" using assms by (simp add: unat_of_nat)
  show "decodes (\<lambda>d. let len = unat (word_of_nat (length v) :: u64) in
          if remaining d < len then (Err Eof, d)
          else if length (chunk d) < len then (Err Eof, d)
          else let bs = take len (chunk d) in and_then (advance len) (\<lambda>_ d. (Ok bs, d)) d)
        (\<lambda>_. v) (Ok v)"
    by (rule decodesI) (simp add: n remaining_append and_then_def advance_append)
qed

lemma parse_string_decodes:
  assumes "length v < 2 ^ 64" and "utf8_valid v"
  shows "decodes (parse_string B) (\<lambda>l. varint (word_of_nat (length v)) l @ v) (Ok v)"
  unfolding parse_string_def
  using decodes_and_then [OF parse_bytes_decodes [OF assms(1)],
      of "\<lambda>bs d. if utf8_valid bs then (Ok bs, d) else (Err Format, d)" "\<lambda>_. []" "Ok v"]
    decodes_return [of "Ok v"] assms(2)
  by simp

lemma integer_encodes [intro]:
  "encodes (serialize_u8 B a8) (varint (ucast a8))"
  "encodes (serialize_u16 B a16) (varint (ucast a16))"
  "encodes (serialize_u32 B a32) (varint (ucast a32))"
  "encodes (serialize_u64 B a64) (varint a64)"
  "encodes (serialize_i8 B a8) (varint (zigzag_encode (scast a8)))"
  "encodes (serialize_i16 B a16) (varint (zigzag_encode (scast a16)))"
  "encodes (serialize_i32 B a32) (varint (zigzag_encode (scast a32)))"
  "encodes (serialize_i64 B a64) (varint (zigzag_encode a64))"
  by (simp_all add: serialize_u8_def serialize_u16_def serialize_u32_def serialize_u64_def
      serialize_i8_def serialize_i16_def serialize_i32_def serialize_i64_def serialize_signed_def
      serialize_unsigned_encodes)

lemma integer_decodes [intro]:
  "decodes (deserialize_u8 B V) (varint (ucast a8)) (visit_u8 V a8)"
  "decodes (deserialize_u16 B V) (varint (ucast a16)) (visit_u16 V a16)"
  "decodes (deserialize_u32 B V) (varint (ucast a32)) (visit_u32 V a32)"
  "decodes (deserialize_u64 B V) (varint a64) (visit_u64 V a64)"
  "decodes (deserialize_i8 B V) (varint (zigzag_encode (scast a8))) (visit_i8 V a8)"
  "decodes (deserialize_i16 B V) (varint (zigzag_encode (scast a16))) (visit_i16 V a16)"
  "decodes (deserialize_i32 B V) (varint (zigzag_encode (scast a32))) (visit_i32 V a32)"
  "decodes (deserialize_i64 B V) (varint (zigzag_encode a64)) (visit_i64 V a64)"
  using decodes_visit [OF parse_unsigned_decodes, of "\<lambda>v. visit_u8 V (ucast v)" "ucast a8"]
    decodes_visit [OF parse_unsigned_decodes, of "\<lambda>v. visit_u16 V (ucast v)" "ucast a16"]
    decodes_visit [OF parse_unsigned_decodes, of "\<lambda>v. visit_u32 V (ucast v)" "ucast a32"]
    decodes_visit [OF parse_unsigned_decodes, of "visit_u64 V" "a64"]
    decodes_visit [OF parse_signed_decodes, of "\<lambda>v. visit_i8 V (ucast v)" "scast a8"]
    decodes_visit [OF parse_signed_decodes, of "\<lambda>v. visit_i16 V (ucast v)" "scast a16"]
    decodes_visit [OF parse_signed_decodes, of "\<lambda>v. visit_i32 V (ucast v)" "scast a32"]
    decodes_visit [OF parse_signed_decodes, of "visit_i64 V" "a64"]
  by (simp_all add: deserialize_u8_def deserialize_u16_def deserialize_u32_def deserialize_u64_def
      deserialize_i8_def deserialize_i16_def deserialize_i32_def deserialize_i64_def
      ucast_up_down ucast_scast_up_down)

lemma float_encodes [intro]:
  "encodes (serialize_f32 B a32) (\<lambda>l. int_bytes l a32)"
  "encodes (serialize_f64 B a64) (\<lambda>l. int_bytes l a64)"
  by (auto intro!: encodesI simp: serialize_f32_def serialize_f64_def int_bytes_def codec_simps)

lemma bytes_encodes [intro]:
  "encodes (serialize_bytes B v) (\<lambda>l. varint (word_of_nat (length v)) l @ v)"
proof -
  have "encodes (\<lambda>s. (Ok (), put v s)) (\<lambda>_. v)" by (simp add: encodes_def)
  then show ?thesis unfolding serialize_bytes_def by (intro encodes_and_then integer_encodes)
qed

lemma str_encodes [intro]:
  "encodes (serialize_str B v) (\<lambda>l. varint (word_of_nat (length v)) l @ v)"
  unfolding serialize_str_def by (intro encodes_and_then_return bytes_encodes)

lemma char_encodes [intro]:
  "encodes (serialize_char B c) (\<lambda>l. varint (word_of_nat (length (encode_utf8 c))) l @ encode_utf8 c)"
  unfolding serialize_char_def by (rule str_encodes)

lemma bytes_decodes [intro]:
  "length v < 2 ^ 64 \<Longrightarrow>
   decodes (deserialize_byte_buf B V) (\<lambda>l. varint (word_of_nat (length v)) l @ v) (visit_byte_buf V v)"
  unfolding deserialize_byte_buf_def by (intro decodes_visit parse_bytes_decodes)

lemma string_decodes [intro]:
  "length v < 2 ^ 64 \<Longrightarrow> utf8_valid v \<Longrightarrow>
   decodes (deserialize_string B V) (\<lambda>l. varint (word_of_nat (length v)) l @ v) (visit_string V v)"
  unfolding deserialize_string_def by (intro decodes_visit parse_string_decodes)

lemma seq_encodes [intro]:
  "encodes (serialize_seq B (Some n)) (varint (word_of_nat n))"
  "encodes (serialize_map B (Some n)) (varint (word_of_nat n))"
  "encodes (serialize_tuple B n) (varint (word_of_nat n))"
  "encodes (serialize_tuple_struct B name n) (varint (word_of_nat n))"
  by (simp_all add: serialize_map_def serialize_seq_def serialize_tuple_def serialize_tuple_struct_def
      encodes_and_then_return integer_encodes)

text \<open>
  A sequence or a map is announced by its length; the visitor then works on an access object at
  the first element.
\<close>

lemma deserialize_seq_header:
  assumes "n < 2 ^ 64" and "chunk d = varint (word_of_nat n) (de_le d) @ rest"
  shows "deserialize_seq B V d =
           deserialize_tuple n V (skip (length (varint (word_of_nat n) (de_le d))) d)"
    and "deserialize_map B V d =
           (let (r, ts) = visit_map V (type_separated_new (skip (length (varint (word_of_nat n) (de_le d))) d) n)
            in (r, ts_de ts))"
proof -
  have n: "unat (word_of_nat n :: u64) = n" using assms(1) by (simp add: unat_of_nat)
  note parsed = decodesD [OF parse_unsigned_decodes assms(2)]
  show "deserialize_seq B V d =
           deserialize_tuple n V (skip (length (varint (word_of_nat n) (de_le d))) d)"
    by (simp add: deserialize_seq_def and_then_def parsed n)
  show "deserialize_map B V d =
           (let (r, ts) = visit_map V (type_separated_new (skip (length (varint (word_of_nat n) (de_le d))) d) n)
            in (r, ts_de ts))"
    by (simp add: deserialize_map_def and_then_def parsed n)
qed

end

lemma bool_encodes [intro]:
  "encodes (serialize_bool v) (\<lambda>_. [if v then 1 else 0])"
  by (simp add: encodes_def serialize_bool_def)

lemma unit_encodes [intro]:
  "encodes serialize_unit (\<lambda>_. [])"
  "encodes (serialize_unit_struct name) (\<lambda>_. [])"
  "encodes (serialize_unit_variant name i variant) (\<lambda>_. [])"
  "encodes (serialize_struct name n) (\<lambda>_. [])"
  "encodes (serialize_struct_variant name i variant n) (\<lambda>_. [])"
  "encodes (serialize_tuple_variant name i variant n) (\<lambda>_. [])"
  by (simp_all add: encodes_def serialize_unit_def serialize_unit_struct_def serialize_unit_variant_def
      serialize_struct_def serialize_struct_variant_def serialize_tuple_variant_def codec_simps)

lemma compound_end_encodes [intro]:
  "encodes seq_end (\<lambda>_. [])" "encodes tuple_end (\<lambda>_. [])" "encodes tuple_struct_end (\<lambda>_. [])"
  "encodes tuple_variant_end (\<lambda>_. [])" "encodes map_end (\<lambda>_. [])" "encodes struct_end (\<lambda>_. [])"
  "encodes struct_variant_end (\<lambda>_. [])"
  by (simp_all add: encodes_def seq_end_def tuple_end_def tuple_struct_end_def tuple_variant_end_def
      map_end_def struct_end_def struct_variant_end_def codec_simps)

lemma option_encodes [intro]:
  "encodes serialize_none (\<lambda>_. [0])"
  "encodes value enc \<Longrightarrow> encodes (serialize_some value) (\<lambda>l. [1] @ enc l)"
  using encodes_and_then [OF bool_encodes [of True], of "value" enc] bool_encodes [of False]
  by (simp_all add: serialize_none_def serialize_some_def)

lemma bool_decodes [intro]:
  "decodes (deserialize_bool V) (\<lambda>_. [if v then 1 else 0]) (visit_bool V v)"
  by (rule decodesI) (auto simp: deserialize_bool_def and_then_def parse_bool_Cons split: if_splits)

lemma option_decodes [intro]:
  "decodes (deserialize_option V) (\<lambda>_. [0]) (visit_none V)"
  "decodes (visit_some V) enc r \<Longrightarrow> decodes (deserialize_option V) (\<lambda>l. [1] @ enc l) r"
proof -
  show "decodes (deserialize_option V) (\<lambda>_. [0]) (visit_none V)"
    by (rule decodesI) (simp add: deserialize_option_def and_then_def parse_bool_Cons)
  assume some: "decodes (visit_some V) enc r"
  show "decodes (deserialize_option V) (\<lambda>l. [1] @ enc l) r"
  proof (rule decodesI)
    fix d rest assume c: "chunk d = ([1] @ enc (de_le d)) @ rest"
    then show "deserialize_option V d = (r, skip (length ([1] @ enc (de_le d))) d)"
      using decodesD [OF some, of "skip (Suc 0) d" rest]
      by (simp add: deserialize_option_def and_then_def parse_bool_Cons codec_simps)
  qed
qed

lemma unit_decodes [intro]:
  "decodes (deserialize_unit V) (\<lambda>_. []) (visit_unit V)"
  "decodes (deserialize_unit_struct name V) (\<lambda>_. []) (visit_unit V)"
  "decodes (deserialize_any V) (\<lambda>_. []) (visit_unit V)"
  "decodes (deserialize_ignored_any V) (\<lambda>_. []) (visit_unit V)"
  by (simp_all add: decodes_def deserialize_unit_def deserialize_unit_struct_def deserialize_any_def
      deserialize_ignored_any_def codec_simps)

section \<open>The contract of a data type with the format\<close>

text \<open>
  What a connection relies on for its items (\<open>Item: DeserializeOwned + Serialize\<close>): each item
  that is well-formed is written and read back.
\<close>

locale item_codec =
  fixes ser :: "'a \<Rightarrow> serialize" and de :: "'a de_m" and good :: "'a \<Rightarrow> bool"
  assumes codec: "good x \<Longrightarrow> \<exists>enc. encodes (ser x) enc \<and> decodes de enc (Ok x)"
begin

lemma round_trip: "good x \<Longrightarrow> round_trips (ser x) de (Ok x)"
  using codec [of x] by (auto intro: round_tripsI)

lemma to_bytes_total: "good x \<Longrightarrow> \<exists>bs. to_bytes (ser x) = Ok bs"
  using codec [of x] by (auto dest: to_bytes_encodes(1))

lemma from_to_bytes: "good x \<Longrightarrow> to_bytes (ser x) = Ok bs \<Longrightarrow> from_bytes de bs = Ok x"
  using codec [of x] by (auto simp: to_bytes_encodes(1) from_bytes_decodes(1))

lemma trailing: "good x \<Longrightarrow> to_bytes (ser x) = Ok bs \<Longrightarrow> extra \<noteq> [] \<Longrightarrow> from_bytes de (bs @ extra) = Err TrailingBytes"
  using codec [of x] by (auto simp: to_bytes_encodes(1) from_bytes_trailing(1))

text \<open>Distinct items have distinct bytes.\<close>

lemma to_bytes_injective: "good x \<Longrightarrow> good y \<Longrightarrow> to_bytes (ser x) = to_bytes (ser y) \<Longrightarrow> x = y"
  by (metis from_to_bytes to_bytes_total outcome.inject(1))

end

lemma list_all2_choose:
  "(\<forall>x\<in>set xs. \<exists>y. P x y) \<Longrightarrow> \<exists>ys. list_all2 P xs ys"
  by (induction xs) (auto intro: list_all2_Cons1 [THEN iffD2])

end
