(* ===== verification/Serde_Protocol.thy ===== *)
theory Serde_Protocol
  imports Codec
begin

text \<open>
  The callers of the format.  Serde's implementations of \<open>Serialize\<close> and \<open>Deserialize\<close> for
  vectors, maps, strings and derived structs are not in the repository; the serializer and the
  deserializer take them as parameters.  This theory states the calling protocol that serde
  documents for them (open the compound, one call per element, close it; ask the access object
  for elements until it has none) as functions over the source's methods, and proves once that
  every caller that keeps to the protocol gets back what was written.  The functions here are
  instances of those parameters; they model no code of the repository.
\<close>

section \<open>Access objects\<close>

text \<open>
  \<open>accesses m n enc r\<close>: when \<open>n\<close> elements are left and the input continues with \<open>enc\<close>, the
  visitor step \<open>m\<close> reads exactly these bytes and \<open>n\<close> elements and returns \<open>r\<close>.
\<close>

definition accesses ::
  "(type_separated \<Rightarrow> 'a serde_result \<times> type_separated) \<Rightarrow> nat \<Rightarrow> (bool \<Rightarrow> bytes) \<Rightarrow> 'a serde_result \<Rightarrow> bool" where
  "accesses m n enc r \<longleftrightarrow>
     (\<forall>d len p rest. chunk d = enc (de_le d) @ rest \<and> p + n \<le> len \<longrightarrow>
        m \<lparr>ts_de = d, ts_len = len, ts_pos = p\<rparr> =
          (r, \<lparr>ts_de = skip (length (enc (de_le d))) d, ts_len = len, ts_pos = p + n\<rparr>))"

lemma accessesI:
  "(\<And>d len p rest. chunk d = enc (de_le d) @ rest \<Longrightarrow> p + n \<le> len \<Longrightarrow>
        m \<lparr>ts_de = d, ts_len = len, ts_pos = p\<rparr> =
          (r, \<lparr>ts_de = skip (length (enc (de_le d))) d, ts_len = len, ts_pos = p + n\<rparr>))
   \<Longrightarrow> accesses m n enc r"
  by (simp add: accesses_def)

lemma accessesD:
  "accesses m n enc r \<Longrightarrow> chunk d = enc (de_le d) @ rest \<Longrightarrow> p + n \<le> len \<Longrightarrow>
   m \<lparr>ts_de = d, ts_len = len, ts_pos = p\<rparr> =
     (r, \<lparr>ts_de = skip (length (enc (de_le d))) d, ts_len = len, ts_pos = p + n\<rparr>)"
  by (simp add: accesses_def)

lemma accesses_return: "accesses (\<lambda>ts. (r, ts)) 0 (\<lambda>_. []) r"
  by (simp add: accesses_def codec_simps)

lemma accesses_and_then:
  assumes "accesses m i a (Ok v)" and "accesses (f v) j b r"
  shows "accesses (and_then m f) (i + j) (\<lambda>l. a l @ b l) r"
proof (rule accessesI)
  fix d len p rest
  assume "chunk d = (a (de_le d) @ b (de_le d)) @ rest" and "p + (i + j) \<le> len"
  then show "and_then m f \<lparr>ts_de = d, ts_len = len, ts_pos = p\<rparr> =
      (r, \<lparr>ts_de = skip (length (a (de_le d) @ b (de_le d))) d, ts_len = len, ts_pos = p + (i + j)\<rparr>)"
    using accessesD [OF assms(1), of d "b (de_le d) @ rest" p len]
      accessesD [OF assms(2), of "skip (length (a (de_le d))) d" rest "p + i" len]
    by (simp add: and_then_def skip_skip add.assoc)
qed

lemma accesses_next_element:
  "decodes seed enc (Ok v) \<Longrightarrow> accesses (next_element_seed seed) 1 enc (Ok (Some v))"
  by (rule accessesI) (simp add: next_element_seed_def ts_deserialize_def decodesD)

lemma next_element_exhausted:
  "next_element_seed seed \<lparr>ts_de = d, ts_len = n, ts_pos = n\<rparr> =
     (Ok None, \<lparr>ts_de = d, ts_len = n, ts_pos = n\<rparr>)"
  "next_key_seed seed \<lparr>ts_de = d, ts_len = n, ts_pos = n\<rparr> =
     (Ok None, \<lparr>ts_de = d, ts_len = n, ts_pos = n\<rparr>)"
  by (simp_all add: next_element_seed_def next_key_seed_def)

lemma decodes_tuple:
  assumes "accesses (visit_seq V) n enc r" and "n \<le> len"
  shows "decodes (deserialize_tuple len V) enc r"
  by (rule decodesI)
    (simp add: deserialize_tuple_def type_separated_new_def accessesD [OF assms(1) _ , where p = 0] assms(2))

section \<open>A sequence\<close>

text \<open>A writer: one call of \<open>elem\<close> per element.\<close>

primrec ser_elements :: "(serialize \<Rightarrow> serialize) \<Rightarrow> serialize list \<Rightarrow> serialize" where
  "ser_elements elem [] = (\<lambda>s. (Ok (), s))"
| "ser_elements elem (x # xs) = and_then (elem x) (\<lambda>_. ser_elements elem xs)"

definition ser_vec :: "buf_ops \<Rightarrow> ('a \<Rightarrow> serialize) \<Rightarrow> 'a list \<Rightarrow> serialize" where
  "ser_vec B ser xs =
     and_then (serialize_seq B (Some (length xs)))
       (\<lambda>_. and_then (ser_elements seq_serialize_element (map ser xs)) (\<lambda>_. seq_end))"

text \<open>A reader: elements until the access object has none.\<close>

lemma next_element_seed_progress:
  "next_element_seed seed ts = (Ok (Some x), ts') \<Longrightarrow>
   ts_len ts' - ts_pos ts' < ts_len ts - ts_pos ts"
  by (auto simp: next_element_seed_def ts_deserialize_def split: if_splits prod.splits)

function collect_elements ::
  "'a de_m \<Rightarrow> type_separated \<Rightarrow> 'a list serde_result \<times> type_separated" where
  "collect_elements seed ts =
     (case next_element_seed seed ts of
        (Ok (Some x), ts') \<Rightarrow> map_prod (map_ok (Cons x)) id (collect_elements seed ts')
      | (Ok None, ts') \<Rightarrow> (Ok [], ts')
      | (Err e, ts') \<Rightarrow> (Err e, ts')
      | (Panic, ts') \<Rightarrow> (Panic, ts'))"
  by pat_completeness auto
termination
  by (relation "measure (\<lambda>(seed, ts). ts_len ts - ts_pos ts)") (auto dest: next_element_seed_progress sym)

declare collect_elements.simps [simp del]

definition all_bytes :: "(bool \<Rightarrow> bytes) list \<Rightarrow> bool \<Rightarrow> bytes" where
  "all_bytes encs l = concat (map (\<lambda>e. e l) encs)"

lemma all_bytes_simps [simp]:
  "all_bytes [] = (\<lambda>_. [])" "all_bytes (e # es) = (\<lambda>l. e l @ all_bytes es l)"
  by (simp_all add: all_bytes_def fun_eq_iff)

lemma ser_elements_encodes:
  "list_all2 encodes (map elem sers) encs \<Longrightarrow> encodes (ser_elements elem sers) (all_bytes encs)"
proof (induction sers arbitrary: encs)
  case Nil
  then show ?case by (simp add: encodes_return)
next
  case (Cons x xs)
  then show ?case by (auto simp: list_all2_Cons1 intro!: encodes_and_then)
qed

lemma collect_elements_decodes:
  "list_all2 (\<lambda>enc x. decodes seed enc (Ok x)) encs xs \<Longrightarrow>
   chunk d = all_bytes encs (de_le d) @ rest \<Longrightarrow> p + length xs = n \<Longrightarrow>
   collect_elements seed \<lparr>ts_de = d, ts_len = n, ts_pos = p\<rparr> =
     (Ok xs, \<lparr>ts_de = skip (length (all_bytes encs (de_le d))) d, ts_len = n, ts_pos = n\<rparr>)"
proof (induction encs xs arbitrary: d p rule: list_all2_induct)
  case Nil
  then show ?case
    by (subst collect_elements.simps) (simp add: next_element_exhausted codec_simps)
next
  case (Cons enc encs x xs)
  let ?d = "skip (length (enc (de_le d))) d"
  have "next_element_seed seed \<lparr>ts_de = d, ts_len = n, ts_pos = p\<rparr> =
      (Ok (Some x), \<lparr>ts_de = ?d, ts_len = n, ts_pos = p + 1\<rparr>)"
    using accessesD [OF accesses_next_element [OF Cons.hyps(1)], of d _ p n] Cons.prems by simp
  moreover have "collect_elements seed \<lparr>ts_de = ?d, ts_len = n, ts_pos = p + 1\<rparr> =
      (Ok xs, \<lparr>ts_de = skip (length (all_bytes encs (de_le ?d))) ?d, ts_len = n, ts_pos = n\<rparr>)"
    using Cons.prems by (intro Cons.IH) simp_all
  ultimately show ?case
    by (subst collect_elements.simps) (simp add: skip_skip)
qed

text \<open>A visitor that accepts nothing: serde's default methods report an invalid type.\<close>

definition no_visitor :: "'v visitor" where
  "no_visitor =
     (let e = Err (de_custom []) in
      \<lparr>visit_bool = (\<lambda>_. e), visit_i8 = (\<lambda>_. e), visit_i16 = (\<lambda>_. e), visit_i32 = (\<lambda>_. e),
       visit_i64 = (\<lambda>_. e), visit_u8 = (\<lambda>_. e), visit_u16 = (\<lambda>_. e), visit_u32 = (\<lambda>_. e),
       visit_u64 = (\<lambda>_. e), visit_f32 = (\<lambda>_. e), visit_f64 = (\<lambda>_. e), visit_string = (\<lambda>_. e),
       visit_byte_buf = (\<lambda>_. e), visit_unit = e, visit_none = e, visit_some = (\<lambda>d. (e, d)),
       visit_newtype_struct = (\<lambda>d. (e, d)), visit_seq = (\<lambda>ts. (e, ts)), visit_map = (\<lambda>ts. (e, ts)),
       visit_enum = (\<lambda>d. (e, d))\<rparr>)"

definition vec_visitor :: "'a de_m \<Rightarrow> 'a list visitor" where
  "vec_visitor seed = no_visitor\<lparr>visit_seq := collect_elements seed\<rparr>"

definition u64_visitor :: "u64 visitor" where
  "u64_visitor = no_visitor\<lparr>visit_u64 := Ok\<rparr>"

definition u32_visitor :: "u32 visitor" where
  "u32_visitor = no_visitor\<lparr>visit_u32 := Ok\<rparr>"

definition string_visitor :: "rstring visitor" where
  "string_visitor = no_visitor\<lparr>visit_string := Ok\<rparr>"

lemma visitor_select [simp]:
  "visit_seq (vec_visitor seed) = collect_elements seed"
  "visit_u64 u64_visitor v = Ok v" "visit_u32 u32_visitor w = Ok w" "visit_string string_visitor t = Ok t"
  by (simp_all add: vec_visitor_def u64_visitor_def u32_visitor_def string_visitor_def)

section \<open>A map\<close>

primrec ser_entries :: "(serialize \<times> serialize) list \<Rightarrow> serialize" where
  "ser_entries [] = (\<lambda>s. (Ok (), s))"
| "ser_entries (e # es) =
     and_then (map_serialize_key (fst e)) (\<lambda>_. and_then (map_serialize_value (snd e)) (\<lambda>_. ser_entries es))"

definition ser_map :: "buf_ops \<Rightarrow> ('k \<Rightarrow> serialize) \<Rightarrow> ('v \<Rightarrow> serialize) \<Rightarrow> ('k \<times> 'v) list \<Rightarrow> serialize" where
  "ser_map B kser vser es =
     and_then (serialize_map B (Some (length es)))
       (\<lambda>_. and_then (ser_entries (map (map_prod kser vser) es)) (\<lambda>_. map_end))"

definition next_entry ::
  "'k de_m \<Rightarrow> 'v de_m \<Rightarrow> type_separated \<Rightarrow> ('k \<times> 'v) option serde_result \<times> type_separated" where
  "next_entry kseed vseed = and_then (next_key_seed kseed) (\<lambda>ko ts.
     case ko of
       None \<Rightarrow> (Ok None, ts)
     | Some k \<Rightarrow> map_prod (map_ok (\<lambda>v. Some (k, v))) id (next_value_seed vseed ts))"

lemma next_entry_progress:
  "next_entry kseed vseed ts = (Ok (Some x), ts') \<Longrightarrow>
   ts_len ts' - ts_pos ts' < ts_len ts - ts_pos ts"
  by (auto simp: next_entry_def and_then_def next_key_seed_def next_value_seed_def ts_deserialize_def
      split: if_splits prod.splits outcome.splits option.splits)

function collect_entries ::
  "'k de_m \<Rightarrow> 'v de_m \<Rightarrow> type_separated \<Rightarrow> ('k \<times> 'v) list serde_result \<times> type_separated" where
  "collect_entries kseed vseed ts =
     (case next_entry kseed vseed ts of
        (Ok (Some x), ts') \<Rightarrow> map_prod (map_ok (Cons x)) id (collect_entries kseed vseed ts')
      | (Ok None, ts') \<Rightarrow> (Ok [], ts')
      | (Err e, ts') \<Rightarrow> (Err e, ts')
      | (Panic, ts') \<Rightarrow> (Panic, ts'))"
  by pat_completeness auto
termination
  by (relation "measure (\<lambda>(kseed, vseed, ts). ts_len ts - ts_pos ts)") (auto dest: next_entry_progress sym)

declare collect_entries.simps [simp del]

definition map_visitor :: "'k de_m \<Rightarrow> 'v de_m \<Rightarrow> ('k \<times> 'v) list visitor" where
  "map_visitor kseed vseed = no_visitor\<lparr>visit_map := collect_entries kseed vseed\<rparr>"

lemma next_entry_decodes:
  assumes "decodes kseed a (Ok k)" and "decodes vseed b (Ok v)"
  shows "accesses (next_entry kseed vseed) 1 (\<lambda>l. a l @ b l) (Ok (Some (k, v)))"
proof (rule accessesI)
  fix d len p rest
  assume "chunk d = (a (de_le d) @ b (de_le d)) @ rest" and "p + 1 \<le> (len :: nat)"
  then show "next_entry kseed vseed \<lparr>ts_de = d, ts_len = len, ts_pos = p\<rparr> =
      (Ok (Some (k, v)),
       \<lparr>ts_de = skip (length (a (de_le d) @ b (de_le d))) d, ts_len = len, ts_pos = p + 1\<rparr>)"
    using decodesD [OF assms(1), of d "b (de_le d) @ rest"]
      decodesD [OF assms(2), of "skip (length (a (de_le d))) d" rest]
    by (simp add: next_entry_def and_then_def next_key_seed_def next_value_seed_def
        ts_deserialize_def skip_skip)
qed

lemma ser_entries_encodes:
  "list_all2 (\<lambda>e enc. encodes (fst e) (fst enc) \<and> encodes (snd e) (snd enc)) es encs \<Longrightarrow>
   encodes (ser_entries es) (all_bytes (map (\<lambda>enc l. fst enc l @ snd enc l) encs))"
proof (induction es encs rule: list_all2_induct)
  case Nil
  then show ?case by (simp add: encodes_return)
next
  case (Cons e es enc encs)
  then show ?case
    using encodes_and_then [OF _ encodes_and_then [OF _ Cons.IH], of "fst e" "fst enc" "snd e" "snd enc"]
    by (simp add: map_serialize_key_def map_serialize_value_def)
qed

lemma collect_entries_decodes:
  "list_all2 (\<lambda>enc x. decodes kseed (fst enc) (Ok (fst x)) \<and> decodes vseed (snd enc) (Ok (snd x))) encs xs \<Longrightarrow>
   chunk d = all_bytes (map (\<lambda>enc l. fst enc l @ snd enc l) encs) (de_le d) @ rest \<Longrightarrow> p + length xs = n \<Longrightarrow>
   collect_entries kseed vseed \<lparr>ts_de = d, ts_len = n, ts_pos = p\<rparr> =
     (Ok xs, \<lparr>ts_de = skip (length (all_bytes (map (\<lambda>enc l. fst enc l @ snd enc l) encs) (de_le d))) d,
              ts_len = n, ts_pos = n\<rparr>)"
proof (induction encs xs arbitrary: d p rule: list_all2_induct)
  case Nil
  then show ?case
    by (subst collect_entries.simps) (simp add: next_entry_def and_then_def next_element_exhausted codec_simps)
next
  case (Cons enc encs x xs)
  let ?e = "\<lambda>l. fst enc l @ snd enc l"
  let ?d = "skip (length (?e (de_le d))) d"
  let ?all = "\<lambda>encs. all_bytes (map (\<lambda>enc l. fst enc l @ snd enc l) encs)"
  have "next_entry kseed vseed \<lparr>ts_de = d, ts_len = n, ts_pos = p\<rparr> =
      (Ok (Some x), \<lparr>ts_de = ?d, ts_len = n, ts_pos = p + 1\<rparr>)"
    using accessesD [OF next_entry_decodes, of kseed "fst enc" "fst x" vseed "snd enc" "snd x" d _ p n]
      Cons.hyps(1) Cons.prems by simp
  moreover have "collect_entries kseed vseed \<lparr>ts_de = ?d, ts_len = n, ts_pos = p + 1\<rparr> =
      (Ok xs, \<lparr>ts_de = skip (length (?all encs (de_le ?d))) ?d, ts_len = n, ts_pos = n\<rparr>)"
    using Cons.prems by (intro Cons.IH) simp_all
  ultimately show ?case
    by (subst collect_entries.simps) (simp add: skip_skip add.assoc)
qed

section \<open>Vectors and maps are read back\<close>

context bytes_crate
begin

lemma vec_codec:
  assumes "list_all2 (\<lambda>x enc. encodes (ser x) enc \<and> decodes seed enc (Ok x)) xs encs"
    and "length xs < 2 ^ 64"
  shows "encodes (ser_vec B ser xs) (\<lambda>l. varint (word_of_nat (length xs)) l @ all_bytes encs l)"
    and "decodes (deserialize_seq B (vec_visitor seed))
           (\<lambda>l. varint (word_of_nat (length xs)) l @ all_bytes encs l) (Ok xs)"
proof -
  have e: "list_all2 encodes (map seq_serialize_element (map ser xs)) encs"
    using assms(1) by (auto simp: list_all2_conv_all_nth seq_serialize_element_def)
  show "encodes (ser_vec B ser xs) (\<lambda>l. varint (word_of_nat (length xs)) l @ all_bytes encs l)"
    unfolding ser_vec_def
    using encodes_and_then [OF seq_encodes(1) encodes_and_then [OF ser_elements_encodes [OF e]
        compound_end_encodes(1)]] by simp
  have d: "list_all2 (\<lambda>enc x. decodes seed enc (Ok x)) encs xs"
    using assms(1) by (auto simp: list_all2_conv_all_nth)
  show "decodes (deserialize_seq B (vec_visitor seed))
           (\<lambda>l. varint (word_of_nat (length xs)) l @ all_bytes encs l) (Ok xs)"
    by (rule decodesI)
      (simp add: deserialize_seq_header(1) [OF assms(2)] deserialize_tuple_def type_separated_new_def
        collect_elements_decodes [OF d] skip_skip)
qed

lemma map_codec:
  assumes "list_all2 (\<lambda>x enc. encodes (kser (fst x)) (fst enc) \<and> encodes (vser (snd x)) (snd enc) \<and>
             decodes kseed (fst enc) (Ok (fst x)) \<and> decodes vseed (snd enc) (Ok (snd x))) es encs"
    and "length es < 2 ^ 64"
  shows "encodes (ser_map B kser vser es)
           (\<lambda>l. varint (word_of_nat (length es)) l @ all_bytes (map (\<lambda>enc l. fst enc l @ snd enc l) encs) l)"
    and "decodes (deserialize_map B (map_visitor kseed vseed))
           (\<lambda>l. varint (word_of_nat (length es)) l @ all_bytes (map (\<lambda>enc l. fst enc l @ snd enc l) encs) l)
           (Ok es)"
proof -
  have e: "list_all2 (\<lambda>e enc. encodes (fst e) (fst enc) \<and> encodes (snd e) (snd enc))
      (map (map_prod kser vser) es) encs"
    using assms(1) by (auto simp: list_all2_conv_all_nth)
  show "encodes (ser_map B kser vser es)
           (\<lambda>l. varint (word_of_nat (length es)) l @ all_bytes (map (\<lambda>enc l. fst enc l @ snd enc l) encs) l)"
    unfolding ser_map_def
    using encodes_and_then [OF seq_encodes(2) encodes_and_then [OF ser_entries_encodes [OF e]
        compound_end_encodes(5)]] by simp
  have d: "list_all2 (\<lambda>enc x. decodes kseed (fst enc) (Ok (fst x)) \<and> decodes vseed (snd enc) (Ok (snd x))) encs es"
    using assms(1) by (auto simp: list_all2_conv_all_nth)
  show "decodes (deserialize_map B (map_visitor kseed vseed))
           (\<lambda>l. varint (word_of_nat (length es)) l @ all_bytes (map (\<lambda>enc l. fst enc l @ snd enc l) encs) l)
           (Ok es)"
    by (rule decodesI)
      (simp add: deserialize_seq_header(2) [OF assms(2)] type_separated_new_def map_visitor_def
        collect_entries_decodes [OF d] skip_skip)
qed

end

section \<open>Codecs of vectors, maps, strings and integers\<close>

text \<open>The element codecs carry over to the compounds.\<close>

lemma vec_item_codec:
  assumes "bytes_crate B" and "item_codec ser seed good"
  shows "item_codec (ser_vec B ser) (deserialize_seq B (vec_visitor seed))
           (\<lambda>xs. length xs < 2 ^ 64 \<and> (\<forall>x\<in>set xs. good x))"
proof
  let ?P = "\<lambda>x enc. encodes (ser x) enc \<and> decodes seed enc (Ok x)"
  fix xs :: "'a list" assume wf: "length xs < 2 ^ 64 \<and> (\<forall>x\<in>set xs. good x)"
  then have "\<forall>x\<in>set xs. \<exists>enc. ?P x enc"
    using item_codec.codec [OF assms(2)] by blast
  then obtain encs where encs: "list_all2 ?P xs encs" using list_all2_choose [of xs ?P] by blast
  then show "\<exists>enc. encodes (ser_vec B ser xs) enc \<and> decodes (deserialize_seq B (vec_visitor seed)) enc (Ok xs)"
    using bytes_crate.vec_codec [OF assms(1) encs] wf by blast
qed

lemma map_item_codec:
  assumes "bytes_crate B" and "item_codec kser kseed kwf" and "item_codec vser vseed vwf"
  shows "item_codec (ser_map B kser vser) (deserialize_map B (map_visitor kseed vseed))
           (\<lambda>es. length es < 2 ^ 64 \<and> (\<forall>(k, v)\<in>set es. kwf k \<and> vwf v))"
proof
  let ?P = "\<lambda>x enc. encodes (kser (fst x)) (fst enc) \<and> encodes (vser (snd x)) (snd enc) \<and>
    decodes kseed (fst enc) (Ok (fst x)) \<and> decodes vseed (snd enc) (Ok (snd x))"
  fix es :: "('a \<times> 'b) list" assume wf: "length es < 2 ^ 64 \<and> (\<forall>(k, v)\<in>set es. kwf k \<and> vwf v)"
  have "\<exists>enc. ?P x enc" if "x \<in> set es" for x
  proof -
    have "kwf (fst x)" "vwf (snd x)" using wf that by (auto simp: case_prod_beta)
    then obtain a b where "encodes (kser (fst x)) a \<and> decodes kseed a (Ok (fst x))"
      "encodes (vser (snd x)) b \<and> decodes vseed b (Ok (snd x))"
      using item_codec.codec [OF assms(2)] item_codec.codec [OF assms(3)] by blast
    then have "?P x (a, b)" by simp
    then show ?thesis by blast
  qed
  then obtain encs where "list_all2 ?P es encs" using list_all2_choose [of es ?P] by blast
  then show "\<exists>enc. encodes (ser_map B kser vser es) enc \<and>
      decodes (deserialize_map B (map_visitor kseed vseed)) enc (Ok es)"
    using bytes_crate.map_codec [OF assms(1)] wf by blast
qed

definition string_wf :: "rstring \<Rightarrow> bool" where
  "string_wf s \<longleftrightarrow> length s < 2 ^ 64 \<and> utf8_valid s"

lemma string_item_codec:
  assumes "bytes_crate B"
  shows "item_codec (serialize_str B) (deserialize_string B string_visitor) string_wf"
proof
  fix x assume "string_wf x"
  then show "\<exists>enc. encodes (serialize_str B x) enc \<and> decodes (deserialize_string B string_visitor) enc (Ok x)"
    using bytes_crate.str_encodes [OF assms, of x] bytes_crate.string_decodes [OF assms, of x string_visitor]
    by (auto simp: string_wf_def)
qed

lemma u64_item_codec:
  assumes "bytes_crate B"
  shows "item_codec (serialize_u64 B) (deserialize_u64 B u64_visitor) (\<lambda>_. True)"
  using bytes_crate.integer_encodes(4) [OF assms] bytes_crate.integer_decodes(4) [OF assms, of u64_visitor]
  by unfold_locales auto

lemma u32_item_codec:
  assumes "bytes_crate B"
  shows "item_codec (serialize_u32 B) (deserialize_u32 B u32_visitor) (\<lambda>_. True)"
  using bytes_crate.integer_encodes(3) [OF assms] bytes_crate.integer_decodes(3) [OF assms, of u32_visitor]
  by unfold_locales auto

end
