(* ===== verification/Serde_Properties.thy ===== *)
theory Serde_Properties
  imports Serde_Protocol "HOL-Library.Sublist"
begin

text \<open>
  The properties of the serialization format: what is written is read back, for every kind of
  value the server uses; the sizes of the encodings; truncated and overlong inputs are
  reported; no input makes a parser panic or read outside its input; and the places where
  the serializer and the deserializer disagree.
\<close>

section \<open>Safety of the parsers\<close>

definition reads_safely :: "'a de_m \<Rightarrow> bool" where
  "reads_safely m \<longleftrightarrow>
     (\<forall>d. pos d \<le> length (input d) \<longrightarrow>
        fst (m d) \<noteq> Panic \<and> input (snd (m d)) = input d \<and> de_le (snd (m d)) = de_le d \<and>
        pos d \<le> pos (snd (m d)) \<and> pos (snd (m d)) \<le> length (input d))"

lemma reads_safely_and_then:
  assumes "reads_safely m" and "\<And>v. reads_safely (f v)"
  shows "reads_safely (and_then m f)"
  unfolding reads_safely_def
proof (intro allI impI)
  fix d :: deserializer assume d: "pos d \<le> length (input d)"
  obtain r d' where m: "m d = (r, d')" by (cases "m d")
  have r: "r \<noteq> Panic" and d': "input d' = input d" "de_le d' = de_le d" "pos d \<le> pos d'"
    "pos d' \<le> length (input d)"
    using assms(1) d m unfolding reads_safely_def by fastforce+
  show "fst (and_then m f d) \<noteq> Panic \<and> input (snd (and_then m f d)) = input d \<and>
      de_le (snd (and_then m f d)) = de_le d \<and>
      pos d \<le> pos (snd (and_then m f d)) \<and> pos (snd (and_then m f d)) \<le> length (input d)"
  proof (cases r)
    case (Ok v)
    then have "and_then m f d = f v d'" using m by (simp add: and_then_Ok)
    moreover have "pos d' \<le> length (input d')" using d' by simp
    ultimately show ?thesis using assms(2) [of v] d' unfolding reads_safely_def by fastforce
  next
    case (Err e)
    then show ?thesis using m d' by (simp add: and_then_Err)
  qed (use r in simp)
qed

lemma reads_safely_return [intro]: "r \<noteq> Panic \<Longrightarrow> reads_safely (\<lambda>d. (r, d))"
  by (simp add: reads_safely_def)

lemma from_bytes_safe: "reads_safely de \<Longrightarrow> from_bytes de bs \<noteq> Panic"
  by (auto simp: reads_safely_def from_bytes_def deserializer_from_bytes_def split: prod.splits outcome.splits)
    (metis deserializer.select_convs(2) fst_conv le0)

lemma reads_safely_guarded_get:
  "reads_safely (\<lambda>d. if remaining d < n then (Err Eof, d) else get n (g d) d)"
  by (auto simp: reads_safely_def get_def remaining_def chunk_def)

lemma reads_safely_guarded_get_then:
  assumes "\<And>v. reads_safely (f v)"
  shows "reads_safely (\<lambda>d. if remaining d < n then (Err Eof, d) else and_then (get n (g d)) f d)"
proof -
  have "reads_safely (and_then (\<lambda>d. if remaining d < n then (Err Eof, d) else get n (g d) d) f)"
    by (intro reads_safely_and_then reads_safely_guarded_get assms)
  then show ?thesis
    by (rule back_subst [of reads_safely]) (auto simp: fun_eq_iff and_then_def)
qed

lemma reads_safely_cond:
  "reads_safely m \<Longrightarrow> reads_safely n \<Longrightarrow> reads_safely (\<lambda>d. if c d then m d else n d)"
  by (simp add: reads_safely_def)

lemma parse_bool_safe: "reads_safely parse_bool"
  by (auto simp: reads_safely_def parse_bool_def and_then_def get_u8_def get_def has_remaining_def
      remaining_def chunk_def)

lemma get_u8_guarded_safe:
  "(\<And>b. reads_safely (f b)) \<Longrightarrow>
   reads_safely (\<lambda>d. if \<not> has_remaining d then (Err Eof, d) else and_then get_u8 f d)"
  using reads_safely_guarded_get_then [of f 1 "\<lambda>_. hd"]
  unfolding has_remaining_def get_u8_def by simp

lemma parse_unsigned_safe: "reads_safely (parse_unsigned B)"
  unfolding parse_unsigned_def
  by (intro get_u8_guarded_safe reads_safely_guarded_get reads_safely_guarded_get_then reads_safely_cond reads_safely_return) simp_all

lemma parse_signed_safe: "reads_safely (parse_signed B)"
  unfolding parse_signed_def by (intro reads_safely_and_then parse_unsigned_safe reads_safely_return) simp

lemma parse_bytes_safe: "reads_safely (parse_bytes B)"
  unfolding parse_bytes_def
proof (intro reads_safely_and_then parse_unsigned_safe)
  fix v :: u64
  show "reads_safely (\<lambda>d. let len = unat v in
      if remaining d < len then (Err Eof, d)
      else if length (chunk d) < len then (Err Eof, d)
      else let bs = take len (chunk d) in and_then (advance len) (\<lambda>_ d. (Ok bs, d)) d)"
    by (auto simp: reads_safely_def and_then_def advance_def remaining_def chunk_def Let_def)
qed

lemma parse_string_safe: "reads_safely (parse_string B)"
  unfolding parse_string_def
  by (intro reads_safely_and_then parse_bytes_safe reads_safely_cond reads_safely_return) simp_all

text \<open>
  Visitors of the caller are safe when they do not panic and use the access object only through
  safe seeds.
\<close>

definition accesses_safely :: "(type_separated \<Rightarrow> 'a serde_result \<times> type_separated) \<Rightarrow> bool" where
  "accesses_safely m \<longleftrightarrow>
     (\<forall>d n p. pos d \<le> length (input d) \<longrightarrow>
        (let (r, ts) = m \<lparr>ts_de = d, ts_len = n, ts_pos = p\<rparr> in
           r \<noteq> Panic \<and> input (ts_de ts) = input d \<and> de_le (ts_de ts) = de_le d \<and>
           pos d \<le> pos (ts_de ts) \<and> pos (ts_de ts) \<le> length (input d)))"

definition safe_visitor :: "'v visitor \<Rightarrow> bool" where
  "safe_visitor V \<longleftrightarrow>
     (\<forall>b. visit_bool V b \<noteq> Panic) \<and> (\<forall>v. visit_i8 V v \<noteq> Panic) \<and> (\<forall>v. visit_i16 V v \<noteq> Panic) \<and>
     (\<forall>v. visit_i32 V v \<noteq> Panic) \<and> (\<forall>v. visit_i64 V v \<noteq> Panic) \<and> (\<forall>v. visit_u8 V v \<noteq> Panic) \<and>
     (\<forall>v. visit_u16 V v \<noteq> Panic) \<and> (\<forall>v. visit_u32 V v \<noteq> Panic) \<and> (\<forall>v. visit_u64 V v \<noteq> Panic) \<and>
     (\<forall>v. visit_f32 V v \<noteq> Panic) \<and> (\<forall>v. visit_f64 V v \<noteq> Panic) \<and> (\<forall>v. visit_string V v \<noteq> Panic) \<and>
     (\<forall>v. visit_byte_buf V v \<noteq> Panic) \<and> visit_unit V \<noteq> Panic \<and> visit_none V \<noteq> Panic \<and>
     reads_safely (visit_some V) \<and> reads_safely (visit_newtype_struct V) \<and> reads_safely (visit_enum V) \<and>
     accesses_safely (visit_seq V) \<and> accesses_safely (visit_map V)"

lemma deserialize_tuple_safe: "accesses_safely (visit_seq V) \<Longrightarrow> reads_safely (deserialize_tuple n V)"
  by (auto simp: accesses_safely_def reads_safely_def deserialize_tuple_def type_separated_new_def
      split: prod.splits)

lemma deserialize_seq_safe: "accesses_safely (visit_seq V) \<Longrightarrow> reads_safely (deserialize_seq B V)"
  unfolding deserialize_seq_def
  by (intro reads_safely_and_then parse_unsigned_safe deserialize_tuple_safe)

lemma deserialize_map_safe: "accesses_safely (visit_map V) \<Longrightarrow> reads_safely (deserialize_map B V)"
  unfolding deserialize_map_def
proof (intro reads_safely_and_then parse_unsigned_safe)
  fix v :: u64
  assume "accesses_safely (visit_map V)"
  then show "reads_safely (\<lambda>d. let (r, ts) = visit_map V (type_separated_new d (unat v)) in (r, ts_de ts))"
    by (auto simp: accesses_safely_def reads_safely_def type_separated_new_def split: prod.splits)
qed

lemma collect_elements_safe:
  assumes seed: "reads_safely seed"
  shows "accesses_safely (collect_elements seed)"
proof -
  have main: "pos (ts_de ts) \<le> length (input (ts_de ts)) \<Longrightarrow>
      (let (r, ts') = collect_elements seed ts in
         r \<noteq> Panic \<and> input (ts_de ts') = input (ts_de ts) \<and> de_le (ts_de ts') = de_le (ts_de ts) \<and>
         pos (ts_de ts) \<le> pos (ts_de ts') \<and> pos (ts_de ts') \<le> length (input (ts_de ts)))" for ts
    using seed
  proof (induction seed ts rule: collect_elements.induct)
    case (1 seed ts)
    obtain r d where s: "seed (ts_de ts) = (r, d)" by fastforce
    have safe: "r \<noteq> Panic" "input d = input (ts_de ts)" "de_le d = de_le (ts_de ts)" "pos (ts_de ts) \<le> pos d"
      "pos d \<le> length (input d)"
      using 1(2,3) s unfolding reads_safely_def by fastforce+
    show ?case
    proof (cases "ts_pos ts < ts_len ts")
      case False
      then show ?thesis
        using 1(2) by (simp add: collect_elements.simps [of seed ts] next_element_seed_def)
    next
      case True
      let ?ts = "ts\<lparr>ts_pos := ts_pos ts + 1, ts_de := d\<rparr>"
      have n: "next_element_seed seed ts = (map_ok Some r, ?ts)"
        using True s by (simp add: next_element_seed_def ts_deserialize_def)
      show ?thesis
      proof (cases r)
        case (Ok x)
        then have "next_element_seed seed ts = (Ok (Some x), ?ts)" using n by simp
        from 1(1) [OF this [symmetric] refl refl] 1(3) safe
        show ?thesis
          by (auto simp: collect_elements.simps [of seed ts] n Ok map_ok_def split: prod.splits outcome.splits)
      qed (use safe n in \<open>auto simp: collect_elements.simps [of seed ts]\<close>)
    qed
  qed
  show ?thesis
    unfolding accesses_safely_def
  proof (intro allI impI)
    fix d :: deserializer and n p assume "pos d \<le> length (input d)"
    then show "let (r, ts) = collect_elements seed \<lparr>ts_de = d, ts_len = n, ts_pos = p\<rparr> in
        r \<noteq> Panic \<and> input (ts_de ts) = input d \<and> de_le (ts_de ts) = de_le d \<and>
        pos d \<le> pos (ts_de ts) \<and> pos (ts_de ts) \<le> length (input d)"
      using main [of "\<lparr>ts_de = d, ts_len = n, ts_pos = p\<rparr>"] by simp
  qed
qed

lemma and_then_visit_safe:
  "reads_safely m \<Longrightarrow> (\<And>v. g v \<noteq> Panic) \<Longrightarrow> reads_safely (and_then m (\<lambda>v d. (g v, d)))"
  by (intro reads_safely_and_then reads_safely_return)

section \<open>Truncated input\<close>

lemma parse_unsigned_short:
  assumes "chunk d = tag # ps"
    and "(tag = 0xFF \<and> length ps < 8) \<or> (tag = 0xFE \<and> length ps < 4) \<or> (tag = 0xFD \<and> length ps < 2)"
  shows "fst (parse_unsigned B d) = Err Eof"
  using assms(2)
  by (auto simp: parse_unsigned_def has_remaining_Cons [OF assms(1)] and_then_def get_u8_Cons [OF assms(1)]
      remaining_def assms(1))

lemma parse_unsigned_truncated:
  assumes "strict_prefix p (varint v l)" and "chunk d = p"
  shows "fst (parse_unsigned B d) = Err Eof"
proof (cases p)
  case Nil
  then show ?thesis using assms(2) by (simp add: parse_unsigned_def has_remaining_def remaining_def)
next
  case (Cons tag ps)
  obtain qs where q: "varint v l = tag # qs" and pre: "strict_prefix ps qs"
    using assms(1) Cons by (cases "varint v l") auto
  have "length ps < length qs" using pre by (rule prefix_length_less)
  then show ?thesis
    using q by (intro parse_unsigned_short [of d tag ps] assms(2) [unfolded Cons])
      (auto simp: varint_def split: if_splits)
qed

lemma parse_bytes_truncated:
  assumes "bytes_crate B" and "length v < 2 ^ 64"
    and "strict_prefix p (varint (word_of_nat (length v)) (de_le d) @ v)" and "chunk d = p"
  shows "fst (parse_bytes B d) = Err Eof"
proof (cases "strict_prefix p (varint (word_of_nat (length v)) (de_le d))")
  case True
  then have "fst (parse_unsigned B d) = Err Eof" using parse_unsigned_truncated assms(4) by blast
  then show ?thesis by (auto simp: parse_bytes_def and_then_def split: prod.splits)
next
  case False
  let ?a = "varint (word_of_nat (length v)) (de_le d)"
  have "prefix p ?a \<or> (\<exists>w. p = ?a @ w \<and> prefix w v)"
    using assms(3) prefix_append [of p ?a v] by (simp add: strict_prefix_def)
  moreover have "p = ?a" if "prefix p ?a" using that False by (simp add: strict_prefix_def)
  ultimately obtain w where p: "p = ?a @ w" and "prefix w v" by fastforce
  then have w: "strict_prefix w v" using assms(3) by (auto simp: strict_prefix_def)
  have n: "unat (word_of_nat (length v) :: u64) = length v" using assms(2) by (simp add: unat_of_nat)
  have "parse_unsigned B d = (Ok (word_of_nat (length v)),
      skip (length (varint (word_of_nat (length v)) (de_le d))) d)"
    using decodesD [OF bytes_crate.parse_unsigned_decodes [OF assms(1)]] assms(4) p by blast
  moreover have "length w < length v" using w by (rule prefix_length_less)
  ultimately show ?thesis using assms(4) p by (simp add: parse_bytes_def and_then_def n remaining_def)
qed

lemma from_bytes_Err: "fst (de (deserializer_from_bytes inp)) = Err e \<Longrightarrow> from_bytes de inp = Err e"
  by (auto simp: from_bytes_def split: prod.splits)

lemma fst_and_then_Err: "fst (m s) = Err e \<Longrightarrow> fst (and_then m f s) = Err e"
  by (auto simp: and_then_def split: prod.splits)

lemma chunk_from_bytes [simp]:
  "chunk (deserializer_from_bytes inp) = inp" "de_le (deserializer_from_bytes inp) = False"
  by (simp_all add: deserializer_from_bytes_def chunk_def)

section \<open>A caller that writes a tuple\<close>

definition ser_tuple :: "buf_ops \<Rightarrow> ('a \<Rightarrow> serialize) \<Rightarrow> 'a list \<Rightarrow> serialize" where
  "ser_tuple B ser xs =
     and_then (serialize_tuple B (length xs))
       (\<lambda>_. and_then (ser_elements tuple_serialize_element (map ser xs)) (\<lambda>_. tuple_end))"

lemma ser_tuple_encodes:
  assumes "bytes_crate B" and "list_all2 (\<lambda>x enc. encodes (ser x) enc) xs encs"
  shows "encodes (ser_tuple B ser xs) (\<lambda>l. varint (word_of_nat (length xs)) l @ all_bytes encs l)"
proof -
  have e: "list_all2 encodes (map tuple_serialize_element (map ser xs)) encs"
    using assms(2) by (auto simp: list_all2_conv_all_nth tuple_serialize_element_def)
  show ?thesis
    unfolding ser_tuple_def
    using encodes_and_then [OF bytes_crate.seq_encodes(3) [OF assms(1)]
        encodes_and_then [OF ser_elements_encodes [OF e] compound_end_encodes(2)]] by simp
qed

lemma varint_nonempty [simp]: "varint v l \<noteq> []"
  by (simp add: varint_def)

section \<open>Properties\<close>

text \<open>C1: every integer type, signed or not, is read back exactly as it was written, in either
  byte order and at every value: the deserializer hands the visitor the value that was serialized
  and nothing is left over.\<close>

theorem integer_round_trip:
  assumes "bytes_crate B"
  shows "round_trips (serialize_u8 B va) (deserialize_u8 B Va) (visit_u8 Va va)
       \<and> round_trips (serialize_u16 B vb) (deserialize_u16 B Vb) (visit_u16 Vb vb)
       \<and> round_trips (serialize_u32 B vc) (deserialize_u32 B Vc) (visit_u32 Vc vc)
       \<and> round_trips (serialize_u64 B vd) (deserialize_u64 B Vd) (visit_u64 Vd vd)
       \<and> round_trips (serialize_i8 B va) (deserialize_i8 B Va) (visit_i8 Va va)
       \<and> round_trips (serialize_i16 B vb) (deserialize_i16 B Vb) (visit_i16 Vb vb)
       \<and> round_trips (serialize_i32 B vc) (deserialize_i32 B Vc) (visit_i32 Vc vc)
       \<and> round_trips (serialize_i64 B vd) (deserialize_i64 B Vd) (visit_i64 Vd vd)"
  using round_tripsI [OF bytes_crate.integer_encodes(1) [OF assms] bytes_crate.integer_decodes(1) [OF assms]]
    round_tripsI [OF bytes_crate.integer_encodes(2) [OF assms] bytes_crate.integer_decodes(2) [OF assms]]
    round_tripsI [OF bytes_crate.integer_encodes(3) [OF assms] bytes_crate.integer_decodes(3) [OF assms]]
    round_tripsI [OF bytes_crate.integer_encodes(4) [OF assms] bytes_crate.integer_decodes(4) [OF assms]]
    round_tripsI [OF bytes_crate.integer_encodes(5) [OF assms] bytes_crate.integer_decodes(5) [OF assms]]
    round_tripsI [OF bytes_crate.integer_encodes(6) [OF assms] bytes_crate.integer_decodes(6) [OF assms]]
    round_tripsI [OF bytes_crate.integer_encodes(7) [OF assms] bytes_crate.integer_decodes(7) [OF assms]]
    round_tripsI [OF bytes_crate.integer_encodes(8) [OF assms] bytes_crate.integer_decodes(8) [OF assms]]
  by blast

theorem integer_round_trip_witness:
  "round_trips (serialize_u64 std_bytes 70000) (deserialize_u64 std_bytes u64_visitor) (Ok 70000)"
proof -
  have "round_trips (serialize_u64 std_bytes 70000) (deserialize_u64 std_bytes u64_visitor) (visit_u64 u64_visitor 70000)"
    using integer_round_trip [OF std.bytes_crate_axioms] by blast
  then show ?thesis by simp
qed

text \<open>C23: strings and byte strings are read back as they were written.  A character is written like the string of that
  one character: read as a string it comes back as that string, but read as a character it makes the
  deserializer panic, since deserialize_char is not implemented.\<close>

theorem text_round_trip:
  assumes "bytes_crate B" and "length v < 2 ^ 64" and "utf8_valid v" and "is_scalar c"
  shows "round_trips (serialize_str B v) (deserialize_string B V) (visit_string V v)
       \<and> round_trips (serialize_char B c) (deserialize_string B V) (visit_string V (encode_utf8 c))
       \<and> (\<exists>bs. to_bytes (serialize_char B c) = Ok bs \<and> from_bytes (deserialize_char W) bs = Panic)
       \<and> round_trips (serialize_bytes B v) (deserialize_byte_buf B V) (visit_byte_buf V v)"
proof -
  have c: "length (encode_utf8 c) < 2 ^ 64" by (simp add: encode_utf8_def)
  have "\<exists>bs. to_bytes (serialize_char B c) = Ok bs \<and> from_bytes (deserialize_char W) bs = Panic"
    using to_bytes_encodes(1) [OF bytes_crate.char_encodes [OF assms(1)]]
    by (auto simp: deserialize_char_def from_bytes_def)
  then show ?thesis
    using round_tripsI [OF bytes_crate.str_encodes [OF assms(1)] bytes_crate.string_decodes [OF assms(1,2,3)]]
      round_tripsI [OF bytes_crate.char_encodes [OF assms(1)]
        bytes_crate.string_decodes [OF assms(1) c utf8_valid_encode [OF assms(4)]]]
      round_tripsI [OF bytes_crate.bytes_encodes [OF assms(1)] bytes_crate.bytes_decodes [OF assms(1,2)]]
    by blast
qed

theorem text_round_trip_witness:
  "round_trips (serialize_str std_bytes [0x68, 0x69]) (deserialize_string std_bytes string_visitor) (Ok [0x68, 0x69]) \<and>
   (\<exists>bs. to_bytes (serialize_char std_bytes 65) = Ok bs \<and> from_bytes (deserialize_char string_visitor) bs = Panic)"
proof -
  have "length [0x68, 0x69 :: byte] < 2 ^ 64" "utf8_valid [0x68, 0x69]" "is_scalar 65"
    by (simp_all add: is_scalar_def)
  from text_round_trip [OF std.bytes_crate_axioms this, where V = string_visitor and W = string_visitor] show ?thesis by simp
qed

text \<open>C24: a sequence whose elements are read back is itself read back, element by element in order, for
  every length below 2 to the 64 and every element type that keeps its own contract.\<close>

theorem sequence_round_trip:
  assumes "bytes_crate B" and "item_codec ser seed good" and "length xs < 2 ^ 64" and "\<forall>x\<in>set xs. good x"
  shows "round_trips (ser_vec B ser xs) (deserialize_seq B (vec_visitor seed)) (Ok xs)"
  using item_codec.round_trip [OF vec_item_codec [OF assms(1,2)]] assms(3,4) by blast

theorem sequence_round_trip_witness:
  "round_trips (ser_vec std_bytes (serialize_u64 std_bytes) [8848, 8849])
     (deserialize_seq std_bytes (vec_visitor (deserialize_u64 std_bytes u64_visitor))) (Ok [8848, 8849])"
  by (rule sequence_round_trip [OF std.bytes_crate_axioms u64_item_codec [OF std.bytes_crate_axioms]]) simp_all

text \<open>C25: a map is read back with its entries in the order in which they were written.\<close>

theorem map_round_trip:
  assumes "bytes_crate B" and "item_codec kser kseed kgood" and "item_codec vser vseed vgood"
    and "length es < 2 ^ 64" and "\<forall>(k, v)\<in>set es. kgood k \<and> vgood v"
  shows "round_trips (ser_map B kser vser es) (deserialize_map B (map_visitor kseed vseed)) (Ok es)"
  using item_codec.round_trip [OF map_item_codec [OF assms(1,2,3)]] assms(4,5) by blast

theorem map_round_trip_witness:
  "round_trips (ser_map std_bytes (serialize_str std_bytes) (serialize_u64 std_bytes) [([0x61], 7)])
     (deserialize_map std_bytes (map_visitor (deserialize_string std_bytes string_visitor)
        (deserialize_u64 std_bytes u64_visitor))) (Ok [([0x61], 7)])"
  by (rule map_round_trip [OF std.bytes_crate_axioms string_item_codec [OF std.bytes_crate_axioms]
        u64_item_codec [OF std.bytes_crate_axioms]]) (simp_all add: string_wf_def)

text \<open>An optional value is read back: nothing as nothing, and a present value as itself when the value
  can be read back.\<close>

theorem option_round_trip:
  assumes "encodes ser enc" and "decodes (visit_some V) enc r"
  shows "round_trips serialize_none (deserialize_option V) (visit_none V)
       \<and> round_trips (serialize_some ser) (deserialize_option V) r"
  using round_tripsI [OF option_encodes(1) option_decodes(1)]
    round_tripsI [OF option_encodes(2) [OF assms(1)] option_decodes(2) [OF assms(2)]]
  by blast

theorem option_round_trip_witness:
  "round_trips (serialize_some (serialize_u64 std_bytes 5))
     (deserialize_option (no_visitor\<lparr>visit_some := deserialize_u64 std_bytes u64_visitor\<rparr>)) (Ok 5)"
proof -
  let ?V = "no_visitor\<lparr>visit_some := deserialize_u64 std_bytes u64_visitor\<rparr>"
  have "decodes (visit_some ?V) (varint 5) (Ok 5)"
    using std.integer_decodes(4) [of u64_visitor 5] by simp
  from option_round_trip [OF std.integer_encodes(4) this] show ?thesis by blast
qed

text \<open>C26: zigzag coding is a bijection between signed and unsigned 64-bit values that sends a value to
  twice its magnitude, less one for negative values: no value is lost, and values near zero stay small.\<close>

theorem zigzag_correct:
  "zigzag_decode (zigzag_encode v) = v \<and>
   uint (zigzag_encode v) = (if 0 \<le> sint v then 2 * sint v else - 2 * sint v - 1) \<and> bij zigzag_encode"
proof -
  have "inj zigzag_encode" by (metis injI zigzag_decode_encode)
  then have "bij zigzag_encode" using finite_UNIV_inj_surj [of zigzag_encode] by (simp add: bij_def)
  then show ?thesis using zigzag_encode_uint [of v] by simp
qed

text \<open>C27: the length of the encoding of an unsigned integer, at every value.\<close>

theorem varint_length:
  assumes "bytes_crate B" and "to_bytes (serialize_u64 B v) = Ok bs"
  shows "length bs = (if v \<le> 0xFC then 1 else if v \<le> 0xFFFF then 3
                      else if 0xFFFF01 \<le> v \<and> v \<le> 0xFFFFFFFF then 5 else 9)"
  using to_bytes_encodes(1) [OF bytes_crate.integer_encodes(4) [OF assms(1), of v]] assms(2)
  by (auto simp: varint_def)

theorem varint_length_witness:
  "\<exists>bs. to_bytes (serialize_u64 std_bytes 0xFD) = Ok bs \<and> length bs = 3"
proof -
  obtain bs where b: "to_bytes (serialize_u64 std_bytes 0xFD) = Ok bs"
    using item_codec.to_bytes_total [OF u64_item_codec [OF std.bytes_crate_axioms]] by blast
  with varint_length [OF std.bytes_crate_axioms b] show ?thesis by simp
qed

text \<open>The values from 0x10000 to 0xFFFF00 fit in four bytes, and the deserializer accepts the
  five-byte form with the tag 0xFE for them, but the serializer writes nine bytes: the lower bound
  0xFFFF01 of the four-byte case leaves a gap behind the two-byte case.\<close>

theorem four_byte_gap:
  assumes "bytes_crate B" and "0x10000 \<le> v" and "v \<le> 0xFFFF00"
  shows "to_bytes (serialize_u64 B v) = Ok (0xFF # to_be_bytes v)
       \<and> length (0xFF # to_be_bytes v) = 9
       \<and> from_bytes (deserialize_u64 B V) (0xFE # to_be_bytes (ucast v :: u32)) = visit_u64 V v"
proof -
  have gap: "\<not> v \<le> 0xFC" "\<not> v \<le> 0xFFFF" "\<not> 0xFFFF01 \<le> v" using assms(2,3) by unat_arith+
  have "unat v < 2 ^ 32" using assms(3) by unat_arith
  then have id: "ucast (ucast v :: u32) = v" by (simp add: ucast_ucast_id)
  let ?d = "deserializer_from_bytes (0xFE # to_be_bytes (ucast v :: u32))"
  have "parse_unsigned B ?d = (Ok v, skip 5 ?d)"
    using parse_unsigned_tag(2) [of ?d _ "to_be_bytes (ucast v :: u32)" "[]" B]
      bytes_crate.get_u32 [OF assms(1), of "ucast v" "[]"] id by simp
  then have "from_bytes (deserialize_u64 B V) (0xFE # to_be_bytes (ucast v :: u32)) = visit_u64 V v"
    by (simp add: from_bytes_def deserialize_u64_def and_then_def has_remaining_def remaining_def
        split: outcome.splits)
  moreover have "to_bytes (serialize_u64 B v) = Ok (0xFF # to_be_bytes v)"
    using to_bytes_encodes(1) [OF bytes_crate.integer_encodes(4) [OF assms(1), of v]] gap
    by (simp add: varint_def int_bytes_def)
  ultimately show ?thesis by simp
qed

theorem four_byte_gap_witness:
  "to_bytes (serialize_u64 std_bytes 0x10000) = Ok (0xFF # to_be_bytes (0x10000 :: u64))"
proof -
  have "(0x10000 :: u64) \<le> 0x10000" "(0x10000 :: u64) \<le> 0xFFFF00" by simp_all
  from four_byte_gap [OF std.bytes_crate_axioms this] show ?thesis by blast
qed

text \<open>A truncated input is reported as an unexpected end of input: every proper prefix of the bytes
  of an integer or of a string is rejected with Eof, never read as another value.\<close>

theorem truncation_is_eof:
  assumes "bytes_crate B" and "length s < 2 ^ 64"
    and "to_bytes (serialize_u64 B v) = Ok bs" and "strict_prefix p bs"
    and "to_bytes (serialize_str B s) = Ok ss" and "strict_prefix q ss"
  shows "from_bytes (deserialize_u64 B V) p = Err Eof \<and> from_bytes (deserialize_string B W) q = Err Eof"
proof -
  have "strict_prefix p (varint v False)"
    using assms(3,4) to_bytes_encodes(1) [OF bytes_crate.integer_encodes(4) [OF assms(1), of v]] by simp
  then have "fst (parse_unsigned B (deserializer_from_bytes p)) = Err Eof"
    by (rule parse_unsigned_truncated) simp
  moreover have "strict_prefix q (varint (word_of_nat (length s)) (de_le (deserializer_from_bytes q)) @ s)"
    using assms(5,6) to_bytes_encodes(1) [OF bytes_crate.str_encodes [OF assms(1), of s]] by simp
  then have "fst (parse_bytes B (deserializer_from_bytes q)) = Err Eof"
    using parse_bytes_truncated [OF assms(1,2)] by simp
  ultimately show ?thesis
    by (intro conjI from_bytes_Err)
      (simp_all add: deserialize_u64_def deserialize_string_def parse_string_def fst_and_then_Err)
qed

theorem truncation_is_eof_witness:
  "from_bytes (deserialize_u64 std_bytes u64_visitor) [] = Err Eof
   \<and> from_bytes (deserialize_string std_bytes string_visitor) [1] = Err Eof"
proof -
  have u: "to_bytes (serialize_u64 std_bytes 5) = Ok [5]"
    using to_bytes_encodes(1) [OF std.integer_encodes(4), of 5] by (simp add: varint_def)
  have s: "to_bytes (serialize_str std_bytes [0x61]) = Ok [1, 0x61]"
    using to_bytes_encodes(1) [OF std.str_encodes, of "[0x61]"] by (simp add: varint_def)
  have "length [0x61 :: byte] < 2 ^ 64" "strict_prefix [] [5 :: byte]" "strict_prefix [1] [1, 0x61 :: byte]"
    by simp_all
  then show ?thesis using truncation_is_eof [OF std.bytes_crate_axioms _ u _ s] by blast
qed

text \<open>Bytes behind a complete value are reported as TrailingBytes, for every item type that keeps
  the contract of the format; and distinct items have distinct bytes.\<close>

theorem trailing_bytes_rejected:
  assumes "item_codec ser de good" and "good x" and "to_bytes (ser x) = Ok bs" and "extra \<noteq> []"
  shows "from_bytes de (bs @ extra) = Err TrailingBytes \<and> from_bytes de bs = Ok x"
  using item_codec.trailing [OF assms] item_codec.from_to_bytes [OF assms(1,2,3)] by blast

theorem trailing_bytes_rejected_witness:
  "from_bytes (deserialize_u64 std_bytes u64_visitor) ([5] @ [6]) = Err TrailingBytes"
proof -
  have u: "to_bytes (serialize_u64 std_bytes 5) = Ok [5]"
    using to_bytes_encodes(1) [OF std.integer_encodes(4), of 5] by (simp add: varint_def)
  show ?thesis
    using trailing_bytes_rejected [OF u64_item_codec [OF std.bytes_crate_axioms] _ u, of "[6]"] by blast
qed


lemma no_visitor_safe: "safe_visitor no_visitor"
  by (simp add: safe_visitor_def no_visitor_def Let_def accesses_safely_def reads_safely_return)

lemma vec_visitor_safe: "reads_safely seed \<Longrightarrow> safe_visitor (vec_visitor seed)"
  using no_visitor_safe unfolding safe_visitor_def vec_visitor_def by (auto intro: collect_elements_safe)


text \<open>Bytes that are not valid UTF-8 are rejected as a format error where a string is expected,
  although they have the right length.\<close>

theorem invalid_utf8_rejected:
  assumes "bytes_crate B" and "length v < 2 ^ 64" and "\<not> utf8_valid v" and "to_bytes (serialize_bytes B v) = Ok bs"
  shows "from_bytes (deserialize_string B V) bs = Err Format"
proof -
  let ?d = "deserializer_from_bytes bs"
  have "bs = varint (word_of_nat (length v)) False @ v"
    using to_bytes_encodes(1) [OF bytes_crate.bytes_encodes [OF assms(1), of v]] assms(4) by simp
  then have "parse_bytes B ?d = (Ok v, skip (length bs) ?d)"
    using decodesD [OF bytes_crate.parse_bytes_decodes [OF assms(1,2)], of ?d "[]"] by simp
  then show ?thesis
    using assms(3) by (intro from_bytes_Err) (simp add: deserialize_string_def parse_string_def and_then_def)
qed

theorem invalid_utf8_rejected_witness:
  "from_bytes (deserialize_string std_bytes string_visitor) [1, 0xFF] = Err Format"
proof -
  have s: "to_bytes (serialize_bytes std_bytes [0xFF]) = Ok [1, 0xFF]"
    using to_bytes_encodes(1) [OF std.bytes_encodes, of "[0xFF]"] by (simp add: varint_def)
  have "\<not> utf8_valid [0xFF]" "length [0xFF :: byte] < 2 ^ 64" by (simp_all add: Let_def)
  then show ?thesis using invalid_utf8_rejected [OF std.bytes_crate_axioms _ _ s] by blast
qed

text \<open>C40: a tuple is not read back.  The serializer writes the number of elements in front of a tuple and
  the deserializer does not read it, so that reading a non-empty tuple of integers takes the count for
  the first element and fails with TrailingBytes.\<close>

theorem tuple_not_read_back:
  assumes "bytes_crate B" and "xs \<noteq> []"
  shows "\<exists>bs. to_bytes (ser_tuple B (serialize_u64 B) xs) = Ok bs \<and>
           from_bytes (deserialize_tuple (length xs) (vec_visitor (deserialize_u64 B u64_visitor))) bs
             = Err TrailingBytes"
proof -
  let ?seed = "deserialize_u64 B u64_visitor" and ?n = "word_of_nat (length xs) :: u64"
  let ?ys = "?n # butlast xs" and ?e = "varint (last xs)"
  let ?bs = "all_bytes (map varint ?ys) False @ ?e False"
  have "encodes (ser_tuple B (serialize_u64 B) xs) (\<lambda>l. varint ?n l @ all_bytes (map varint xs) l)"
    by (intro ser_tuple_encodes assms(1))
      (simp add: list_all2_conv_all_nth bytes_crate.integer_encodes(4) [OF assms(1)])
  moreover have "all_bytes (map varint xs) l = all_bytes (map varint (butlast xs)) l @ ?e l" for l
    using assms(2) by (induction xs) auto
  ultimately have w: "to_bytes (ser_tuple B (serialize_u64 B) xs) = Ok ?bs"
    by (simp add: to_bytes_encodes(1))
  have "list_all2 (\<lambda>enc x. decodes ?seed enc (Ok x)) (map varint ?ys) ?ys"
    using bytes_crate.integer_decodes(4) [OF assms(1), of u64_visitor]
    by (simp add: list.rel_map list.rel_refl_strong)
  from collect_elements_decodes [OF this, of "deserializer_from_bytes ?bs" "?e False" 0 "length xs"]
  have "from_bytes (deserialize_tuple (length xs) (vec_visitor ?seed)) ?bs = Err TrailingBytes"
    using assms(2)
    by (simp add: from_bytes_def deserialize_tuple_def type_separated_new_def has_remaining_def remaining_def)
  then show ?thesis using w by blast
qed

theorem tuple_not_read_back_witness:
  "\<exists>bs. to_bytes (ser_tuple std_bytes (serialize_u64 std_bytes) [5, 6]) = Ok bs \<and>
     from_bytes (deserialize_tuple 2 (vec_visitor (deserialize_u64 std_bytes u64_visitor))) bs = Err TrailingBytes"
  using tuple_not_read_back [OF std.bytes_crate_axioms, of "[5, 6]"] by (simp add: numeral_2_eq_2)

text \<open>Floating-point numbers are read back in big-endian order only.  In little-endian order the
  serializer honours the byte order and the deserializer does not: the visitor receives the number with
  its bytes reversed.\<close>

theorem float_byte_order:
  assumes "bytes_crate B"
  shows "(\<exists>bs. to_bytes (serialize_f32 B v) = Ok bs \<and> from_bytes (deserialize_f32 B V) bs = visit_f32 V v)
       \<and> (\<exists>bs. to_bytes_le (serialize_f32 B v) = Ok bs \<and>
            from_bytes_le (deserialize_f32 B V) bs = visit_f32 V (from_be_bytes (to_le_bytes v)))
       \<and> (\<exists>bs. to_bytes (serialize_f64 B w) = Ok bs \<and> from_bytes (deserialize_f64 B V) bs = visit_f64 V w)
       \<and> (\<exists>bs. to_bytes_le (serialize_f64 B w) = Ok bs \<and>
            from_bytes_le (deserialize_f64 B V) bs = visit_f64 V (from_be_bytes (to_le_bytes w)))"
proof -
  have f32: "decodes (deserialize_f32 B V) (\<lambda>_. to_be_bytes x) (visit_f32 V x)" for x
    by (rule decodesI) (simp add: deserialize_f32_def remaining_append and_then_def get_append
        bytes_crate.get_f32 [OF assms])
  have f64: "decodes (deserialize_f64 B V) (\<lambda>_. to_be_bytes x) (visit_f64 V x)" for x
    by (rule decodesI) (simp add: deserialize_f64_def remaining_append and_then_def get_append
        bytes_crate.get_f64 [OF assms])
  have swap: "to_be_bytes (from_be_bytes (to_le_bytes v) :: u32) = to_le_bytes v"
    "to_be_bytes (from_be_bytes (to_le_bytes w) :: u64) = to_le_bytes w"
    by (simp_all add: to_be_bytes_from_be_bytes)
  show ?thesis
    using to_bytes_encodes [OF bytes_crate.float_encodes(1) [OF assms, of v]]
      to_bytes_encodes [OF bytes_crate.float_encodes(2) [OF assms, of w]]
      from_bytes_decodes(1) [OF f32 [of v]] from_bytes_decodes(1) [OF f64 [of w]]
      from_bytes_decodes(2) [OF f32 [of "from_be_bytes (to_le_bytes v)"]]
      from_bytes_decodes(2) [OF f64 [of "from_be_bytes (to_le_bytes w)"]]
    by (simp add: swap int_bytes_def)
qed

theorem float_byte_order_witness:
  "\<exists>bs. to_bytes_le (serialize_f32 std_bytes 0x3F800000) = Ok bs \<and>
     from_bytes_le (deserialize_f32 std_bytes (no_visitor\<lparr>visit_f32 := Ok\<rparr>)) bs = Ok 0x0000803F"
proof -
  have "from_be_bytes (to_le_bytes (0x3F800000 :: u32)) = (0x0000803F :: u32)"
    by (simp add: to_le_bytes_def to_be_bytes_def from_be_bytes_def from_be_nat_def)
  then show ?thesis
    using float_byte_order [OF std.bytes_crate_axioms, where v = "0x3F800000" and V = "no_visitor\<lparr>visit_f32 := Ok\<rparr>"]
    by simp
qed

text \<open>A unit variant of an enum is not read back.  The serializer writes nothing for it, whichever
  variant it is, and the deserializer reads the variant's name as a string, which the empty input does
  not have.\<close>

theorem unit_variant_not_read_back:
  "to_bytes (serialize_unit_variant name i variant) = Ok [] \<and>
   from_bytes (deserialize_enum name variants
     (V\<lparr>visit_enum := and_then (variant_seed (deserialize_identifier B W)) f\<rparr>)) [] = Err Eof"
proof -
  have "fst (parse_unsigned B (deserializer_from_bytes [])) = Err Eof"
    by (simp add: parse_unsigned_def has_remaining_def remaining_def)
  then have "from_bytes (deserialize_enum name variants
      (V\<lparr>visit_enum := and_then (variant_seed (deserialize_identifier B W)) f\<rparr>)) [] = Err Eof"
    by (intro from_bytes_Err)
      (simp add: deserialize_enum_def variant_seed_def deserialize_identifier_def deserialize_string_def
        parse_string_def parse_bytes_def fst_and_then_Err)
  then show ?thesis by (simp add: to_bytes_encodes(1) [OF unit_encodes(3)])
qed

text \<open>The format does not describe itself.  Where the caller ignores an element
  (deserialize_ignored_any, deserialize_any) no byte is read, so the element that the caller meant to skip is
  handed to it as the next one.\<close>

theorem ignored_element_not_skipped:
  assumes "decodes seed enc (Ok x)" and "chunk d = enc (de_le d) @ rest" and "2 \<le> n" and "visit_unit V = Ok u"
  shows "and_then (next_element_seed (deserialize_ignored_any V)) (\<lambda>_. next_element_seed seed)
           (type_separated_new d n)
         = (Ok (Some x), \<lparr>ts_de = skip (length (enc (de_le d))) d, ts_len = n, ts_pos = 2\<rparr>)"
proof -
  have "next_element_seed (deserialize_ignored_any V) (type_separated_new d n) =
      (Ok (Some u), \<lparr>ts_de = d, ts_len = n, ts_pos = 1\<rparr>)"
    using assms(3,4)
    by (simp add: next_element_seed_def ts_deserialize_def type_separated_new_def deserialize_ignored_any_def
        deserialize_any_def)
  then show ?thesis
    using accessesD [OF accesses_next_element [OF assms(1)] assms(2), of 1 n] assms(3)
    by (simp add: and_then_def)
qed

theorem ignored_element_not_skipped_witness:
  "fst (and_then (next_element_seed (deserialize_ignored_any (no_visitor\<lparr>visit_unit := Ok ()\<rparr>)))
      (\<lambda>_. next_element_seed (deserialize_u64 std_bytes u64_visitor))
      (type_separated_new (deserializer_from_bytes [5, 6]) 2)) = Ok (Some 5)"
proof -
  let ?d = "deserializer_from_bytes [5, 6]"
  have "decodes (deserialize_u64 std_bytes u64_visitor) (varint 5) (Ok 5)"
    using std.integer_decodes(4) [of u64_visitor 5] by simp
  moreover have "chunk ?d = varint 5 (de_le ?d) @ [6]" by (simp add: varint_def)
  moreover have "visit_unit (no_visitor\<lparr>visit_unit := Ok ()\<rparr>) = Ok ()" by simp
  ultimately show ?thesis
    using ignored_element_not_skipped [of _ _ _ ?d "[6]" 2] by fastforce
qed

end
