(* ===== verification/Connect_Error.thy ===== *)
theory Connect_Error
  imports Serde_Error
begin

text \<open>
  The error type of the connection layer, \<open>connect/src/error.rs\<close>: a serialization error, a lost
  connection, or a response that did not come in time.
\<close>

datatype connect_error = Serde serde_error | Disconnected | Timeout

type_synonym 'a connect_result = "('a, connect_error) outcome"

fun connect_error_fmt :: "connect_error \<Rightarrow> rstring" where
  "connect_error_fmt (Serde e) = serde_error_fmt e"
| "connect_error_fmt Disconnected = str_bytes ''client disconnected''"
| "connect_error_fmt Timeout = str_bytes ''client response timeout''"

text \<open>\<open>?\<close> on a serialization result converts the error with \<open>From\<close>.\<close>

definition from_serde :: "'a serde_result \<Rightarrow> 'a connect_result" where
  "from_serde r = (case r of Ok a \<Rightarrow> Ok a | Err e \<Rightarrow> Err (Serde e) | Panic \<Rightarrow> Panic)"

lemma from_serde_simps [simp]:
  "from_serde (Ok a) = Ok a" "from_serde (Err e) = Err (Serde e)" "from_serde Panic = Panic"
  by (simp_all add: from_serde_def)

end
