(* ===== verification/Connection.thy ===== *)
theory Connection
  imports Connect_Error Codec "HOL-Library.Sublist"
begin

text \<open>
  Framing, \<open>connect/src/connection.rs\<close> and \<open>im/src/tcp_connection.rs\<close>: a packet travels as the
  length of its serialization (four bytes, big-endian) followed by the serialization.  The
  required methods of the trait \<open>Connection\<close> are a record of functions on the connection's state;
  \<open>next\<close> and \<open>write\<close>, the methods the trait provides, are defined over it.  \<open>TcpConnection\<close> is
  the instance over a socket, and the socket (\<open>TcpStream\<close> of tokio) is a parameter.
\<close>

section \<open>The trait \<open>Connection\<close>\<close>

text \<open>
  \<open>read_buf\<close> waits for more bytes and yields the whole buffer; its result is \<open>None\<close> when it waits
  for ever.
\<close>

record 'c connection =
  conn_advance :: "nat \<Rightarrow> 'c \<Rightarrow> unit connect_result \<times> 'c"
  conn_read_buf :: "'c \<Rightarrow> (bytes connect_result \<times> 'c) option"
  conn_write_buf :: "bytes \<Rightarrow> 'c \<Rightarrow> unit connect_result \<times> 'c"

text \<open>
  The body of the loop of \<open>next\<close>, of which a \<open>select!\<close> may let a turn go by: the inner option of the result is
  \<open>None\<close> for \<open>continue\<close>.  \<open>get_u32\<close> on the slice \<open>buffer\<close> moves the slice past the four bytes it
  reads, so the tests and the slicing after it are on the shortened slice.
\<close>

definition next_once ::
  "buf_ops \<Rightarrow> 'c connection \<Rightarrow> 'i de_m \<Rightarrow> 'c \<Rightarrow> ('i connect_result option \<times> 'c) option" where
  "next_once B C de c =
     (case conn_read_buf C c of
        None \<Rightarrow> None
      | Some (r, c) \<Rightarrow>
         (case r of
            Err e \<Rightarrow> Some (Some (Err e), c)
          | Panic \<Rightarrow> Some (Some Panic, c)
          | Ok buffer \<Rightarrow>
             (if length buffer \<le> 4 then Some (None, c)
              else
                let total_len = unat (get_u32 B buffer); buffer = drop 4 buffer in
                if length buffer < total_len + 4 then Some (None, c)
                else
                  let inp = take total_len buffer;
                      (r, c) = and_then (\<lambda>c. (from_serde (from_bytes de inp), c))
                         (\<lambda>res. and_then (conn_advance C (4 + total_len)) (\<lambda>_ c. (Ok res, c))) c
                  in Some (Some r, c))))"

partial_function (option) conn_next ::
  "buf_ops \<Rightarrow> 'c connection \<Rightarrow> 'i de_m \<Rightarrow> 'c \<Rightarrow> ('i connect_result \<times> 'c) option" where
  "conn_next B C de c =
     (case next_once B C de c of
        None \<Rightarrow> None
      | Some (res, c) \<Rightarrow>
         (case res of
            None \<Rightarrow> conn_next B C de c
          | Some r \<Rightarrow> Some (r, c)))"

text \<open>The loop with its body written out; \<open>f\<close> is what follows a \<open>continue\<close>.\<close>

lemma next_once_loop:
  "(case next_once B C de c of
      None \<Rightarrow> None
    | Some (res, c) \<Rightarrow> (case res of None \<Rightarrow> f c | Some r \<Rightarrow> Some (r, c))) =
   (case conn_read_buf C c of
      None \<Rightarrow> None
    | Some (r, c) \<Rightarrow>
       (case r of
          Err e \<Rightarrow> Some (Err e, c)
        | Panic \<Rightarrow> Some (Panic, c)
        | Ok buffer \<Rightarrow>
           (let n = unat (get_u32 B buffer) in
            if length buffer \<le> 4 \<or> length (drop 4 buffer) < n + 4 then f c
            else
              Some (and_then (\<lambda>c. (from_serde (from_bytes de (take n (drop 4 buffer))), c))
                     (\<lambda>res. and_then (conn_advance C (4 + n)) (\<lambda>_ c. (Ok res, c))) c))))"
  by (simp add: next_once_def Let_def split: option.splits prod.splits outcome.splits)

lemmas conn_next_body = conn_next.simps [unfolded next_once_loop]

definition conn_write ::
  "'c connection \<Rightarrow> ('i \<Rightarrow> serialize) \<Rightarrow> 'i \<Rightarrow> 'c \<Rightarrow> unit connect_result \<times> 'c" where
  "conn_write C ser val =
     and_then (\<lambda>c. (from_serde (to_bytes (ser val)), c)) (\<lambda>bs.
       let len_bytes = to_be_bytes (word_of_nat (length bs) :: u32) in
       and_then (conn_write_buf C len_bytes) (\<lambda>_. conn_write_buf C bs))"

section \<open>\<open>TcpConnection\<close>\<close>

text \<open>
  The socket: \<open>read_buf\<close> yields the bytes that it appends to the buffer (none at the end of the
  stream) or an I/O error, and \<open>write_all\<close> reports whether it wrote everything.
\<close>

record 's tcp_stream =
  stream_read_buf :: "'s \<Rightarrow> (bytes option \<times> 's) option"
  stream_write_all :: "bytes \<Rightarrow> 's \<Rightarrow> bool \<times> 's"

record 's tcp_connection =
  stream :: 's
  buffer :: bytes

definition tcp_connection_new :: "'s \<Rightarrow> 's tcp_connection" where
  "tcp_connection_new s = \<lparr>stream = s, buffer = []\<rparr>"

definition tcp_read_buf ::
  "'s tcp_stream \<Rightarrow> 's tcp_connection \<Rightarrow> (bytes connect_result \<times> 's tcp_connection) option" where
  "tcp_read_buf S c =
     (case stream_read_buf S (stream c) of
        None \<Rightarrow> None
      | Some (Some data, s) \<Rightarrow>
          let c = c\<lparr>stream := s, buffer := buffer c @ data\<rparr> in
          if length data = 0 then Some (Err Disconnected, c) else Some (Ok (buffer c), c)
      | Some (None, s) \<Rightarrow> Some (Err Disconnected, c\<lparr>stream := s\<rparr>))"

definition tcp_write_buf ::
  "'s tcp_stream \<Rightarrow> bytes \<Rightarrow> 's tcp_connection \<Rightarrow> unit connect_result \<times> 's tcp_connection" where
  "tcp_write_buf S data c =
     (case stream_write_all S data (stream c) of
        (ok, s) \<Rightarrow> (if ok then Ok () else Err Disconnected, c\<lparr>stream := s\<rparr>))"

definition tcp_advance :: "nat \<Rightarrow> 's tcp_connection \<Rightarrow> unit connect_result \<times> 's tcp_connection" where
  "tcp_advance len c =
     (if length (buffer c) < len then (Panic, c) else (Ok (), c\<lparr>buffer := drop len (buffer c)\<rparr>))"

definition tcp :: "'s tcp_stream \<Rightarrow> 's tcp_connection connection" where
  "tcp S = \<lparr>conn_advance = tcp_advance, conn_read_buf = tcp_read_buf S, conn_write_buf = tcp_write_buf S\<rparr>"

lemma tcp_select [simp]:
  "conn_advance (tcp S) = tcp_advance" "conn_read_buf (tcp S) = tcp_read_buf S"
  "conn_write_buf (tcp S) = tcp_write_buf S"
  by (simp_all add: tcp_def)

section \<open>Frames\<close>

definition frame :: "bytes \<Rightarrow> bytes" where
  "frame payload = to_be_bytes (word_of_nat (length payload) :: u32) @ payload"

lemma length_frame [simp]: "length (frame payload) = 4 + length payload"
  by (simp add: frame_def)

text \<open>The socket delivers the chunks \<open>cs\<close>, one per read, and goes from \<open>s\<close> to \<open>t\<close>.\<close>

primrec delivers :: "'s tcp_stream \<Rightarrow> 's \<Rightarrow> bytes list \<Rightarrow> 's \<Rightarrow> bool" where
  "delivers S s [] t \<longleftrightarrow> s = t"
| "delivers S s (c # cs) t \<longleftrightarrow>
     (\<exists>s'. stream_read_buf S s = Some (Some c, s') \<and> c \<noteq> [] \<and> delivers S s' cs t)"

text \<open>One turn of the loop on a socket that delivers a chunk.\<close>

lemma conn_next_read:
  assumes "stream_read_buf S s = Some (Some c, s')" and "c \<noteq> []"
  shows "conn_next B (tcp S) de \<lparr>stream = s, buffer = b\<rparr> =
    (let b' = b @ c; c' = \<lparr>stream = s', buffer = b'\<rparr>; n = unat (get_u32 B b') in
     if length b' \<le> 4 \<or> length b' < n + 8 then conn_next B (tcp S) de c'
     else case from_bytes de (take n (drop 4 b')) of
            Ok x \<Rightarrow> Some (Ok x, \<lparr>stream = s', buffer = drop (4 + n) b'\<rparr>)
          | Err e \<Rightarrow> Some (Err (Serde e), c')
          | Panic \<Rightarrow> Some (Panic, c'))"
proof -
  have r: "tcp_read_buf S \<lparr>stream = s, buffer = b\<rparr> =
      Some (Ok (b @ c), \<lparr>stream = s', buffer = b @ c\<rparr>)"
    using assms by (simp add: tcp_read_buf_def)
  let ?n = "unat (get_u32 B (b @ c))"
  consider "length (b @ c) \<le> 4" | "\<not> length (b @ c) \<le> 4" "length (b @ c) < ?n + 8"
    | "\<not> length (b @ c) \<le> 4" "\<not> length (b @ c) < ?n + 8" by blast
  then show ?thesis
  proof cases
    case 1
    then show ?thesis by (subst conn_next_body) (simp add: r)
  next
    case 2
    then have "length (drop 4 (b @ c)) < ?n + 4" by simp
    then show ?thesis using 2 by (subst conn_next_body) (simp add: r Let_def)
  next
    case 3
    then have "\<not> length (drop 4 (b @ c)) < ?n + 4" "\<not> length (b @ c) < 4 + ?n" by simp_all
    then show ?thesis
      using 3
      by (subst conn_next_body)
        (cases "from_bytes de (take ?n (drop 4 (b @ c)))";
          simp add: r Let_def and_then_def tcp_advance_def del: drop_append length_drop length_append)
  qed
qed

lemma conn_next_pending:
  "stream_read_buf S s = None \<Longrightarrow> conn_next B (tcp S) de \<lparr>stream = s, buffer = b\<rparr> = None"
  by (subst conn_next_body) (simp add: tcp_read_buf_def)

lemma conn_next_eof:
  "stream_read_buf S s = Some (Some [], s') \<Longrightarrow>
   conn_next B (tcp S) de \<lparr>stream = s, buffer = b\<rparr> = Some (Err Disconnected, \<lparr>stream = s', buffer = b\<rparr>)"
  by (subst conn_next_body) (simp add: tcp_read_buf_def Let_def)

lemma conn_next_io_error:
  "stream_read_buf S s = Some (None, s') \<Longrightarrow>
   conn_next B (tcp S) de \<lparr>stream = s, buffer = b\<rparr> = Some (Err Disconnected, \<lparr>stream = s', buffer = b\<rparr>)"
  by (subst conn_next_body) (simp add: tcp_read_buf_def)

section \<open>Waiting for a frame, and reading it\<close>

context bytes_crate
begin

lemma frame_length_read:
  assumes "length payload < 2 ^ 32" and "prefix b (frame payload @ rest)" and "4 < length b"
  shows "unat (get_u32 B b) = length payload"
proof -
  let ?h = "to_be_bytes (word_of_nat (length payload) :: u32)"
  obtain z where z: "frame payload @ rest = b @ z" using assms(2) by (auto simp: prefix_def)
  have "take 4 (b @ z) = ?h" unfolding z [symmetric] by (simp add: frame_def)
  then have "b = ?h @ drop 4 b" using assms(3) by (metis append_take_drop_id less_imp_le take_append
    diff_is_0_eq take_0 append_Nil2)
  then have "get_u32 B b = word_of_nat (length payload)" by (metis get_u32)
  then show ?thesis using assms(1) by (simp add: unat_of_nat)
qed

text \<open>
  While the frame and the first four bytes behind it are not complete, every read sends the loop
  round again with a longer buffer.
\<close>

lemma conn_next_waits:
  assumes "length payload < 2 ^ 32"
  shows "delivers S s cs t \<Longrightarrow> prefix (b @ concat cs) (frame payload @ rest) \<Longrightarrow>
    length (b @ concat cs) < length payload + 8 \<Longrightarrow>
    conn_next B (tcp S) de \<lparr>stream = s, buffer = b\<rparr> =
    conn_next B (tcp S) de \<lparr>stream = t, buffer = b @ concat cs\<rparr>"
proof (induction cs arbitrary: s b)
  case Nil
  then show ?case by simp
next
  case (Cons c cs)
  then obtain s' where r: "stream_read_buf S s = Some (Some c, s')" "c \<noteq> []" and d: "delivers S s' cs t"
    by auto
  have pre: "prefix (b @ c) (frame payload @ rest)"
    using Cons.prems(2) by (metis append_assoc append_prefixD concat.simps(2))
  have short: "length (b @ c) < length payload + 8" using Cons.prems(3) by simp
  have "length (b @ c) \<le> 4 \<or> length (b @ c) < unat (get_u32 B (b @ c)) + 8"
    using frame_length_read [OF assms pre] short by linarith
  then have "conn_next B (tcp S) de \<lparr>stream = s, buffer = b\<rparr> =
      conn_next B (tcp S) de \<lparr>stream = s', buffer = b @ c\<rparr>"
    by (simp only: conn_next_read [OF r] Let_def if_True)
  also have "\<dots> = conn_next B (tcp S) de \<lparr>stream = t, buffer = (b @ c) @ concat cs\<rparr>"
    using Cons.prems by (intro Cons.IH d) simp_all
  finally show ?case by simp
qed

text \<open>The read that completes the frame and four bytes behind it yields the packet.\<close>

lemma conn_next_completes:
  assumes "length payload < 2 ^ 32" and "stream_read_buf S s = Some (Some c, s')" and "c \<noteq> []"
    and "b @ c = frame payload @ rest" and "4 \<le> length rest"
  shows "conn_next B (tcp S) de \<lparr>stream = s, buffer = b\<rparr> =
    (case from_bytes de payload of
       Ok x \<Rightarrow> Some (Ok x, \<lparr>stream = s', buffer = rest\<rparr>)
     | Err e \<Rightarrow> Some (Err (Serde e), \<lparr>stream = s', buffer = b @ c\<rparr>)
     | Panic \<Rightarrow> Some (Panic, \<lparr>stream = s', buffer = b @ c\<rparr>))"
proof -
  have len: "length (b @ c) = 4 + length payload + length rest"
    by (simp only: assms(4) length_append length_frame)
  then have long: "\<not> (length (b @ c) \<le> 4 \<or> length (b @ c) < length payload + 8)"
    using assms(5) by linarith
  have n: "unat (get_u32 B (b @ c)) = length payload"
    using assms(4) long by (intro frame_length_read [OF assms(1), of _ rest]) (simp, linarith)
  have parts: "take (length payload) (drop 4 (b @ c)) = payload" "drop (4 + length payload) (b @ c) = rest"
    unfolding assms(4) by (simp_all add: frame_def)
  show ?thesis
    unfolding conn_next_read [OF assms(2,3)] Let_def n parts using long by (simp only: if_False)
qed

end

section \<open>What a returned packet was read from\<close>

text \<open>
  \<open>frame_read\<close>: the packet \<open>x\<close> was decoded from the payload of the frame at the head of the
  bytes \<open>b\<close>, the bytes \<open>rest\<close> remain.
\<close>

definition frame_read :: "buf_ops \<Rightarrow> 'i de_m \<Rightarrow> bytes \<Rightarrow> 'i \<Rightarrow> bytes \<Rightarrow> bool" where
  "frame_read B de b x rest \<longleftrightarrow>
     (let n = unat (get_u32 B b) in
        n + 8 \<le> length b \<and> from_bytes de (take n (drop 4 b)) = Ok x \<and> rest = drop (4 + n) b)"

definition came_from_frame ::
  "buf_ops \<Rightarrow> 's tcp_stream \<Rightarrow> 'i de_m \<Rightarrow> 's tcp_connection \<Rightarrow> 'i connect_result \<times> 's tcp_connection \<Rightarrow> bool" where
  "came_from_frame B S de c y \<longleftrightarrow>
     (\<forall>x c'. y = (Ok x, c') \<longrightarrow>
        (\<exists>cs. cs \<noteq> [] \<and> delivers S (stream c) cs (stream c') \<and>
           frame_read B de (buffer c @ concat cs) x (buffer c')))"

lemma came_from_frame_more:
  assumes "stream_read_buf S (stream c) = Some (Some data, s')" and "data \<noteq> []"
    and "came_from_frame B S de \<lparr>stream = s', buffer = buffer c @ data\<rparr> y"
  shows "came_from_frame B S de c y"
  unfolding came_from_frame_def
proof (intro allI impI)
  fix x c' assume "y = (Ok x, c')"
  then obtain cs where "delivers S s' cs (stream c')"
    "frame_read B de ((buffer c @ data) @ concat cs) x (buffer c')"
    using assms(3) unfolding came_from_frame_def by auto
  then have "delivers S (stream c) (data # cs) (stream c')"
    "frame_read B de (buffer c @ concat (data # cs)) x (buffer c')" using assms(1,2) by auto
  then show "\<exists>cs. cs \<noteq> [] \<and> delivers S (stream c) cs (stream c') \<and>
      frame_read B de (buffer c @ concat cs) x (buffer c')" by blast
qed

lemma came_from_frame_now:
  assumes "stream_read_buf S (stream c) = Some (Some data, s')" and "data \<noteq> []"
    and "buffer c @ data = b" and "n = unat (get_u32 B b)" and "n + 8 \<le> length b"
  shows "came_from_frame B S de c
    (and_then (\<lambda>c. (from_serde (from_bytes de (take n (drop 4 b))), c))
       (\<lambda>res. and_then (tcp_advance (4 + n)) (\<lambda>_ c. (Ok res, c))) \<lparr>stream = s', buffer = b\<rparr>)"
proof -
  have "delivers S (stream c) [data] s'" using assms(1,2) by simp
  moreover have "buffer c @ concat [data] = b" using assms(3) by simp
  moreover have "\<not> length b < 4 + n" using assms(5) by simp
  ultimately show ?thesis
    using assms(4,5) unfolding came_from_frame_def
    by (cases "from_bytes de (take n (drop 4 b))")
      (auto simp: and_then_def tcp_advance_def frame_read_def Let_def simp del: delivers.simps intro!: exI [of _ "[data]"])
qed

lemma tcp_read_buf_SomeE:
  assumes "tcp_read_buf S c = Some (Ok b, c')"
  obtains data s' where "stream_read_buf S (stream c) = Some (Some data, s')" "data \<noteq> []"
    "b = buffer c @ data" "c' = \<lparr>stream = s', buffer = buffer c @ data\<rparr>"
  using assms that by (cases c) (auto simp: tcp_read_buf_def Let_def split: option.splits prod.splits if_splits)

lemma conn_next_result:
  fixes S :: "'s tcp_stream" and de :: "'i de_m" and c :: "'s tcp_connection"
  assumes "conn_next B (tcp S) de c = Some y"
  shows "came_from_frame B S de c y"
proof -
  have "C = tcp S \<longrightarrow> came_from_frame B S de c y" if "conn_next B C de c = Some y" for C
  proof (rule conn_next.raw_induct [where P = "\<lambda>B C de c y. C = tcp S \<longrightarrow> came_from_frame B S de c y",
        OF _ that], rule impI)
    fix f :: "buf_ops \<Rightarrow> 's tcp_connection connection \<Rightarrow> 'i de_m \<Rightarrow> 's tcp_connection \<Rightarrow>
        ('i connect_result \<times> 's tcp_connection) option"
    fix B C de y and c :: "'s tcp_connection"
    assume IH: "\<And>B C de c y. f B C de c = Some y \<Longrightarrow> C = tcp S \<longrightarrow> came_from_frame B S de c y"
      and turn: "(case next_once B C de c of None \<Rightarrow> None
        | Some (res, c) \<Rightarrow> (case res of None \<Rightarrow> f B C de c | Some r \<Rightarrow> Some (r, c))) = Some y"
      and C: "C = tcp S"
    note body = turn [unfolded next_once_loop]
    obtain r c1 where rd: "tcp_read_buf S c = Some (r, c1)"
      using body C by (auto split: option.splits prod.splits)
    show "came_from_frame B S de c y"
    proof (cases r)
      case (Ok b)
      with rd obtain data s' where d: "stream_read_buf S (stream c) = Some (Some data, s')" "data \<noteq> []"
        and b: "b = buffer c @ data" "c1 = \<lparr>stream = s', buffer = buffer c @ data\<rparr>"
        using tcp_read_buf_SomeE [of S c b c1] by blast
      show ?thesis
      proof (cases "length b \<le> 4 \<or> length (drop 4 b) < unat (get_u32 B b) + 4")
        case True
        then have "f B C de c1 = Some y" using body C rd Ok by (auto simp: Let_def split: if_splits)
        from IH [OF this] have "came_from_frame B S de c1 y" using C by blast
        then show ?thesis using came_from_frame_more [OF d] b(2) by simp
      next
        case False
        then have "unat (get_u32 B b) + 8 \<le> length b" unfolding length_drop by linarith
        note now = came_from_frame_now [OF d b(1) [symmetric] refl this, of de]
        have "c1 = \<lparr>stream = s', buffer = b\<rparr>" using b by simp
        then show ?thesis using now False body C rd Ok by (simp add: Let_def)
      qed
    qed (use body C rd in \<open>auto simp: came_from_frame_def\<close>)
  qed
  then show ?thesis using assms by blast
qed

section \<open>Several packets\<close>

text \<open>The event loop calls \<open>next\<close> again after each packet; here for \<open>n\<close> packets.\<close>

primrec conn_next_n ::
  "nat \<Rightarrow> buf_ops \<Rightarrow> 'c connection \<Rightarrow> 'i de_m \<Rightarrow> 'c \<Rightarrow> ('i list connect_result \<times> 'c) option" where
  "conn_next_n 0 B C de c = Some (Ok [], c)"
| "conn_next_n (Suc n) B C de c =
     (case conn_next B C de c of
        None \<Rightarrow> None
      | Some (Ok x, c) \<Rightarrow> map_option (map_prod (map_ok (Cons x)) id) (conn_next_n n B C de c)
      | Some (Err e, c) \<Rightarrow> Some (Err e, c)
      | Some (Panic, c) \<Rightarrow> Some (Panic, c))"

lemma conn_next_n_then_waits:
  assumes "conn_next_n n B C de c = Some (Ok xs, c')" and "conn_next B C de c' = None"
  shows "conn_next_n (Suc n) B C de c = None"
  using assms
proof (induction n arbitrary: c xs)
  case 0
  then show ?case by simp
next
  case (Suc n)
  obtain x c1 ys where x: "conn_next B C de c = Some (Ok x, c1)" "conn_next_n n B C de c1 = Some (Ok ys, c')"
    using Suc.prems(1)
    by (auto simp: map_ok_def split: option.splits outcome.splits prod.splits) (metis outcome.exhaust)
  have "conn_next_n (Suc n) B C de c1 = None" using Suc.IH [OF x(2)] Suc.prems(2) .
  then show ?case using x(1) by (subst conn_next_n.simps(2)) simp
qed

lemma delivers_append:
  "delivers S s (cs @ ds) t \<longleftrightarrow> (\<exists>m. delivers S s cs m \<and> delivers S m ds t)"
  by (induction cs arbitrary: s) auto

lemma frame_nonempty [simp]: "frame p \<noteq> []"
  by (metis length_frame list.size(3) add_is_0 zero_neq_numeral)

context bytes_crate
begin

lemma conn_next_n_lag:
  assumes "\<forall>p\<in>set (p # ps). length p < 2 ^ 32"
    and "list_all2 (\<lambda>x p. from_bytes de p = Ok x) xs (butlast (p # ps))"
    and "delivers S s (map frame ps) t"
  shows "conn_next_n (length ps) B (tcp S) de \<lparr>stream = s, buffer = frame p\<rparr> =
    Some (Ok xs, \<lparr>stream = t, buffer = frame (last (p # ps))\<rparr>)"
  using assms
proof (induction ps arbitrary: p xs s)
  case Nil
  then show ?case by simp
next
  case (Cons q ps)
  then obtain x ys where xs: "xs = x # ys" "from_bytes de p = Ok x"
      "list_all2 (\<lambda>x p. from_bytes de p = Ok x) ys (butlast (q # ps))"
    by (auto simp: list_all2_Cons2)
  obtain s' where d: "stream_read_buf S s = Some (Some (frame q), s')" "delivers S s' (map frame ps) t"
    using Cons.prems(3) by auto
  have "conn_next B (tcp S) de \<lparr>stream = s, buffer = frame p\<rparr> =
      Some (Ok x, \<lparr>stream = s', buffer = frame q\<rparr>)"
    using conn_next_completes [OF _ d(1) frame_nonempty refl, of p de] Cons.prems(1) xs(2) by simp
  moreover have "conn_next_n (length ps) B (tcp S) de \<lparr>stream = s', buffer = frame q\<rparr> =
      Some (Ok ys, \<lparr>stream = t, buffer = frame (last (q # ps))\<rparr>)"
    using Cons.prems(1) xs(3) d(2) by (intro Cons.IH) simp_all
  ultimately show ?case using xs(1) by simp
qed

end

section \<open>A scripted socket\<close>

text \<open>
  The socket on which the witnesses run: a list of read results, then it waits for ever, and the
  bytes written so far.
\<close>

definition script :: "(bytes option list \<times> bytes) tcp_stream" where
  "script =
     \<lparr>stream_read_buf = (\<lambda>(rs, w). case rs of [] \<Rightarrow> None | r # rs \<Rightarrow> Some (r, rs, w)),
      stream_write_all = (\<lambda>bs (rs, w). (True, rs, w @ bs))\<rparr>"

lemma script_delivers:
  "\<forall>c\<in>set cs. c \<noteq> [] \<Longrightarrow> delivers script (map Some cs @ rs, w) cs (rs, w)"
  by (induction cs) (auto simp: script_def)

end
