(* ===== verification/Connection_Properties.thy ===== *)
theory Connection_Properties
  imports Connection Serde_Protocol
begin

text \<open>
  The properties of the framing layer: what is written is a frame, what is returned was a frame
  at the head of the received bytes, a frame is returned whatever the chunks in which it arrives,
  how far behind the received bytes the reader stays, and that a reader returns the packets of a
  writer in order.
\<close>

lemma u64_payload: "to_bytes (serialize_u64 std_bytes 5) = Ok [5]" "to_bytes (serialize_u64 std_bytes 6) = Ok [6]"
  using to_bytes_encodes(1) [OF std.integer_encodes(4), of 5] to_bytes_encodes(1) [OF std.integer_encodes(4), of 6]
  by (simp_all add: varint_def)

abbreviation de_u64 :: "u64 de_m" where
  "de_u64 \<equiv> deserialize_u64 std_bytes u64_visitor"

interpretation u64_item: item_codec "serialize_u64 std_bytes" de_u64 "\<lambda>_. True"
  by (rule u64_item_codec [OF std.bytes_crate_axioms])

lemma from_bytes_u64_payload: "from_bytes de_u64 [5] = Ok 5" "from_bytes de_u64 [6] = Ok 6"
  using u64_item.from_to_bytes u64_payload by simp_all

lemma stream_script_end: "stream_read_buf script ([], w) = None"
  by (simp add: script_def)

section \<open>Properties\<close>

text \<open>C9: a packet is returned by next when the bytes that complete it and the four bytes behind it arrive after next
  was called, whatever part of it was in the buffer before and in whatever chunks, at least one, the rest
  arrives; the bytes behind it stay in the buffer.  The last chunk is the one that completes the frame and the
  four bytes, or the only one.\<close>

theorem next_returns_packet:
  assumes "bytes_crate B" and "item_codec ser de good" and "good x"
    and "to_bytes (ser x) = Ok payload" and "length payload < 2 ^ 32"
    and "delivers S s (cs @ [c]) t" and "b @ concat (cs @ [c]) = frame payload @ rest"
    and "4 \<le> length rest" and "cs = [] \<or> length (b @ concat cs) < length payload + 8"
  shows "conn_next B (tcp S) de \<lparr>stream = s, buffer = b\<rparr> = Some (Ok x, \<lparr>stream = t, buffer = rest\<rparr>)"
proof -
  obtain m where m: "delivers S s cs m" "stream_read_buf S m = Some (Some c, t)" "c \<noteq> []"
    using assms(6) by (auto simp: delivers_append)
  have "conn_next B (tcp S) de \<lparr>stream = s, buffer = b\<rparr> =
      conn_next B (tcp S) de \<lparr>stream = m, buffer = b @ concat cs\<rparr>"
  proof (cases "cs = []")
    case True
    then show ?thesis using m by simp
  next
    case False
    have "prefix (b @ concat cs) (frame payload @ rest)" using assms(7) by (metis append_assoc concat_append prefixI)
    then show ?thesis
      using False assms(9) by (intro bytes_crate.conn_next_waits [OF assms(1,5) m(1)]) auto
  qed
  also have "\<dots> = Some (Ok x, \<lparr>stream = t, buffer = rest\<rparr>)"
    using bytes_crate.conn_next_completes [OF assms(1,5) m(2,3) _ assms(8), of "b @ concat cs" de] assms(7)
      item_codec.from_to_bytes [OF assms(2,3,4)] by simp
  finally show ?thesis .
qed

theorem next_returns_packet_witness:
  "conn_next std_bytes (tcp script) de_u64 \<lparr>stream = ([Some [0, 0], Some [0, 1, 5, 0, 0, 0, 9]], []), buffer = []\<rparr>
   = Some (Ok 5, \<lparr>stream = ([], []), buffer = [0, 0, 0, 9]\<rparr>)"
proof -
  have "delivers script ([Some [0, 0], Some [0, 1, 5, 0, 0, 0, 9]], []) ([[0, 0]] @ [[0, 1, 5, 0, 0, 0, 9]]) ([], [])"
    by (simp add: script_def)
  from next_returns_packet [OF std.bytes_crate_axioms u64_item.item_codec_axioms TrueI u64_payload(1) _ this,
      where b = "[]" and rest = "[0, 0, 0, 9]"]
  show ?thesis by (simp add: frame_def to_be_bytes_def byte_of_def)
qed

text \<open>C17: soundness of next: a packet that it returns was decoded from the payload of a frame at the head
  of the buffered and newly received bytes, at least one chunk was received in the call, and exactly the
  bytes of that frame were consumed.\<close>

theorem next_sound:
  assumes "conn_next B (tcp S) de c = Some (Ok x, c')"
  shows "\<exists>cs. cs \<noteq> [] \<and> delivers S (stream c) cs (stream c') \<and>
           frame_read B de (buffer c @ concat cs) x (buffer c')"
  using conn_next_result [OF assms] by (simp add: came_from_frame_def)

theorem next_sound_witness:
  "\<exists>cs. cs \<noteq> [] \<and> delivers script ([Some [0, 0, 0, 1, 5, 0, 0, 0, 9]], []) cs ([], []) \<and>
     frame_read std_bytes de_u64 ([] @ concat cs) 5 [0, 0, 0, 9]"
proof -
  let ?c = "[0, 0, 0, 1, 5, 0, 0, 0, 9] :: bytes"
  have r: "stream_read_buf script ([Some ?c], []) = Some (Some ?c, ([], []))" by (simp add: script_def)
  have f: "[] @ ?c = frame [5] @ [0, 0, 0, 9]" by (simp add: frame_def to_be_bytes_def byte_of_def)
  have "conn_next std_bytes (tcp script) de_u64 \<lparr>stream = ([Some ?c], []), buffer = []\<rparr>
      = Some (Ok 5, \<lparr>stream = ([], []), buffer = [0, 0, 0, 9]\<rparr>)"
    using std.conn_next_completes [OF _ r _ f, of de_u64] from_bytes_u64_payload by simp
  from next_sound [OF this] show ?thesis by simp
qed

text \<open>C37: a packet is held back until four bytes of the next one have arrived.  When a whole frame is in the
  buffer with fewer than four bytes behind it, next does not return it: it waits for ever if nothing more
  comes, and if the peer closes the connection it reports a disconnection and the packet is lost.\<close>

theorem complete_frame_held_back:
  assumes "bytes_crate B" and "length payload < 2 ^ 32"
    and "delivers S s cs t" and "b @ concat cs = frame payload @ rest" and "length rest < 4"
  shows "(stream_read_buf S t = None \<longrightarrow>
            conn_next B (tcp S) de \<lparr>stream = s, buffer = b\<rparr> = None)
       \<and> (stream_read_buf S t = Some (Some [], u) \<longrightarrow>
            conn_next B (tcp S) de \<lparr>stream = s, buffer = b\<rparr> =
              Some (Err Disconnected, \<lparr>stream = u, buffer = frame payload @ rest\<rparr>))"
proof -
  have "length (b @ concat cs) < length payload + 8" using assms(5) by (simp only: assms(4)) simp
  then have "conn_next B (tcp S) de \<lparr>stream = s, buffer = b\<rparr> =
      conn_next B (tcp S) de \<lparr>stream = t, buffer = frame payload @ rest\<rparr>"
    using bytes_crate.conn_next_waits [OF assms(1,2,3), of b rest de] assms(4) by simp
  then show ?thesis by (simp add: conn_next_pending conn_next_eof)
qed

theorem complete_frame_held_back_witness:
  "conn_next std_bytes (tcp script) de_u64 \<lparr>stream = ([Some [0, 0, 0, 1, 5], Some []], []), buffer = []\<rparr>
   = Some (Err Disconnected, \<lparr>stream = ([], []), buffer = [0, 0, 0, 1, 5]\<rparr>)"
proof -
  have f: "[] @ concat [[0, 0, 0, 1, 5]] = frame [5] @ []"
    by (simp add: frame_def to_be_bytes_def byte_of_def)
  have d: "delivers script ([Some [0, 0, 0, 1, 5], Some []], []) [[0, 0, 0, 1, 5]] ([Some []], [])"
    by (simp add: script_def)
  have e: "stream_read_buf script ([Some []], []) = Some (Some [], ([], []))" by (simp add: script_def)
  have "length [5 :: byte] < 2 ^ 32" "length ([] :: bytes) < 4" by simp_all
  from complete_frame_held_back [OF std.bytes_crate_axioms this(1) d f this(2), where u = "([], [])" and de = de_u64] e f
  show ?thesis by simp
qed

text \<open>C38: next always waits for the socket before it looks at the buffer, so that packets which arrived
  together are not returned together: after the first of two packets in one chunk was returned, the second
  one, although complete in the buffer, is not returned before more bytes arrive.\<close>

theorem buffered_frame_not_returned:
  assumes "bytes_crate B" and "length p < 2 ^ 32" and "from_bytes de p = Ok x"
    and "stream_read_buf S s = Some (Some (frame p @ frame q @ rest), t)" and "stream_read_buf S t = None"
  shows "conn_next B (tcp S) de \<lparr>stream = s, buffer = []\<rparr> =
           Some (Ok x, \<lparr>stream = t, buffer = frame q @ rest\<rparr>)
       \<and> conn_next B (tcp S) de \<lparr>stream = t, buffer = frame q @ rest\<rparr> = None"
  using bytes_crate.conn_next_completes [OF assms(1,2,4), of "[]" "frame q @ rest" de] assms(3)
    conn_next_pending [OF assms(5)] by simp

theorem buffered_frame_not_returned_witness:
  "conn_next std_bytes (tcp script) de_u64 \<lparr>stream = ([Some (frame [5] @ frame [6] @ frame [5])], []), buffer = []\<rparr>
     = Some (Ok 5, \<lparr>stream = ([], []), buffer = frame [6] @ frame [5]\<rparr>)
   \<and> conn_next std_bytes (tcp script) de_u64 \<lparr>stream = ([], []), buffer = frame [6] @ frame [5]\<rparr> = None"
  by (rule buffered_frame_not_returned [OF std.bytes_crate_axioms])
    (simp_all add: script_def from_bytes_u64_payload)

text \<open>When every packet arrives in a chunk of its own, the reader stays one packet behind: of the packets
  received it returns all but the last, in order, and then waits.\<close>

theorem reader_lags_one_packet:
  assumes "bytes_crate B" and "\<forall>p\<in>set (p # ps). length p < 2 ^ 32"
    and "list_all2 (\<lambda>x p. from_bytes de p = Ok x) xs (butlast (p # ps))"
    and "delivers S s (map frame (p # ps)) t" and "stream_read_buf S t = None" and "ps \<noteq> []"
  shows "conn_next_n (length ps) B (tcp S) de \<lparr>stream = s, buffer = []\<rparr> =
           Some (Ok xs, \<lparr>stream = t, buffer = frame (last (p # ps))\<rparr>)
       \<and> conn_next_n (length (p # ps)) B (tcp S) de \<lparr>stream = s, buffer = []\<rparr> = None"
proof -
  obtain s' where d: "stream_read_buf S s = Some (Some (frame p), s')" "delivers S s' (map frame ps) t"
    using assms(4) by auto
  have first: "conn_next B (tcp S) de \<lparr>stream = s, buffer = []\<rparr> = conn_next B (tcp S) de \<lparr>stream = s', buffer = frame p\<rparr>"
    using bytes_crate.conn_next_waits [OF assms(1), of p S s "[frame p]" s' "[]" "[]" de] assms(2) d(1) by simp
  obtain n where n: "length ps = Suc n" using assms(6) by (cases ps) auto
  have all: "conn_next_n (Suc n) B (tcp S) de \<lparr>stream = s', buffer = frame p\<rparr> =
      Some (Ok xs, \<lparr>stream = t, buffer = frame (last (p # ps))\<rparr>)"
    using bytes_crate.conn_next_n_lag [OF assms(1,2,3) d(2)] n by simp
  have "conn_next_n (Suc (Suc n)) B (tcp S) de \<lparr>stream = s', buffer = frame p\<rparr> = None"
    by (rule conn_next_n_then_waits [OF all conn_next_pending [OF assms(5)]])
  with all first n show ?thesis by simp
qed

theorem reader_lags_one_packet_witness:
  "conn_next_n 1 std_bytes (tcp script) de_u64 \<lparr>stream = ([Some (frame [5]), Some (frame [6])], []), buffer = []\<rparr>
     = Some (Ok [5], \<lparr>stream = ([], []), buffer = frame [6]\<rparr>)
   \<and> conn_next_n 2 std_bytes (tcp script) de_u64 \<lparr>stream = ([Some (frame [5]), Some (frame [6])], []), buffer = []\<rparr> = None"
proof -
  have d: "delivers script ([Some (frame [5]), Some (frame [6])], []) (map frame [[5], [6]]) ([], [])"
    by (simp add: script_def)
  have "list_all2 (\<lambda>x p. from_bytes de_u64 p = Ok x) [5] (butlast [[5], [6]])"
    by (simp add: from_bytes_u64_payload)
  moreover have "\<forall>p\<in>set [[5 :: byte], [6]]. length p < 2 ^ 32" by simp
  ultimately show ?thesis
    using reader_lags_one_packet [OF std.bytes_crate_axioms _ _ d stream_script_end, of de_u64 "[5]"]
    by (simp add: numeral_2_eq_2 del: conn_next_n.simps)
qed

text \<open>Write sends the frame of the packet, first the four bytes of the length and then the payload, in two
  writes; when a write fails, nothing more is written and the connection is reported as disconnected; when the
  packet cannot be serialized, nothing is written at all.  The length on the wire is the payload's length
  modulo 2 to the 32.\<close>

theorem write_sends_frame:
  "(to_bytes (ser x) = Ok payload \<and>
    stream_write_all S (to_be_bytes (word_of_nat (length payload) :: u32)) (stream c) = (True, s1) \<and>
    stream_write_all S payload s1 = (ok, s2) \<longrightarrow>
      conn_write (tcp S) ser x c = (if ok then Ok () else Err Disconnected, c\<lparr>stream := s2\<rparr>) \<and>
      unat (word_of_nat (length payload) :: u32) = length payload mod 2 ^ 32)
   \<and> (to_bytes (ser x) = Ok payload \<and>
      stream_write_all S (to_be_bytes (word_of_nat (length payload) :: u32)) (stream c) = (False, s1) \<longrightarrow>
        conn_write (tcp S) ser x c = (Err Disconnected, c\<lparr>stream := s1\<rparr>))
   \<and> (to_bytes (ser x) = Err e \<longrightarrow> conn_write (tcp S) ser x c = (Err (Serde e), c))"
  by (simp add: conn_write_def and_then_def tcp_write_buf_def Let_def unat_of_nat)

theorem write_sends_frame_witness:
  "conn_write (tcp script) (serialize_u64 std_bytes) 5 \<lparr>stream = ([], []), buffer = []\<rparr>
     = (Ok (), \<lparr>stream = ([], frame [5]), buffer = []\<rparr>)"
proof -
  let ?c = "\<lparr>stream = ([], []), buffer = []\<rparr>"
  have "stream_write_all script (to_be_bytes (word_of_nat (length [5 :: byte]) :: u32)) (stream ?c) =
      (True, ([], to_be_bytes (1 :: u32)))"
    "stream_write_all script [5] ([], to_be_bytes (1 :: u32)) = (True, ([], frame [5]))"
    by (simp_all add: script_def frame_def)
  with u64_payload(1) write_sends_frame show ?thesis by fastforce
qed

text \<open>\<open>next_turns n\<close>: at most \<open>n\<close> turns of the loop of \<open>next\<close>, each of which may be the last before a caller leaves.\<close>

primrec next_turns ::
  "nat \<Rightarrow> buf_ops \<Rightarrow> 'c connection \<Rightarrow> 'i de_m \<Rightarrow> 'c \<Rightarrow> ('i connect_result \<times> 'c) option" where
  "next_turns 0 B C de c = None"
| "next_turns (Suc n) B C de c =
     (case next_once B C de c of
        None \<Rightarrow> None
      | Some (None, c) \<Rightarrow> next_turns n B C de c
      | Some (Some r, c) \<Rightarrow> Some (r, c))"

lemma next_turns_complete:
  fixes C :: "'c connection" and de :: "'i de_m" and c :: 'c
  assumes "conn_next B C de c = Some y"
  shows "\<exists>n. next_turns n B C de c = Some y"
proof (rule conn_next.raw_induct [where P = "\<lambda>B C de c y. \<exists>n. next_turns n B C de c = Some y", OF _ assms])
  fix f :: "buf_ops \<Rightarrow> 'c connection \<Rightarrow> 'i de_m \<Rightarrow> 'c \<Rightarrow> ('i connect_result \<times> 'c) option"
  fix B C de y and c :: 'c
  assume IH: "\<And>B C de c y. f B C de c = Some y \<Longrightarrow> \<exists>n. next_turns n B C de c = Some y"
    and turn: "(case next_once B C de c of None \<Rightarrow> None
        | Some (res, c) \<Rightarrow> (case res of None \<Rightarrow> f B C de c | Some r \<Rightarrow> Some (r, c))) = Some y"
  show "\<exists>n. next_turns n B C de c = Some y"
  proof (cases "\<exists>d. next_once B C de c = Some (None, d)")
    case True
    then obtain d where d: "next_once B C de c = Some (None, d)" by blast
    then have "f B C de d = Some y" using turn by simp
    then obtain n where "next_turns n B C de d = Some y" using IH by blast
    then show ?thesis using d by (intro exI [of _ "Suc n"]) simp
  next
    case False
    then show ?thesis using turn by (intro exI [of _ "Suc 0"]) (auto split: option.splits prod.splits)
  qed
qed

section \<open>A stream of packets\<close>

text \<open>
  \<open>carries\<close>: what is in the buffer and what the socket will ever deliver is the beginning of the frames of the
  payloads \<open>ps\<close>, cut into chunks in any way.
\<close>

definition carries :: "'s tcp_stream \<Rightarrow> bytes list \<Rightarrow> 's tcp_connection \<Rightarrow> bool" where
  "carries S ps c \<longleftrightarrow>
     (\<forall>cs t. delivers S (stream c) cs t \<longrightarrow> prefix (buffer c @ concat cs) (concat (map frame ps)))"

lemma carriesD: "carries S ps c \<Longrightarrow> delivers S (stream c) cs t \<Longrightarrow> prefix (buffer c @ concat cs) (concat (map frame ps))"
  unfolding carries_def by blast

lemma carries_read:
  assumes "carries S ps c" and "stream_read_buf S (stream c) = Some (Some data, s)" and "data \<noteq> []"
  shows "carries S ps \<lparr>stream = s, buffer = buffer c @ data\<rparr>"
  unfolding carries_def
proof (intro allI impI)
  fix cs t assume "delivers S (stream \<lparr>stream = s, buffer = buffer c @ data\<rparr>) cs t"
  then have "delivers S (stream c) (data # cs) t" using assms(2,3) by simp
  from carriesD [OF assms(1) this]
  show "prefix (buffer \<lparr>stream = s, buffer = buffer c @ data\<rparr> @ concat cs) (concat (map frame ps))" by simp
qed

lemma carries_advance:
  assumes "carries S (p # ps) \<lparr>stream = s, buffer = frame p @ z\<rparr>"
  shows "carries S ps \<lparr>stream = s, buffer = z\<rparr>"
  using carriesD [OF assms] by (auto simp: carries_def)

text \<open>What a returning \<open>next\<close> does with the packet at the head.\<close>

definition takes_head :: "'s tcp_stream \<Rightarrow> 'i de_m \<Rightarrow> bytes list \<Rightarrow> 'i connect_result \<Rightarrow> 's tcp_connection \<Rightarrow> bool" where
  "takes_head S de ps r c \<longleftrightarrow>
     (\<exists>p q qs. ps = p # q # qs \<and>
        (case from_bytes de p of
           Ok x \<Rightarrow> r = Ok x \<and> carries S (q # qs) c
         | Err e \<Rightarrow> r = Err (Serde e)
         | Panic \<Rightarrow> r = Panic))"

context bytes_crate
begin

lemma turn_takes_head:
  assumes "carries S ps c" and "\<forall>p\<in>set ps. length p < 2 ^ 32" and "next_once B (tcp S) de c = Some (r, d)"
  shows "(r = None \<and> carries S ps d) \<or> r = Some (Err Disconnected) \<or> (\<exists>x. r = Some x \<and> takes_head S de ps x d)"
proof (cases "\<exists>data s. stream_read_buf S (stream c) = Some (Some data, s) \<and> data \<noteq> []")
  case False
  then have "r = Some (Err Disconnected)"
    using assms(3) by (auto simp: next_once_def tcp_read_buf_def Let_def split: option.splits prod.splits if_splits)
  then show ?thesis by blast
next
  case True
  then obtain data s where d: "stream_read_buf S (stream c) = Some (Some data, s)" "data \<noteq> []" by blast
  obtain b where b: "b = buffer c @ data" by blast
  have car: "carries S ps \<lparr>stream = s, buffer = b\<rparr>" unfolding b by (rule carries_read [OF assms(1) d])
  have turn: "tcp_read_buf S c = Some (Ok b, \<lparr>stream = s, buffer = b\<rparr>)"
    using d b by (cases c) (simp add: tcp_read_buf_def)
  show ?thesis
  proof (cases "length b \<le> 4 \<or> length (drop 4 b) < unat (get_u32 B b) + 4")
    case True
    then have "r = None" "d = \<lparr>stream = s, buffer = b\<rparr>"
      using assms(3) turn by (auto simp: next_once_def Let_def split: if_splits)
    then show ?thesis using car by simp
  next
    case False
    have pre: "prefix b (concat (map frame ps))" using carriesD [OF car, of "[]"] by simp
    obtain p qs where ps: "ps = p # qs" using pre False by (cases ps) auto
    have "length p < 2 ^ 32" and "prefix b (frame p @ concat (map frame qs))" using assms(2) pre ps by auto
    from frame_length_read [OF this] have n: "unat (get_u32 B b) = length p" using False by simp
    then have "length (frame p) + 4 \<le> length b" using False unfolding length_frame length_drop by linarith
    moreover from this have "\<not> prefix b (frame p)" by (auto dest: prefix_length_le)
    ultimately obtain z where z: "b = frame p @ z" "4 \<le> length z" "prefix z (concat (map frame qs))"
      using \<open>prefix b (frame p @ concat (map frame qs))\<close>
      by (auto simp: prefix_append simp del: length_frame)
    then obtain q qs' where q: "qs = q # qs'" by (cases qs) auto
    have parts: "take (length p) (drop 4 b) = p" "drop (4 + length p) b = z" "\<not> length b < 4 + length p"
      unfolding z(1) by (simp_all add: frame_def)
    have "carries S (q # qs') \<lparr>stream = s, buffer = z\<rparr>"
      using carries_advance [of S p] car unfolding ps q z(1) by simp
    then have "\<exists>x. r = Some x \<and> takes_head S de ps x d"
      using assms(3) False turn unfolding ps q takes_head_def
      by (cases "from_bytes de p")
        (auto simp: next_once_def Let_def and_then_def tcp_advance_def n parts)
    then show ?thesis by blast
  qed
qed

lemma turns_take_head:
  assumes "carries S ps c" and "\<forall>p\<in>set ps. length p < 2 ^ 32" and "next_turns n B (tcp S) de c = Some (r, d)"
  shows "r = Err Disconnected \<or> takes_head S de ps r d"
  using assms
proof (induction n arbitrary: c)
  case (Suc n)
  from Suc.prems(3) obtain x e where turn: "next_once B (tcp S) de c = Some (x, e)"
    by (auto split: option.splits)
  from turn_takes_head [OF Suc.prems(1,2) turn] Suc.prems turn Suc.IH show ?case
    by (auto split: option.splits)
qed simp

lemma packets_in_order:
  assumes "carries S ps c" and "\<forall>p\<in>set ps. length p < 2 ^ 32" and "list_all2 (\<lambda>x p. from_bytes de p = Ok x) xs ps"
    and "conn_next_n n B (tcp S) de c = Some (r, d)"
  shows "r = Err Disconnected \<or> (r = Ok (take n xs) \<and> (n = 0 \<or> n < length xs) \<and> carries S (drop n ps) d)"
  using assms
proof (induction n arbitrary: c ps xs r)
  case (Suc n)
  from Suc.prems(4) obtain x e where nxt: "conn_next B (tcp S) de c = Some (x, e)"
    by (auto split: option.splits)
  from next_turns_complete [OF this] obtain k where "next_turns k B (tcp S) de c = Some (x, e)" by blast
  from turns_take_head [OF Suc.prems(1,2) this]
  consider "x = Err Disconnected" | y p ps' ys where "x = Ok y" "ps = p # ps'" "ps' \<noteq> []" "xs = y # ys" "carries S ps' e"
      "list_all2 (\<lambda>x p. from_bytes de p = Ok x) ys ps'"
    using Suc.prems(3) unfolding takes_head_def by (force simp: list_all2_Cons2)
  then show ?case
  proof cases
    case 1
    then show ?thesis using Suc.prems(4) nxt by simp
  next
    case 2
    then obtain r' where r': "conn_next_n n B (tcp S) de e = Some (r', d)" "r = map_ok (Cons y) r'"
      using Suc.prems(4) nxt by auto
    have "0 < length ys" using 2(3,6) by (auto dest: list_all2_lengthD)
    then show ?thesis using Suc.IH [OF 2(5) _ 2(6) r'(1)] Suc.prems(2) 2 r'(2) by (auto simp: map_ok_def)
  qed
qed simp

end

text \<open>The packets \<open>xs\<close>, written one after the other.\<close>

primrec conn_write_n :: "'c connection \<Rightarrow> ('i \<Rightarrow> serialize) \<Rightarrow> 'i list \<Rightarrow> 'c \<Rightarrow> unit connect_result \<times> 'c" where
  "conn_write_n C ser [] c = (Ok (), c)"
| "conn_write_n C ser (x # xs) c = and_then (conn_write C ser x) (\<lambda>_. conn_write_n C ser xs) c"

lemma conn_write_sent:
  assumes "\<forall>bs s t. stream_write_all W bs s = (True, t) \<longrightarrow> sent t = sent s @ bs"
    and "conn_write (tcp W) ser x c = (Ok (), d)"
  shows "\<exists>p. to_bytes (ser x) = Ok p \<and> sent (stream d) = sent (stream c) @ frame p"
  using assms
  by (fastforce simp: conn_write_def and_then_def tcp_write_buf_def from_serde_def Let_def frame_def
      split: outcome.splits prod.splits if_splits)

lemma conn_write_n_sent:
  assumes "\<forall>bs s t. stream_write_all W bs s = (True, t) \<longrightarrow> sent t = sent s @ bs"
    and "conn_write_n (tcp W) ser xs c = (Ok (), d)"
  shows "\<exists>ps. list_all2 (\<lambda>x p. to_bytes (ser x) = Ok p) xs ps \<and> sent (stream d) = sent (stream c) @ concat (map frame ps)"
  using assms(2)
proof (induction xs arbitrary: c)
  case Nil
  then show ?case by simp
next
  case (Cons x xs)
  from Cons.prems obtain e where e: "conn_write (tcp W) ser x c = (Ok (), e)" "conn_write_n (tcp W) ser xs e = (Ok (), d)"
    by (auto simp: and_then_def split: outcome.splits prod.splits)
  from conn_write_sent [OF assms(1) e(1)] Cons.IH [OF e(2)] obtain p ps where
    "to_bytes (ser x) = Ok p" "list_all2 (\<lambda>x p. to_bytes (ser x) = Ok p) xs ps"
    "sent (stream d) = sent (stream c) @ concat (map frame (p # ps))" by auto
  then show ?case by (intro exI [of _ "p # ps"]) simp
qed

text \<open>C6: packets keep their order.  When a connection has written packets to a socket that takes the bytes in order,
  and another connection's socket delivers the beginning of these bytes in any chunks, then whatever number of
  packets the other connection returns, they are the first packets written, in the order of writing and
  without a gap; the last one is not among them.  The only other result is a disconnection: no packet makes
  it fail or panic.\<close>

theorem stream_in_order:
  assumes "bytes_crate B" and "item_codec ser de good" and "\<forall>x\<in>set xs. good x \<and> (\<forall>p. to_bytes (ser x) = Ok p \<longrightarrow> length p < 2 ^ 32)"
    and "\<forall>bs s t. stream_write_all W bs s = (True, t) \<longrightarrow> sent t = sent s @ bs"
    and "conn_write_n (tcp W) ser xs c = (Ok (), d)" and "sent (stream c) = []"
    and "\<forall>cs t. delivers S s cs t \<longrightarrow> prefix (concat cs) (sent (stream d))"
    and "conn_next_n n B (tcp S) de (tcp_connection_new s) = Some (r, c')"
  shows "r = Err Disconnected \<or> (r = Ok (take n xs) \<and> (n = 0 \<or> n < length xs))"
proof -
  obtain ps where ps: "list_all2 (\<lambda>x p. to_bytes (ser x) = Ok p) xs ps" "sent (stream d) = concat (map frame ps)"
    using conn_write_n_sent [OF assms(4,5)] assms(6) by auto
  have "list_all2 (\<lambda>x p. from_bytes de p = Ok x) xs ps"
    by (rule list.rel_mono_strong [OF ps(1)]) (use assms(3) item_codec.from_to_bytes [OF assms(2)] in blast)
  moreover have "\<forall>p\<in>set ps. length p < 2 ^ 32"
  proof
    fix p assume "p \<in> set ps"
    then obtain i where i: "i < length ps" "p = ps ! i" by (auto simp: in_set_conv_nth)
    with ps(1) have "xs ! i \<in> set xs" "to_bytes (ser (xs ! i)) = Ok p" by (auto simp: list_all2_conv_all_nth)
    then show "length p < 2 ^ 32" using assms(3) by blast
  qed
  moreover have "carries S ps (tcp_connection_new s)"
    using assms(7) ps(2) by (auto simp: carries_def tcp_connection_new_def)
  ultimately show ?thesis using bytes_crate.packets_in_order [OF assms(1) _ _ _ assms(8)] by blast
qed

lemma script_delivers_prefix: "delivers script (map Some ds, w) cs t \<Longrightarrow> prefix (concat cs) (concat ds)"
proof (induction cs arbitrary: ds)
  case (Cons c cs)
  then show ?case by (cases ds) (auto simp: script_def)
qed simp

theorem stream_in_order_witness:
  "conn_next_n 2 std_bytes (tcp script) de_u64
     (tcp_connection_new ([Some [0, 0, 0, 1, 5, 0, 0, 0, 1], Some [6, 0, 0, 0, 1, 5]], [])) =
     Some (Ok (take 2 [5, 6, 5]), \<lparr>stream = ([], []), buffer = frame [5]\<rparr>)"
proof -
  let ?a = "[0, 0, 0, 1, 5, 0, 0, 0, 1] :: bytes" and ?b = "[6, 0, 0, 0, 1, 5] :: bytes"
  let ?s = "([Some ?a, Some ?b], []) :: bytes option list \<times> bytes"
  have f: "frame [5] = [0, 0, 0, 1, 5]" "frame [6] = [0, 0, 0, 1, 6]" by (simp_all add: frame_def to_be_bytes_def byte_of_def)
  have 1: "conn_next std_bytes (tcp script) de_u64 (tcp_connection_new ?s) =
      Some (Ok 5, \<lparr>stream = ([Some ?b], []), buffer = [0, 0, 0, 1]\<rparr>)"
    using std.conn_next_completes [of "[5]" script ?s ?a "([Some ?b], [])" "[]" "[0, 0, 0, 1]" de_u64]
    by (simp add: script_def f from_bytes_u64_payload tcp_connection_new_def)
  have 2: "conn_next std_bytes (tcp script) de_u64 \<lparr>stream = ([Some ?b], []), buffer = [0, 0, 0, 1]\<rparr> =
      Some (Ok 6, \<lparr>stream = ([], []), buffer = frame [5]\<rparr>)"
    using std.conn_next_completes [of "[6]" script "([Some ?b], [])" ?b "([], [])" "[0, 0, 0, 1]" "frame [5]" de_u64]
    by (simp add: script_def f from_bytes_u64_payload)
  have run: "conn_next_n 2 std_bytes (tcp script) de_u64 (tcp_connection_new ?s) =
      Some (Ok [5, 6], \<lparr>stream = ([], []), buffer = frame [5]\<rparr>)"
    by (simp add: numeral_2_eq_2 1 2 map_ok_def)
  have sends: "conn_write_n (tcp script) (serialize_u64 std_bytes) [5, 6, 5] \<lparr>stream = ([], []), buffer = []\<rparr> =
      (Ok (), \<lparr>stream = ([], ?a @ ?b), buffer = []\<rparr>)"
    by (simp add: conn_write_def and_then_def tcp_write_buf_def from_serde_def u64_payload script_def Let_def
        to_be_bytes_def byte_of_def)
  let ?r = "Ok [5, 6] :: u64 list connect_result"
  have "?r = Err Disconnected \<or> (?r = Ok (take 2 [5, 6, 5]) \<and> ((2 :: nat) = 0 \<or> 2 < length [5, 6, 5 :: u64]))"
    by (rule stream_in_order [OF std.bytes_crate_axioms u64_item.item_codec_axioms _ _ sends _ _ run, where sent = "\<lambda>s. snd s"])
      (use u64_payload script_delivers_prefix [of "[?a, ?b]"] in \<open>auto simp: script_def\<close>)
  with run show ?thesis by simp
qed

end
