(* ===== verification/Packet.thy ===== *)
theory Packet
  imports Serde_Error
begin

text \<open>
  The application's packets, \<open>im/src/packet.rs\<close>: the data types and the three traits by which
  the middleware of the connect crate looks at a packet (request id, login and logout, ping and
  pong).  A \<open>HashMap\<close> is a map; a method that can panic returns an outcome.
\<close>

section \<open>Data\<close>

record message =
  msg_from :: u64
  msg_to :: u64
  timestamp :: u64
  seq :: u32
  msg_type :: rstring
  content :: rstring

text \<open>The fields of \<open>Login\<close> are the token, the version, the user agent and the time stamp.\<close>

datatype payload =
    Error u32 rstring
  | Login rstring rstring rstring u64
  | Logout
  | Ping u64
  | Pong u64
  | Message message
  | MessageCliAck
  | MessageSrvAck

record packet =
  request_id :: u64
  headers :: "rstring \<rightharpoonup> rstring"
  payload :: payload

definition packet_new :: "u64 \<Rightarrow> (rstring \<rightharpoonup> rstring) \<Rightarrow> payload \<Rightarrow> packet" where
  "packet_new i h p = \<lparr>request_id = i, headers = h, payload = p\<rparr>"

lemma packet_new_select [simp]:
  "request_id (packet_new i h p) = i" "headers (packet_new i h p) = h" "payload (packet_new i h p) = p"
  by (simp_all add: packet_new_def)

section \<open>The traits\<close>

definition packet_request_id :: "packet \<Rightarrow> u64" where
  "packet_request_id p = request_id p"

definition login_packet :: "packet \<Rightarrow> bool" where
  "login_packet p = (case payload p of Login _ _ _ _ \<Rightarrow> True | _ \<Rightarrow> False)"

definition logout_packet :: "packet \<Rightarrow> bool" where
  "logout_packet p = (case payload p of Logout \<Rightarrow> True | _ \<Rightarrow> False)"

definition ping :: "packet \<Rightarrow> bool" where
  "ping p = (case payload p of Ping _ \<Rightarrow> True | _ \<Rightarrow> False)"

definition pong :: "packet \<Rightarrow> bool" where
  "pong p = (case payload p of Pong _ \<Rightarrow> True | _ \<Rightarrow> False)"

text \<open>\<open>debug_assert!(self.ping())\<close> and \<open>unreachable!()\<close> both panic.\<close>

definition gen_pong :: "packet \<Rightarrow> (packet, unit) outcome" where
  "gen_pong p =
     (if \<not> ping p then Panic
      else case payload p of Ping nonce \<Rightarrow> Ok (packet_new (request_id p) Map.empty (Pong nonce)) | _ \<Rightarrow> Panic)"

lemma gen_pong_ping: "ping p \<Longrightarrow> \<exists>nonce. payload p = Ping nonce \<and> gen_pong p = Ok (packet_new (request_id p) Map.empty (Pong nonce))"
  by (simp add: ping_def gen_pong_def split: payload.splits)

lemma packet_kind_disjoint:
  "login_packet p \<Longrightarrow> \<not> logout_packet p \<and> \<not> ping p \<and> \<not> pong p"
  "ping p \<Longrightarrow> \<not> login_packet p \<and> \<not> logout_packet p \<and> \<not> pong p"
  by (auto simp: login_packet_def logout_packet_def ping_def pong_def split: payload.splits)

end
