(* ===== verification/Runtime.thy ===== *)
theory Runtime
  imports Prelude
begin

text \<open>
  The execution of asynchronous code.  An \<open>async fn\<close> of the source is a program over the shared
  state: it returns, it panics, or it acts at an await point.  An action yields the states and
  continuations with which the program can go on from there: none while the future is pending,
  several when the branches of a \<open>select!\<close> are ready together.  Between two actions of one
  program other tasks may act.  A loop of the source that need not end is a task that starts
  again (\<open>Continue\<close>), so a program itself is always finite.
\<close>

section \<open>Programs\<close>

datatype ('w, 'a) prog =
    Return 'a
  | Panicked
  | Act "'w \<Rightarrow> ('w \<times> ('w, 'a) prog) list"

primrec bind :: "('w, 'a) prog \<Rightarrow> ('a \<Rightarrow> ('w, 'b) prog) \<Rightarrow> ('w, 'b) prog" where
  "bind (Return a) f = f a"
| "bind Panicked f = Panicked"
| "bind (Act g) f = Act (map (map_prod id (\<lambda>p. bind p f)) \<circ> g)"

text \<open>An action that waits until its condition holds (\<open>await\<close>), and one that never waits.\<close>

definition await :: "('w \<Rightarrow> ('w \<times> 'a) list) \<Rightarrow> ('w, 'a) prog" where
  "await g = Act (map (map_prod id Return) \<circ> g)"

definition atomic :: "('w \<Rightarrow> 'w \<times> 'a) \<Rightarrow> ('w, 'a) prog" where
  "atomic g = await (\<lambda>w. [g w])"

definition gets :: "('w \<Rightarrow> 'a) \<Rightarrow> ('w, 'a) prog" where
  "gets f = atomic (\<lambda>w. (w, f w))"

definition modify :: "('w \<Rightarrow> 'w) \<Rightarrow> ('w, unit) prog" where
  "modify f = atomic (\<lambda>w. (f w, ()))"

lemma bind_Return_right: "bind p Return = p"
proof (induction p)
  case (Act g)
  have "map (map_prod id (\<lambda>p. bind p Return)) (g w) = g w" for w
    by (rule map_idI) (use Act in \<open>fastforce simp: prod_set_defs\<close>)
  then show ?case by (simp add: fun_eq_iff)
qed simp_all

lemma bind_assoc: "bind (bind p f) g = bind p (\<lambda>a. bind (f a) g)"
proof (induction p)
  case (Act h)
  have "map (map_prod id (\<lambda>p. bind p g)) (map (map_prod id (\<lambda>p. bind p f)) (h w)) =
      map (map_prod id (\<lambda>p. bind p (\<lambda>a. bind (f a) g))) (h w)" for w
    using Act by (fastforce simp: prod_set_defs)
  then show ?case by (simp add: fun_eq_iff)
qed simp_all

section \<open>Running a program without interference\<close>

text \<open>A blocked program is left as the program that waits.\<close>

datatype ('w, 'a) ending = Done 'a | Crashed | Blocked "('w, 'a) prog"

primrec outcomes :: "('w, 'a) prog \<Rightarrow> 'w \<Rightarrow> ('w \<times> ('w, 'a) ending) list" where
  "outcomes (Return a) = (\<lambda>w. [(w, Done a)])"
| "outcomes Panicked = (\<lambda>w. [(w, Crashed)])"
| "outcomes (Act g) = (\<lambda>w.
     let branches = map (map_prod id outcomes) (g w) in
     if branches = [] then [(w, Blocked (Act g))] else concat (map (\<lambda>(w, run). run w) branches))"

lemma outcomes_Act:
  "outcomes (Act g) w = (if g w = [] then [(w, Blocked (Act g))] else concat (map (\<lambda>(w, p). outcomes p w) (g w)))"
  by (simp add: Let_def comp_def split_def)

definition and_after :: "('a \<Rightarrow> ('w, 'b) prog) \<Rightarrow> 'w \<times> ('w, 'a) ending \<Rightarrow> ('w \<times> ('w, 'b) ending) list" where
  "and_after f y =
     (case y of (w, Done a) \<Rightarrow> outcomes (f a) w | (w, Crashed) \<Rightarrow> [(w, Crashed)] | (w, Blocked p) \<Rightarrow> [(w, Blocked (bind p f))])"

lemma and_after_simps [simp]:
  "and_after f (w, Done a) = outcomes (f a) w" "and_after f (w, Crashed) = [(w, Crashed)]"
  "and_after f (w, Blocked p) = [(w, Blocked (bind p f))]"
  by (simp_all add: and_after_def)

lemma outcomes_bind: "outcomes (bind p f) w = concat (map (and_after f) (outcomes p w))"
proof (induction p arbitrary: w)
  case (Act g)
  have "concat (map (\<lambda>(w, p). outcomes p w) (map (map_prod id (\<lambda>p. bind p f)) ys)) =
      concat (map (and_after f) (concat (map (\<lambda>(w, p). outcomes p w) ys)))" if "set ys \<subseteq> set (g w)" for ys
    using that
  proof (induction ys)
    case (Cons y ys)
    have "outcomes (bind (snd y) f) (fst y) = concat (map (and_after f) (outcomes (snd y) (fst y)))"
      using Cons.prems by (intro Act.IH) (auto simp: prod_set_defs)
    then show ?case using Cons by (cases y) simp
  qed simp
  from this [of "g w"] show ?case by (simp add: outcomes_Act del: outcomes.simps)
qed simp_all

lemma outcomes_bind_Done:
  "(w, Done b) \<in> set (outcomes (bind p f) v) \<longleftrightarrow> (\<exists>u a. (u, Done a) \<in> set (outcomes p v) \<and> (w, Done b) \<in> set (outcomes (f a) u))"
proof
  assume "(w, Done b) \<in> set (outcomes (bind p f) v)"
  then obtain u e where "(u, e) \<in> set (outcomes p v)" "(w, Done b) \<in> set (and_after f (u, e))"
    by (auto simp: outcomes_bind)
  then show "\<exists>u a. (u, Done a) \<in> set (outcomes p v) \<and> (w, Done b) \<in> set (outcomes (f a) u)"
    by (cases e) auto
next
  assume "\<exists>u a. (u, Done a) \<in> set (outcomes p v) \<and> (w, Done b) \<in> set (outcomes (f a) u)"
  then show "(w, Done b) \<in> set (outcomes (bind p f) v)" by (force simp: outcomes_bind)
qed

lemma outcomes_await:
  "outcomes (await g) w = (if g w = [] then [(w, Blocked (await g))] else map (map_prod id Done) (g w))"
  by (simp add: await_def outcomes_Act comp_def split_def map_prod_def
      del: outcomes.simps(3))

lemma outcomes_await_bind:
  "outcomes (bind (await g) f) w =
     (if g w = [] then [(w, Blocked (bind (await g) f))] else concat (map (\<lambda>(w, a). outcomes (f a) w) (g w)))"
  by (simp add: outcomes_bind outcomes_await comp_def split_def map_prod_def)

lemma outcomes_atomic [simp]: "outcomes (atomic g) w = (case g w of (w, a) \<Rightarrow> [(w, Done a)])"
  by (simp add: atomic_def outcomes_await map_prod_def split_def)

lemma outcomes_atomic_bind [simp]: "outcomes (bind (atomic g) f) w = (case g w of (w, a) \<Rightarrow> outcomes (f a) w)"
  by (simp add: atomic_def outcomes_await_bind)

lemma outcomes_gets [simp]: "outcomes (gets f) w = [(w, Done (f w))]"
  by (simp add: gets_def)

lemma outcomes_gets_bind [simp]: "outcomes (bind (gets f) k) w = outcomes (k (f w)) w"
  by (simp add: gets_def)

lemma outcomes_modify [simp]: "outcomes (modify f) w = [(f w, Done ())]"
  by (simp add: modify_def)

lemma outcomes_modify_bind [simp]: "outcomes (bind (modify f) k) w = outcomes (k ()) (f w)"
  by (simp add: modify_def)

section \<open>Running a program in part\<close>

text \<open>\<open>advances w p w' p'\<close>: alone and from the state \<open>w\<close>, \<open>p\<close> can come to \<open>w'\<close> with \<open>p'\<close> left to do.\<close>

inductive advances :: "'w \<Rightarrow> ('w, 'a) prog \<Rightarrow> 'w \<Rightarrow> ('w, 'a) prog \<Rightarrow> bool" where
  advances_refl: "advances w p w p"
| advances_step: "(w1, p1) \<in> set (g w) \<Longrightarrow> advances w1 p1 w2 p2 \<Longrightarrow> advances w (Act g) w2 p2"

lemma advances_trans: "advances w p w1 p1 \<Longrightarrow> advances w1 p1 w2 p2 \<Longrightarrow> advances w p w2 p2"
  by (induction rule: advances.induct) (auto intro: advances.intros)

lemma advances_bind: "advances w p w1 p1 \<Longrightarrow> advances w (bind p f) w1 (bind p1 f)"
proof (induction rule: advances.induct)
  case (advances_step w1 p1 g w w2 p2)
  then show ?case by (auto intro!: advances.advances_step)
qed (rule advances.advances_refl)

fun residual :: "('w, 'a) ending \<Rightarrow> ('w, 'a) prog" where
  "residual (Done a) = Return a"
| "residual Crashed = Panicked"
| "residual (Blocked p) = p"

lemma outcomes_advances: "(w', e) \<in> set (outcomes p w) \<Longrightarrow> advances w p w' (residual e)"
proof (induction p arbitrary: w)
  case (Act g)
  show ?case
  proof (cases "g w = []")
    case True
    then show ?thesis using Act.prems by (simp add: outcomes_Act advances_refl del: outcomes.simps)
  next
    case False
    then obtain w1 p1 where b: "(w1, p1) \<in> set (g w)" "(w', e) \<in> set (outcomes p1 w1)"
      using Act.prems by (auto simp: outcomes_Act simp del: outcomes.simps)
    then show ?thesis
      using Act.IH [of "g w" "(w1, p1)" p1 w1] by (auto simp: prod_set_defs intro: advances_step)
  qed
qed (auto intro: advances_refl)

text \<open>The first part of a program runs to its end.\<close>

lemma advances_past:
  "outcomes p w = [(w', Done a)] \<Longrightarrow> advances w' (f a) w'' p'' \<Longrightarrow> advances w (bind p f) w'' p''"
  using advances_bind [OF outcomes_advances [of w' "Done a" p w], of f] advances_trans by fastforce

section \<open>What a program does whatever its environment does\<close>

text \<open>
  \<open>keeps Z I R Q p\<close>: from every state in which \<open>I\<close> holds, at any of its await points, the program
  \<open>p\<close> goes only to states related by \<open>R\<close>, it returns only values with \<open>Q\<close>, and it panics only if
  \<open>Z\<close>.  The state at an await point is arbitrary but for \<open>I\<close>, since other tasks act in between.
\<close>

inductive keeps ::
  "bool \<Rightarrow> ('w \<Rightarrow> bool) \<Rightarrow> ('w \<Rightarrow> 'w \<Rightarrow> bool) \<Rightarrow> ('a \<Rightarrow> bool) \<Rightarrow> ('w, 'a) prog \<Rightarrow> bool"
  for Z :: bool and I :: "'w \<Rightarrow> bool" and R :: "'w \<Rightarrow> 'w \<Rightarrow> bool" and Q :: "'a \<Rightarrow> bool" where
  keeps_Return: "Q a \<Longrightarrow> keeps Z I R Q (Return a)"
| keeps_Panicked: "Z \<Longrightarrow> keeps Z I R Q Panicked"
| keeps_Act: "(\<And>w w' p. I w \<Longrightarrow> (w', p) \<in> set (g w) \<Longrightarrow> R w w' \<and> keeps Z I R Q p) \<Longrightarrow> keeps Z I R Q (Act g)"

inductive_simps keeps_Return_iff [simp]: "keeps Z I R Q (Return a)"

inductive_simps keeps_Panicked_iff [simp]: "keeps Z I R Q Panicked"

inductive_simps keeps_Act_iff: "keeps Z I R Q (Act g)"

lemma keeps_Act_step:
  "keeps Z I R Q (Act g) \<Longrightarrow> I w \<Longrightarrow> (w', p) \<in> set (g w) \<Longrightarrow> R w w' \<and> keeps Z I R Q p"
  by (simp add: keeps_Act_iff)

lemma keeps_bind:
  assumes "keeps Z I R P p" and "\<And>a. P a \<Longrightarrow> keeps Z I R Q (f a)"
  shows "keeps Z I R Q (bind p f)"
  using assms(1)
proof induction
  case (keeps_Act g)
  then show ?case by (auto intro!: keeps.keeps_Act)
qed (use assms(2) in auto)

abbreviation keeping where "keeping Z I R \<equiv> keeps Z I R (\<lambda>_. True)"

lemma keeping_bind:
  "keeping Z I R p \<Longrightarrow> (\<And>a. keeps Z I R Q (f a)) \<Longrightarrow> keeps Z I R Q (bind p f)"
  by (rule keeps_bind)

lemma keeps_await:
  "(\<And>w w' a. I w \<Longrightarrow> (w', a) \<in> set (g w) \<Longrightarrow> R w w' \<and> Q a) \<Longrightarrow> keeps Z I R Q (await g)"
  unfolding await_def by (rule keeps_Act) auto

lemma keeps_atomic:
  "(\<And>w. I w \<Longrightarrow> R w (fst (g w)) \<and> Q (snd (g w))) \<Longrightarrow> keeps Z I R Q (atomic g)"
  unfolding atomic_def by (rule keeps_await) (metis fst_conv snd_conv empty_iff list.set(1) set_ConsD)

lemma keeps_gets: "(\<And>w. I w \<Longrightarrow> R w w \<and> Q (f w)) \<Longrightarrow> keeps Z I R Q (gets f)"
  unfolding gets_def by (rule keeps_atomic) simp

lemma keeps_modify: "(\<And>w. I w \<Longrightarrow> R w (f w)) \<Longrightarrow> Q () \<Longrightarrow> keeps Z I R Q (modify f)"
  unfolding modify_def by (rule keeps_atomic) simp

lemma keeps_weaken:
  assumes "keeps Z I R P p" and "\<And>w. J w \<Longrightarrow> I w" and "\<And>w w'. R w w' \<Longrightarrow> S w w'" and "\<And>a. P a \<Longrightarrow> Q a" and "Z \<Longrightarrow> Y"
  shows "keeps Y J S Q p"
  using assms(1)
proof induction
  case (keeps_Act g)
  then show ?case using assms(2,3) by (intro keeps.keeps_Act) blast
qed (use assms(4,5) in auto)

text \<open>What a program keeps at each await point it keeps when it runs alone, for an invariant.\<close>

lemma keeps_outcomes:
  assumes "keeps Z I (\<lambda>w w'. I w \<longrightarrow> I w') Q p" and "I w" and "(w', e) \<in> set (outcomes p w)"
  shows "I w' \<and> (\<forall>a. e = Done a \<longrightarrow> Q a)"
  using assms
proof (induction arbitrary: w)
  case (keeps_Act g)
  show ?case
  proof (cases "g w = []")
    case False
    then obtain w1 p where "(w1, p) \<in> set (g w)" "(w', e) \<in> set (outcomes p w1)"
      using keeps_Act.prems(2) by (auto simp: outcomes_Act simp del: outcomes.simps(3))
    then show ?thesis using keeps_Act by blast
  qed (use keeps_Act.prems in \<open>auto simp: outcomes_Act simp del: outcomes.simps(3)\<close>)
qed auto

end
