(* ===== verification/World.thy ===== *)
theory World
  imports Packet Runtime
begin

text \<open>
  The shared state of a server: the channels and one-shot channels of tokio, the contexts of the
  connections (\<open>connect/src/context.rs\<close>), the maps behind the locks, and the tasks that were
  spawned.  The channels are code of another crate: their operations are a record that the
  definitions take as an argument, and the locales \<open>mpsc\<close> and \<open>oneshot\<close> state what tokio
  documents of them.
\<close>

section \<open>Channels of tokio\<close>

text \<open>
  The result of \<open>send\<close> says whether the value was accepted; it is not when the receiver is gone.
  \<open>None\<close> is a future that is pending: \<open>send\<close> on a full channel, \<open>recv\<close> on an empty one.
\<close>

record ('t, 'q) mpsc_ops =
  mpsc_channel :: "nat \<Rightarrow> 'q"
  mpsc_send :: "'t \<Rightarrow> 'q \<Rightarrow> (bool \<times> 'q) option"
  mpsc_recv :: "'q \<Rightarrow> ('t option \<times> 'q) option"
  mpsc_drop_receiver :: "'q \<Rightarrow> 'q"
  mpsc_drop_senders :: "'q \<Rightarrow> 'q"

record ('t, 'o) oneshot_ops =
  oneshot_channel :: 'o
  oneshot_send :: "'t \<Rightarrow> 'o \<Rightarrow> 'o"
  oneshot_poll :: "'o \<Rightarrow> 't option option"
  oneshot_drop_sender :: "'o \<Rightarrow> 'o"
  oneshot_drop_receiver :: "'o \<Rightarrow> 'o"

text \<open>What the receiver of a channel sees: the values sent and not yet received.\<close>

record 't mpsc_view =
  queued :: "'t list"
  capacity :: nat
  receiver_gone :: bool
  senders_gone :: bool

locale mpsc =
  fixes M :: "('t, 'q) mpsc_ops" and view :: "'q \<Rightarrow> 't mpsc_view"
  assumes channel: "view (mpsc_channel M n) =
      \<lparr>queued = [], capacity = n, receiver_gone = False, senders_gone = False\<rparr>"
    and send_gone: "receiver_gone (view q) \<Longrightarrow> mpsc_send M x q = Some (False, q)"
    and send_full: "\<not> receiver_gone (view q) \<Longrightarrow> capacity (view q) \<le> length (queued (view q)) \<Longrightarrow>
      mpsc_send M x q = None"
    and send: "\<not> receiver_gone (view q) \<Longrightarrow> length (queued (view q)) < capacity (view q) \<Longrightarrow>
      \<exists>q'. mpsc_send M x q = Some (True, q') \<and> view q' = (view q)\<lparr>queued := queued (view q) @ [x]\<rparr>"
    and recv: "queued (view q) = x # xs \<Longrightarrow>
      \<exists>q'. mpsc_recv M q = Some (Some x, q') \<and> view q' = (view q)\<lparr>queued := xs\<rparr>"
    and recv_empty: "queued (view q) = [] \<Longrightarrow>
      mpsc_recv M q = (if senders_gone (view q) then Some (None, q) else None)"
    and drop_receiver: "view (mpsc_drop_receiver M q) = (view q)\<lparr>queued := [], receiver_gone := True\<rparr>"
    and drop_senders: "view (mpsc_drop_senders M q) = (view q)\<lparr>senders_gone := True\<rparr>"

datatype 't oneshot_view = Waiting | Holds 't | Sender_gone | Receiver_gone

text \<open>
  A one-shot channel holds at most one value.  Polling an empty one is pending, or ends with
  \<open>Some None\<close> when the sender was dropped.
\<close>

locale oneshot =
  fixes O1 :: "('t, 'o) oneshot_ops" and state :: "'o \<Rightarrow> 't oneshot_view"
  assumes new: "state (oneshot_channel O1) = Waiting"
    and sent: "state q = Waiting \<Longrightarrow> state (oneshot_send O1 x q) = Holds x"
    and sent_late: "state q \<noteq> Waiting \<Longrightarrow> state (oneshot_send O1 x q) = state q"
    and dropped: "state (oneshot_drop_sender O1 q) = (if state q = Waiting then Sender_gone else state q)"
    and receiver_dropped: "state (oneshot_drop_receiver O1 q) = Receiver_gone"
    and poll_waiting: "state q = Waiting \<Longrightarrow> oneshot_poll O1 q = None"
    and poll_value: "state q = Holds x \<Longrightarrow> oneshot_poll O1 q = Some (Some x)"
    and poll_gone: "state q = Sender_gone \<Longrightarrow> oneshot_poll O1 q = Some None"

text \<open>Channels as lists, which keep the contracts.\<close>

definition list_mpsc :: "('t, 't mpsc_view) mpsc_ops" where
  "list_mpsc =
     \<lparr>mpsc_channel = (\<lambda>n. \<lparr>queued = [], capacity = n, receiver_gone = False, senders_gone = False\<rparr>),
      mpsc_send = (\<lambda>x q.
        if receiver_gone q then Some (False, q)
        else if capacity q \<le> length (queued q) then None
        else Some (True, q\<lparr>queued := queued q @ [x]\<rparr>)),
      mpsc_recv = (\<lambda>q.
        case queued q of
          [] \<Rightarrow> if senders_gone q then Some (None, q) else None
        | x # xs \<Rightarrow> Some (Some x, q\<lparr>queued := xs\<rparr>)),
      mpsc_drop_receiver = (\<lambda>q. q\<lparr>queued := [], receiver_gone := True\<rparr>),
      mpsc_drop_senders = (\<lambda>q. q\<lparr>senders_gone := True\<rparr>)\<rparr>"

interpretation list_mpsc: mpsc list_mpsc id
  by unfold_locales (auto simp: list_mpsc_def)

definition cell_oneshot :: "('t, 't oneshot_view) oneshot_ops" where
  "cell_oneshot =
     \<lparr>oneshot_channel = Waiting,
      oneshot_send = (\<lambda>x q. case q of Waiting \<Rightarrow> Holds x | _ \<Rightarrow> q),
      oneshot_poll = (\<lambda>q. case q of Waiting \<Rightarrow> None | Holds x \<Rightarrow> Some (Some x) | _ \<Rightarrow> Some None),
      oneshot_drop_sender = (\<lambda>q. case q of Waiting \<Rightarrow> Sender_gone | _ \<Rightarrow> q),
      oneshot_drop_receiver = (\<lambda>_. Receiver_gone)\<rparr>"

interpretation cell_oneshot: oneshot cell_oneshot id
  by unfold_locales (auto simp: cell_oneshot_def split: oneshot_view.splits)

record ('q, 'u, 'o) tokio =
  packets :: "(packet, 'q) mpsc_ops"
  signals :: "(unit, 'u) mpsc_ops"
  oneshots :: "(packet, 'o) oneshot_ops"

text \<open>The contract of all three channels of a runtime, and the runtime of list channels.\<close>

locale tokio_runtime =
  pk: mpsc "packets T" pview + sg: mpsc "signals T" sview + os: oneshot "oneshots T" oview
  for T :: "('q, 'u, 'o) tokio" and pview :: "'q \<Rightarrow> packet mpsc_view"
    and sview :: "'u \<Rightarrow> unit mpsc_view" and oview :: "'o \<Rightarrow> packet oneshot_view"

definition list_tokio :: "(packet mpsc_view, unit mpsc_view, packet oneshot_view) tokio" where
  "list_tokio = \<lparr>packets = list_mpsc, signals = list_mpsc, oneshots = cell_oneshot\<rparr>"

lemma list_tokio_select [simp]:
  "packets list_tokio = list_mpsc" "signals list_tokio = list_mpsc" "oneshots list_tokio = cell_oneshot"
  by (simp_all add: list_tokio_def)

interpretation list_runtime: tokio_runtime list_tokio id id id
  by (simp add: tokio_runtime_def list_mpsc.mpsc_axioms cell_oneshot.oneshot_axioms)

section \<open>Contexts\<close>

text \<open>
  A reference of the source (an end of a channel, an \<open>Arc\<close> of a locked map) is a number, the
  index in the store of the world.  A handle and a context are never changed after their
  construction, so they are values.
\<close>

record handle =
  channel :: nat
  shutdown :: nat

record conn_context =
  connection_id :: rstring
  handle :: handle
  attrs :: nat

text \<open>
  The attributes are boxed values of any type that are read back by a downcast; these are the
  types that the crates put there.
\<close>

datatype any = Any_notify_map nat | Any_instant nat | Any_user_id u64 | Any_shutdown nat

section \<open>The world\<close>

record heartbeat =
  interval :: nat
  hb_ctx :: conn_context
  hb_shutdown :: nat

text \<open>The tasks that the code spawns with \<open>tokio::spawn\<close>, by what they were given.\<close>

datatype job =
    Process_job conn_context packet
  | Heartbeat_job heartbeat
  | Update_state_job u64 conn_context

text \<open>
  Time is in nanoseconds.  \<open>counter_locked\<close> is the lock of the request counter; the other maps
  are locked only within a single action.
\<close>

record ('q, 'u, 'o) world =
  now :: nat
  packet_chans :: "nat \<Rightarrow> 'q"
  signal_chans :: "nat \<Rightarrow> 'u"
  oneshot_chans :: "nat \<Rightarrow> 'o"
  attr_maps :: "nat \<Rightarrow> rstring \<rightharpoonup> any"
  notify_maps :: "nat \<Rightarrow> u64 \<rightharpoonup> nat"
  next_ref :: nat
  online_state :: "u64 \<rightharpoonup> rstring"
  online_contexts :: "u64 \<rightharpoonup> conn_context"
  request_counter :: "rstring \<rightharpoonup> u64"
  counter_locked :: bool
  spawned :: "job list"

type_synonym ('q, 'u, 'o, 'a) task = "(('q, 'u, 'o) world, 'a) prog"

definition secs :: "nat \<Rightarrow> nat" where
  "secs n = n * 1000000000"

definition spawn :: "job \<Rightarrow> ('q, 'u, 'o, unit) task" where
  "spawn j = modify (\<lambda>w. w\<lparr>spawned := spawned w @ [j]\<rparr>)"

definition instant_now :: "('q, 'u, 'o, nat) task" where
  "instant_now = gets now"

text \<open>Operations on a channel in the store: a new one, sending and receiving.\<close>

definition new_packet_chan :: "('q, 'u, 'o) tokio \<Rightarrow> nat \<Rightarrow> ('q, 'u, 'o, nat) task" where
  "new_packet_chan T n = atomic (\<lambda>w.
     let r = next_ref w in
     (w\<lparr>next_ref := r + 1, packet_chans := (packet_chans w)(r := mpsc_channel (packets T) n)\<rparr>, r))"

definition new_signal_chan :: "('q, 'u, 'o) tokio \<Rightarrow> nat \<Rightarrow> ('q, 'u, 'o, nat) task" where
  "new_signal_chan T n = atomic (\<lambda>w.
     let r = next_ref w in
     (w\<lparr>next_ref := r + 1, signal_chans := (signal_chans w)(r := mpsc_channel (signals T) n)\<rparr>, r))"

definition new_oneshot :: "('q, 'u, 'o) tokio \<Rightarrow> ('q, 'u, 'o, nat) task" where
  "new_oneshot T = atomic (\<lambda>w.
     let r = next_ref w in
     (w\<lparr>next_ref := r + 1, oneshot_chans := (oneshot_chans w)(r := oneshot_channel (oneshots T))\<rparr>, r))"

definition new_attr_map :: "('q, 'u, 'o, nat) task" where
  "new_attr_map = atomic (\<lambda>w.
     let r = next_ref w in (w\<lparr>next_ref := r + 1, attr_maps := (attr_maps w)(r := Map.empty)\<rparr>, r))"

definition new_notify_map :: "('q, 'u, 'o, nat) task" where
  "new_notify_map = atomic (\<lambda>w.
     let r = next_ref w in (w\<lparr>next_ref := r + 1, notify_maps := (notify_maps w)(r := Map.empty)\<rparr>, r))"

text \<open>Sending waits while the channel is full; the result says whether the value was accepted.\<close>

definition send_packet :: "('q, 'u, 'o) tokio \<Rightarrow> nat \<Rightarrow> packet \<Rightarrow> ('q, 'u, 'o, bool) task" where
  "send_packet T r p = await (\<lambda>w.
     case mpsc_send (packets T) p (packet_chans w r) of
       None \<Rightarrow> []
     | Some (ok, q) \<Rightarrow> [(w\<lparr>packet_chans := (packet_chans w)(r := q)\<rparr>, ok)])"

definition send_signal :: "('q, 'u, 'o) tokio \<Rightarrow> nat \<Rightarrow> ('q, 'u, 'o, bool) task" where
  "send_signal T r = await (\<lambda>w.
     case mpsc_send (signals T) () (signal_chans w r) of
       None \<Rightarrow> []
     | Some (ok, q) \<Rightarrow> [(w\<lparr>signal_chans := (signal_chans w)(r := q)\<rparr>, ok)])"

definition update_oneshot :: "('o \<Rightarrow> 'o) \<Rightarrow> nat \<Rightarrow> ('q, 'u, 'o) world \<Rightarrow> ('q, 'u, 'o) world" where
  "update_oneshot f r w = w\<lparr>oneshot_chans := (oneshot_chans w)(r := f (oneshot_chans w r))\<rparr>"

text \<open>Dropping a sender that was found in a map, if there was one.\<close>

definition drop_found_sender ::
  "('q, 'u, 'o) tokio \<Rightarrow> nat option \<Rightarrow> ('q, 'u, 'o) world \<Rightarrow> ('q, 'u, 'o) world" where
  "drop_found_sender T found w =
     (case found of None \<Rightarrow> w | Some r \<Rightarrow> update_oneshot (oneshot_drop_sender (oneshots T)) r w)"

text \<open>
  How a send on a channel of the store ends: accepted, refused because the receiver is gone, or
  waiting because the channel is full.
\<close>

definition accepts :: "'t mpsc_view \<Rightarrow> bool" where
  "accepts v \<longleftrightarrow> \<not> receiver_gone v \<and> length (queued v) < capacity v"

context tokio_runtime
begin

lemma outcomes_send_packet:
  "accepts (pview (packet_chans w r)) \<Longrightarrow>
     \<exists>q. pview q = (pview (packet_chans w r))\<lparr>queued := queued (pview (packet_chans w r)) @ [p]\<rparr> \<and>
         outcomes (bind (send_packet T r p) f) w = outcomes (f True) (w\<lparr>packet_chans := (packet_chans w)(r := q)\<rparr>)"
  "receiver_gone (pview (packet_chans w r)) \<Longrightarrow>
     outcomes (bind (send_packet T r p) f) w = outcomes (f False) w"
  using pk.send [of "packet_chans w r" p] pk.send_gone [of "packet_chans w r" p]
  by (auto simp: send_packet_def outcomes_await_bind accepts_def)

lemma outcomes_send_signal:
  "accepts (sview (signal_chans w r)) \<Longrightarrow>
     \<exists>q. sview q = (sview (signal_chans w r))\<lparr>queued := queued (sview (signal_chans w r)) @ [()]\<rparr> \<and>
         outcomes (bind (send_signal T r) f) w = outcomes (f True) (w\<lparr>signal_chans := (signal_chans w)(r := q)\<rparr>)"
  "receiver_gone (sview (signal_chans w r)) \<Longrightarrow>
     outcomes (bind (send_signal T r) f) w = outcomes (f False) w"
  using sg.send [of "signal_chans w r" "()"] sg.send_gone [of "signal_chans w r" "()"]
  by (auto simp: send_signal_def outcomes_await_bind accepts_def)

end

end
