(* ===== verification/Context.thy ===== *)
theory Context
  imports World
begin

text \<open>
  The handle and the context of a connection, \<open>connect/src/context.rs\<close>: sending a packet to the
  connection, asking it to close, and the attributes.  The trait \<open>Processor\<close> of
  \<open>connect/src/processor.rs\<close>, which every handler and middleware implements, is a record of three
  programs.
\<close>

section \<open>Handle\<close>

definition handle_new :: "nat \<Rightarrow> nat \<Rightarrow> handle" where
  "handle_new send_channel shutdown_channel = \<lparr>channel = send_channel, shutdown = shutdown_channel\<rparr>"

definition handle_send ::
  "('q, 'u, 'o) tokio \<Rightarrow> handle \<Rightarrow> packet \<Rightarrow> ('q, 'u, 'o, (unit, packet) outcome) task" where
  "handle_send T h p =
     bind (send_packet T (channel h) p) (\<lambda>ok. Return (if ok then Ok () else Err p))"

definition handle_close :: "('q, 'u, 'o) tokio \<Rightarrow> handle \<Rightarrow> ('q, 'u, 'o, unit) task" where
  "handle_close T h = bind (send_signal T (shutdown h)) (\<lambda>_. Return ())"

section \<open>Context\<close>

definition context_new :: "rstring \<Rightarrow> handle \<Rightarrow> ('q, 'u, 'o, conn_context) task" where
  "context_new i h =
     bind new_attr_map (\<lambda>m. Return \<lparr>connection_id = i, handle = h, attrs = m\<rparr>)"

definition ctx_id :: "conn_context \<Rightarrow> rstring" where
  "ctx_id ctx = connection_id ctx"

definition ctx_close :: "('q, 'u, 'o) tokio \<Rightarrow> conn_context \<Rightarrow> ('q, 'u, 'o, unit) task" where
  "ctx_close T ctx = handle_close T (handle ctx)"

definition ctx_send ::
  "('q, 'u, 'o) tokio \<Rightarrow> conn_context \<Rightarrow> packet \<Rightarrow> ('q, 'u, 'o, (unit, packet) outcome) task" where
  "ctx_send T ctx p = handle_send T (handle ctx) p"

text \<open>The type argument of \<open>attr\<close> is the downcast to that type.\<close>

fun downcast_notify_map :: "any \<Rightarrow> nat option" where
  "downcast_notify_map (Any_notify_map r) = Some r"
| "downcast_notify_map _ = None"

fun downcast_instant :: "any \<Rightarrow> nat option" where
  "downcast_instant (Any_instant t) = Some t"
| "downcast_instant _ = None"

fun downcast_user_id :: "any \<Rightarrow> u64 option" where
  "downcast_user_id (Any_user_id i) = Some i"
| "downcast_user_id _ = None"

fun downcast_shutdown :: "any \<Rightarrow> nat option" where
  "downcast_shutdown (Any_shutdown r) = Some r"
| "downcast_shutdown _ = None"

definition ctx_attr ::
  "(any \<Rightarrow> 'v option) \<Rightarrow> conn_context \<Rightarrow> rstring \<Rightarrow> ('q, 'u, 'o, 'v option) task" where
  "ctx_attr downcast ctx key = gets (\<lambda>w. Option.bind (attr_maps w (attrs ctx) key) downcast)"

definition ctx_put_attr ::
  "conn_context \<Rightarrow> rstring \<Rightarrow> any \<Rightarrow> ('q, 'u, 'o, any option) task" where
  "ctx_put_attr ctx key v = atomic (\<lambda>w.
     (w\<lparr>attr_maps := (attr_maps w)(attrs ctx := (attr_maps w (attrs ctx))(key \<mapsto> v))\<rparr>,
      attr_maps w (attrs ctx) key))"

section \<open>Processors\<close>

record 'w processor =
  connected :: "conn_context \<Rightarrow> ('w, unit) prog"
  process :: "conn_context \<Rightarrow> packet \<Rightarrow> ('w, unit) prog"
  disconnected :: "conn_context \<Rightarrow> ('w, unit) prog"

type_synonym ('q, 'u, 'o) handler = "('q, 'u, 'o) world processor"

text \<open>The bodies that the trait provides.\<close>

definition default_connected :: "conn_context \<Rightarrow> ('w, unit) prog" where
  "default_connected ctx = Return ()"

definition default_disconnected :: "conn_context \<Rightarrow> ('w, unit) prog" where
  "default_disconnected ctx = Return ()"

section \<open>How the operations of a context end\<close>

lemma outcomes_ctx_attr_bind [simp]:
  "outcomes (bind (ctx_attr d ctx key) f) w = outcomes (f (Option.bind (attr_maps w (attrs ctx) key) d)) w"
  by (simp add: ctx_attr_def)

definition put_attr :: "conn_context \<Rightarrow> rstring \<Rightarrow> any \<Rightarrow> ('q, 'u, 'o) world \<Rightarrow> ('q, 'u, 'o) world" where
  "put_attr ctx key v w =
     w\<lparr>attr_maps := (attr_maps w)(attrs ctx := (attr_maps w (attrs ctx))(key \<mapsto> v))\<rparr>"

lemma outcomes_ctx_put_attr_bind [simp]:
  "outcomes (bind (ctx_put_attr ctx key v) f) w =
   outcomes (f (attr_maps w (attrs ctx) key)) (put_attr ctx key v w)"
  by (simp add: ctx_put_attr_def put_attr_def)

lemma put_attr_select [simp]:
  "attr_maps (put_attr ctx key v w) = (attr_maps w)(attrs ctx := (attr_maps w (attrs ctx))(key \<mapsto> v))"
  "now (put_attr ctx key v w) = now w" "packet_chans (put_attr ctx key v w) = packet_chans w"
  "signal_chans (put_attr ctx key v w) = signal_chans w" "oneshot_chans (put_attr ctx key v w) = oneshot_chans w"
  "notify_maps (put_attr ctx key v w) = notify_maps w" "next_ref (put_attr ctx key v w) = next_ref w"
  "online_state (put_attr ctx key v w) = online_state w" "online_contexts (put_attr ctx key v w) = online_contexts w"
  "request_counter (put_attr ctx key v w) = request_counter w"
  "counter_locked (put_attr ctx key v w) = counter_locked w" "spawned (put_attr ctx key v w) = spawned w"
  by (simp_all add: put_attr_def)

text \<open>The packets that wait to be written on the connection of a context.\<close>

definition outbox :: "('q \<Rightarrow> packet mpsc_view) \<Rightarrow> conn_context \<Rightarrow> ('q, 'u, 'o) world \<Rightarrow> packet mpsc_view" where
  "outbox pview ctx w = pview (packet_chans w (channel (handle ctx)))"

definition close_requests :: "('u \<Rightarrow> unit mpsc_view) \<Rightarrow> conn_context \<Rightarrow> ('q, 'u, 'o) world \<Rightarrow> unit mpsc_view" where
  "close_requests sview ctx w = sview (signal_chans w (shutdown (handle ctx)))"

context tokio_runtime
begin

lemma sendable:
  assumes "accepts (outbox pview ctx w)"
  obtains q where "mpsc_send (packets T) p (packet_chans w (channel (handle ctx))) = Some (True, q)"
    and "pview q = (outbox pview ctx w)\<lparr>queued := queued (outbox pview ctx w) @ [p]\<rparr>"
  using assms pk.send unfolding accepts_def outbox_def by blast

lemma outcomes_ctx_send:
  "mpsc_send (packets T) p (packet_chans w (channel (handle ctx))) = Some (True, q) \<Longrightarrow>
   outcomes (bind (ctx_send T ctx p) f) w =
   outcomes (f (Ok ())) (w\<lparr>packet_chans := (packet_chans w)(channel (handle ctx) := q)\<rparr>)"
  by (simp add: ctx_send_def handle_send_def bind_assoc send_packet_def outcomes_await_bind)

lemma outcomes_ctx_send_refused:
  "receiver_gone (outbox pview ctx w) \<Longrightarrow> outcomes (bind (ctx_send T ctx p) f) w = outcomes (f (Err p)) w"
  by (simp add: ctx_send_def handle_send_def bind_assoc outbox_def outcomes_send_packet(2))

lemma outcomes_ctx_close:
  assumes "accepts (close_requests sview ctx w)"
  obtains q where "sview q = (close_requests sview ctx w)\<lparr>queued := queued (close_requests sview ctx w) @ [()]\<rparr>"
    and "outcomes (ctx_close T ctx) w =
           [(w\<lparr>signal_chans := (signal_chans w)(shutdown (handle ctx) := q)\<rparr>, Done ())]"
proof -
  obtain q where q: "mpsc_send (signals T) () (signal_chans w (shutdown (handle ctx))) = Some (True, q)"
    "sview q = (close_requests sview ctx w)\<lparr>queued := queued (close_requests sview ctx w) @ [()]\<rparr>"
    using assms sg.send unfolding accepts_def close_requests_def by blast
  show ?thesis
    by (rule that [OF q(2)]) (simp add: ctx_close_def handle_close_def send_signal_def outcomes_await_bind q(1))
qed

lemma outcomes_ctx_close_refused:
  "receiver_gone (close_requests sview ctx w) \<Longrightarrow> outcomes (ctx_close T ctx) w = [(w, Done ())]"
  by (simp add: ctx_close_def handle_close_def close_requests_def outcomes_send_signal(2))

end

end
