(* ===== verification/Sync_Message.thy ===== *)
theory Sync_Message
  imports Context Connect_Error
begin

text \<open>
  Requests that wait for their response, \<open>connect/src/extract/sync_message.rs\<close>.  \<open>sync_send\<close>
  registers a one-shot channel under the request id of the packet, sends the packet and waits for
  at most three seconds; \<open>SyncMessageProcessor\<close> hands an incoming packet to the waiter that
  registered its id, and to the inner processor when there is none.
\<close>

section \<open>\<open>Response\<close>\<close>

text \<open>
  The future of the receiving end.  \<open>None\<close> is \<open>Poll::Pending\<close>; \<open>Some None\<close> is the end of a
  channel whose sender is gone.
\<close>

definition response_new :: "('q, 'u, 'o) tokio \<Rightarrow> ('q, 'u, 'o, nat \<times> nat) task" where
  "response_new T = bind (new_oneshot T) (\<lambda>r. Return (r, r))"

definition response_poll :: "('q, 'u, 'o) tokio \<Rightarrow> nat \<Rightarrow> ('q, 'u, 'o) world \<Rightarrow> packet option option" where
  "response_poll T r w =
     (case oneshot_poll (oneshots T) (oneshot_chans w r) of
        Some (Some v) \<Rightarrow> Some (Some v)
      | None \<Rightarrow> None
      | Some None \<Rightarrow> Some None)"

text \<open>
  \<open>timeout\<close> polls the future first and its own deadline second; the future is dropped at the end.
\<close>

datatype 'a timed = Elapsed | In_time 'a

definition response_or_deadline ::
  "('q, 'u, 'o) tokio \<Rightarrow> nat \<Rightarrow> nat \<Rightarrow> ('q, 'u, 'o, packet option timed) task" where
  "response_or_deadline T deadline r = await (\<lambda>w.
     let dropped = update_oneshot (oneshot_drop_receiver (oneshots T)) r w in
     case response_poll T r w of
       Some v \<Rightarrow> [(dropped, In_time v)]
     | None \<Rightarrow> (if deadline \<le> now w then [(dropped, Elapsed)] else []))"

definition timeout_response ::
  "('q, 'u, 'o) tokio \<Rightarrow> nat \<Rightarrow> nat \<Rightarrow> ('q, 'u, 'o, packet option timed) task" where
  "timeout_response T duration r =
     bind (gets now) (\<lambda>start. response_or_deadline T (start + duration) r)"

section \<open>\<open>sync_send\<close>\<close>

text \<open>Inserting into and removing from the locked map.\<close>

definition notify_insert :: "('q, 'u, 'o) tokio \<Rightarrow> nat \<Rightarrow> u64 \<Rightarrow> nat \<Rightarrow> ('q, 'u, 'o, unit) task" where
  "notify_insert T m i sender = modify (\<lambda>w.
     drop_found_sender T (notify_maps w m i)
       (w\<lparr>notify_maps := (notify_maps w)(m := (notify_maps w m)(i \<mapsto> sender))\<rparr>))"

definition notify_remove :: "nat \<Rightarrow> u64 \<Rightarrow> ('q, 'u, 'o, nat option) task" where
  "notify_remove m i = atomic (\<lambda>w.
     (w\<lparr>notify_maps := (notify_maps w)(m := (notify_maps w m)(i := None))\<rparr>, notify_maps w m i))"

fun sync_result :: "packet option timed \<Rightarrow> packet connect_result" where
  "sync_result (In_time (Some data)) = Ok data"
| "sync_result (In_time None) = Err Disconnected"
| "sync_result Elapsed = Err Timeout"

definition sync_send ::
  "('q, 'u, 'o) tokio \<Rightarrow> conn_context \<Rightarrow> packet \<Rightarrow> ('q, 'u, 'o, packet connect_result) task" where
  "sync_send T ctx data =
     bind (ctx_attr downcast_notify_map ctx (str_bytes ''SYNC_NOTIFY'')) (\<lambda>attr.
     case attr of
       None \<Rightarrow> bind (ctx_close T ctx) (\<lambda>_. Return (Err Disconnected))
     | Some notify_map \<Rightarrow>
         bind (response_new T) (\<lambda>(res, sender).
         bind (notify_insert T notify_map (packet_request_id data) sender) (\<lambda>_.
         bind (ctx_send T ctx data) (\<lambda>sent.
         case sent of
           Ok _ \<Rightarrow>
             bind (timeout_response T (secs 3) res) (\<lambda>resp. Return (sync_result resp))
         | Err data \<Rightarrow>
             bind (notify_remove notify_map (packet_request_id data)) (\<lambda>found.
             bind (modify (drop_found_sender T found)) (\<lambda>_.
             bind (modify (update_oneshot (oneshot_drop_receiver (oneshots T)) res)) (\<lambda>_.
             Return (Err Disconnected))))
         | Panic \<Rightarrow> Panicked))))"

section \<open>\<open>SyncMessageProcessor\<close>\<close>

definition sync_connected ::
  "('q, 'u, 'o) handler \<Rightarrow> conn_context \<Rightarrow> ('q, 'u, 'o, unit) task" where
  "sync_connected inner ctx =
     bind new_notify_map (\<lambda>m.
     bind (ctx_put_attr ctx (str_bytes ''SYNC_NOTIFY'') (Any_notify_map m)) (\<lambda>_.
     connected inner ctx))"

definition sync_process ::
  "('q, 'u, 'o) tokio \<Rightarrow> ('q, 'u, 'o) handler \<Rightarrow> conn_context \<Rightarrow> packet \<Rightarrow> ('q, 'u, 'o, unit) task" where
  "sync_process T inner ctx p =
     (let i = packet_request_id p in
      bind (ctx_attr downcast_notify_map ctx (str_bytes ''SYNC_NOTIFY'')) (\<lambda>attr.
      case attr of
        None \<Rightarrow> ctx_close T ctx
      | Some notify_map \<Rightarrow>
          bind (notify_remove notify_map i) (\<lambda>notify.
          case notify of
            Some sender \<Rightarrow> modify (update_oneshot (oneshot_send (oneshots T) p) sender)
          | None \<Rightarrow> process inner ctx p)))"

definition sync_disconnected ::
  "('q, 'u, 'o) handler \<Rightarrow> conn_context \<Rightarrow> ('q, 'u, 'o, unit) task" where
  "sync_disconnected inner ctx = disconnected inner ctx"

definition sync_message_processor ::
  "('q, 'u, 'o) tokio \<Rightarrow> ('q, 'u, 'o) handler \<Rightarrow> ('q, 'u, 'o) handler" where
  "sync_message_processor T inner =
     \<lparr>connected = sync_connected inner, process = sync_process T inner,
      disconnected = sync_disconnected inner\<rparr>"

section \<open>Waiting for the response\<close>

text \<open>The program that is left of \<open>sync_send\<close> after the packet was sent.\<close>

definition await_reply ::
  "('q, 'u, 'o) tokio \<Rightarrow> nat \<Rightarrow> nat \<Rightarrow> ('q, 'u, 'o, packet connect_result) task" where
  "await_reply T deadline r =
     bind (response_or_deadline T deadline r) (\<lambda>resp. Return (sync_result resp))"

definition registered :: "conn_context \<Rightarrow> nat \<Rightarrow> ('q, 'u, 'o) world \<Rightarrow> bool" where
  "registered ctx m w \<longleftrightarrow> attr_maps w (attrs ctx) (str_bytes ''SYNC_NOTIFY'') = Some (Any_notify_map m)"

text \<open>The receiving end is dropped when the waiting ends.\<close>

definition reply_dropped :: "('q, 'u, 'o) tokio \<Rightarrow> nat \<Rightarrow> ('q, 'u, 'o) world \<Rightarrow> ('q, 'u, 'o) world" where
  "reply_dropped T r w = update_oneshot (oneshot_drop_receiver (oneshots T)) r w"

lemma reply_dropped_select [simp]:
  "packet_chans (reply_dropped T r w) = packet_chans w" "now (reply_dropped T r w) = now w"
  by (simp_all add: reply_dropped_def update_oneshot_def)

text \<open>The state after the waiter was registered, before the packet is sent.\<close>

definition request_registered ::
  "('q, 'u, 'o) tokio \<Rightarrow> nat \<Rightarrow> u64 \<Rightarrow> ('q, 'u, 'o) world \<Rightarrow> ('q, 'u, 'o) world" where
  "request_registered T m i w =
     drop_found_sender T (notify_maps w m i)
       (w\<lparr>next_ref := next_ref w + 1,
          oneshot_chans := (oneshot_chans w)(next_ref w := oneshot_channel (oneshots T)),
          notify_maps := (notify_maps w)(m := (notify_maps w m)(i \<mapsto> next_ref w))\<rparr>)"

lemma request_registered_select [simp]:
  "now (request_registered T m i w) = now w" "packet_chans (request_registered T m i w) = packet_chans w"
  "signal_chans (request_registered T m i w) = signal_chans w" "attr_maps (request_registered T m i w) = attr_maps w"
  "notify_maps (request_registered T m i w) = (notify_maps w)(m := (notify_maps w m)(i \<mapsto> next_ref w))"
  "next_ref (request_registered T m i w) = next_ref w + 1"
  by (simp_all add: request_registered_def drop_found_sender_def update_oneshot_def split: option.splits)

context tokio_runtime
begin

lemma await_reply_ends:
  "oview (oneshot_chans w r) = Waiting \<Longrightarrow> now w < deadline \<Longrightarrow>
     outcomes (await_reply T deadline r) w = [(w, Blocked (await_reply T deadline r))]"
  "oview (oneshot_chans w r) = Waiting \<Longrightarrow> deadline \<le> now w \<Longrightarrow>
     outcomes (await_reply T deadline r) w = [(reply_dropped T r w, Done (Err Timeout))]"
  "oview (oneshot_chans w r) = Holds p \<Longrightarrow>
     outcomes (await_reply T deadline r) w = [(reply_dropped T r w, Done (Ok p))]"
  "oview (oneshot_chans w r) = Sender_gone \<Longrightarrow>
     outcomes (await_reply T deadline r) w = [(reply_dropped T r w, Done (Err Disconnected))]"
  using os.poll_waiting os.poll_value os.poll_gone
  by (simp_all add: await_reply_def response_or_deadline_def outcomes_await_bind response_poll_def
      reply_dropped_def Let_def)

lemma oneshot_request_registered:
  "notify_maps w m i \<noteq> Some (next_ref w) \<Longrightarrow>
     oview (oneshot_chans (request_registered T m i w) (next_ref w)) = Waiting"
  "notify_maps w m i = Some r \<Longrightarrow> r \<noteq> next_ref w \<Longrightarrow> oview (oneshot_chans w r) = Waiting \<Longrightarrow>
     oview (oneshot_chans (request_registered T m i w) r) = Sender_gone"
  by (auto simp: request_registered_def drop_found_sender_def update_oneshot_def os.new os.dropped
      split: option.splits)

lemma outcomes_sync_send:
  assumes "registered ctx m w"
  shows "outcomes (sync_send T ctx data) w =
    outcomes (bind (ctx_send T ctx data) (\<lambda>sent.
         case sent of
           Ok _ \<Rightarrow>
             bind (timeout_response T (secs 3) (next_ref w)) (\<lambda>resp. Return (sync_result resp))
         | Err data \<Rightarrow>
             bind (notify_remove m (request_id data)) (\<lambda>found.
             bind (modify (drop_found_sender T found)) (\<lambda>_.
             bind (modify (update_oneshot (oneshot_drop_receiver (oneshots T)) (next_ref w))) (\<lambda>_.
             Return (Err Disconnected))))
         | Panic \<Rightarrow> Panicked)) (request_registered T m (request_id data) w)"
  using assms
  by (simp add: sync_send_def registered_def response_new_def new_oneshot_def bind_assoc Let_def
      notify_insert_def packet_request_id_def request_registered_def)

end

end
