(* ===== verification/Sync_Properties.thy ===== *)
theory Sync_Properties
  imports Sync_Message
begin

text \<open>
  The properties of requests that wait for their response: the response reaches the waiter that
  asked for it and no one else, a request that is not answered ends after three seconds, a
  connection that is gone ends it at once, and what happens to late responses and reused ids.
\<close>

context tokio_runtime
begin

text \<open>A packet whose id is registered goes to the waiter, whatever the inner processor is.\<close>

definition answered :: "nat \<Rightarrow> nat \<Rightarrow> packet \<Rightarrow> ('q, 'u, 'o) world \<Rightarrow> ('q, 'u, 'o) world" where
  "answered m r p w =
     update_oneshot (oneshot_send (oneshots T) p) r
       (w\<lparr>notify_maps := (notify_maps w)(m := (notify_maps w m)(request_id p := None))\<rparr>)"

lemma sync_process_registered:
  assumes "registered ctx m w" and "notify_maps w m (request_id p) = Some r"
  shows "outcomes (sync_process T inner ctx p) w = [(answered m r p w, Done ())]"
  using assms
  by (simp add: sync_process_def registered_def packet_request_id_def notify_remove_def answered_def Let_def)

lemma sync_process_unregistered:
  assumes "registered ctx m w" and "notify_maps w m (request_id p) = None"
  shows "outcomes (sync_process T inner ctx p) w = outcomes (process inner ctx p) w"
proof -
  have "(notify_maps w)(m := (notify_maps w m)(request_id p := None)) = notify_maps w"
    using assms(2) by (simp add: fun_upd_idem)
  then show ?thesis
    using assms by (simp add: sync_process_def registered_def packet_request_id_def notify_remove_def Let_def)
qed

lemma answered_oneshot:
  "oview (oneshot_chans w r) = Waiting \<Longrightarrow> oview (oneshot_chans (answered m r p w) r) = Holds p"
  "oview (oneshot_chans w r) \<noteq> Waiting \<Longrightarrow> oview (oneshot_chans (answered m r p w) r) = oview (oneshot_chans w r)"
  by (simp_all add: answered_def update_oneshot_def os.sent os.sent_late)

lemma answered_select [simp]:
  "notify_maps (answered m r p w) = (notify_maps w)(m := (notify_maps w m)(request_id p := None))"
  "packet_chans (answered m r p w) = packet_chans w" "now (answered m r p w) = now w" "attr_maps (answered m r p w) = attr_maps w"
  by (simp_all add: answered_def update_oneshot_def)

text \<open>How \<open>sync_send\<close> begins: the packet is accepted, or it is refused.\<close>

lemma sync_send_accepted:
  assumes "registered ctx m w" and "notify_maps w m (request_id data) \<noteq> Some (next_ref w)"
    and "accepts (outbox pview ctx w)"
  obtains w1 where
    "outcomes (sync_send T ctx data) w = [(w1, Blocked (await_reply T (now w + secs 3) (next_ref w)))]"
    "queued (outbox pview ctx w1) = queued (outbox pview ctx w) @ [data]"
    "oview (oneshot_chans w1 (next_ref w)) = Waiting"
    "notify_maps w1 = (notify_maps w)(m := (notify_maps w m)(request_id data \<mapsto> next_ref w))"
    "now w1 = now w" "attr_maps w1 = attr_maps w" "next_ref w1 = next_ref w + 1"
    "\<And>r. r \<noteq> channel (handle ctx) \<Longrightarrow> packet_chans w1 r = packet_chans w r"
    "\<And>r. r \<noteq> next_ref w \<Longrightarrow> notify_maps w m (request_id data) = Some r \<Longrightarrow>
        oview (oneshot_chans w r) = Waiting \<Longrightarrow> oview (oneshot_chans w1 r) = Sender_gone"
proof -
  let ?w = "request_registered T m (request_id data) w"
  have "accepts (outbox pview ctx ?w)" using assms(3) by (simp add: outbox_def)
  then obtain q where q: "mpsc_send (packets T) data (packet_chans ?w (channel (handle ctx))) = Some (True, q)"
    "pview q = (outbox pview ctx ?w)\<lparr>queued := queued (outbox pview ctx ?w) @ [data]\<rparr>"
    by (rule sendable)
  let ?w1 = "?w\<lparr>packet_chans := (packet_chans ?w)(channel (handle ctx) := q)\<rparr>"
  have waiting: "oview (oneshot_chans ?w1 (next_ref w)) = Waiting"
    using oneshot_request_registered(1) [OF assms(2)] by simp
  have "outcomes (await_reply T (now w + secs 3) (next_ref w)) ?w1 =
      [(?w1, Blocked (await_reply T (now w + secs 3) (next_ref w)))]"
    using waiting by (intro await_reply_ends(1)) (simp_all add: secs_def)
  then have out: "outcomes (sync_send T ctx data) w =
      [(?w1, Blocked (await_reply T (now w + secs 3) (next_ref w)))]"
    by (simp add: outcomes_sync_send [OF assms(1)] outcomes_ctx_send [OF q(1)] timeout_response_def bind_assoc await_reply_def)
  show ?thesis
    by (rule that [OF out _ waiting])
      (use q(2) oneshot_request_registered(2) in \<open>auto simp: outbox_def\<close>)
qed

lemma sync_send_refused:
  assumes "registered ctx m w" and "notify_maps w m (request_id data) = None"
    and "receiver_gone (outbox pview ctx w)"
  obtains w1 where "outcomes (sync_send T ctx data) w = [(w1, Done (Err Disconnected))]"
    "notify_maps w1 = notify_maps w" "packet_chans w1 = packet_chans w"
proof -
  let ?w = "request_registered T m (request_id data) w"
  have "receiver_gone (outbox pview ctx ?w)" using assms(3) by (simp add: outbox_def)
  note refused = outcomes_ctx_send_refused [OF this]
  have same: "(notify_maps w)(m := (notify_maps w m)(request_id data := None)) = notify_maps w"
    using assms(2) by (simp add: fun_upd_idem)
  show ?thesis
    by (rule that [of "reply_dropped T (next_ref w)
        (drop_found_sender T (Some (next_ref w)) (?w\<lparr>notify_maps := notify_maps w\<rparr>))"])
      (auto simp: reply_dropped_def outcomes_sync_send [OF assms(1)] refused notify_remove_def Let_def same
        drop_found_sender_def update_oneshot_def)
qed

text \<open>A request and its response, taken together.\<close>

lemma request_then_response:
  assumes "registered ctx m w" and "notify_maps w m (request_id data) \<noteq> Some (next_ref w)"
    and "accepts (outbox pview ctx w)" and "request_id resp = request_id data"
  shows "\<exists>w1 w2 w3 k. outcomes (sync_send T ctx data) w = [(w1, Blocked k)] \<and>
           queued (outbox pview ctx w1) = queued (outbox pview ctx w) @ [data] \<and>
           outcomes (sync_process T inner ctx resp) w1 = [(w2, Done ())] \<and>
           notify_maps w2 m (request_id data) = None \<and>
           outcomes k w2 = [(w3, Done (Ok resp))]"
proof -
  obtain w1 where w1: "outcomes (sync_send T ctx data) w =
        [(w1, Blocked (await_reply T (now w + secs 3) (next_ref w)))]"
      "queued (outbox pview ctx w1) = queued (outbox pview ctx w) @ [data]"
      "oview (oneshot_chans w1 (next_ref w)) = Waiting"
      "notify_maps w1 = (notify_maps w)(m := (notify_maps w m)(request_id data \<mapsto> next_ref w))"
      "attr_maps w1 = attr_maps w"
    using sync_send_accepted [OF assms(1-3)] by metis
  let ?w2 = "answered m (next_ref w) resp w1"
  have "registered ctx m w1" "notify_maps w1 m (request_id resp) = Some (next_ref w)"
    using assms w1 by (simp_all add: registered_def)
  from sync_process_registered [OF this]
  have "outcomes (sync_process T inner ctx resp) w1 = [(?w2, Done ())]" .
  moreover have "outcomes (await_reply T (now w + secs 3) (next_ref w)) ?w2 =
      [(reply_dropped T (next_ref w) ?w2, Done (Ok resp))]"
    by (rule await_reply_ends(3) [OF answered_oneshot(1) [OF w1(3)]])
  moreover have "notify_maps ?w2 m (request_id data) = None" using assms(4) by simp
  ultimately show ?thesis using w1(1,2) by blast
qed

text \<open>A request that is not answered: it waits for three seconds, and its entry stays behind.\<close>

lemma request_then_silence:
  assumes "registered ctx m w" and "notify_maps w m (request_id data) \<noteq> Some (next_ref w)"
    and "accepts (outbox pview ctx w)"
  shows "\<exists>w1 w2 k. outcomes (sync_send T ctx data) w = [(w1, Blocked k)] \<and>
           (\<forall>d. d < secs 3 \<longrightarrow> outcomes k (w1\<lparr>now := now w + d\<rparr>) = [(w1\<lparr>now := now w + d\<rparr>, Blocked k)]) \<and>
           outcomes k (w1\<lparr>now := now w + secs 3\<rparr>) = [(w2, Done (Err Timeout))] \<and>
           notify_maps w2 m (request_id data) = Some (next_ref w) \<and>
           oview (oneshot_chans w2 (next_ref w)) = Receiver_gone \<and> registered ctx m w2"
proof -
  obtain w1 where w1: "outcomes (sync_send T ctx data) w =
        [(w1, Blocked (await_reply T (now w + secs 3) (next_ref w)))]"
      "oview (oneshot_chans w1 (next_ref w)) = Waiting"
      "notify_maps w1 = (notify_maps w)(m := (notify_maps w m)(request_id data \<mapsto> next_ref w))"
      "attr_maps w1 = attr_maps w"
    using sync_send_accepted [OF assms] by metis
  let ?k = "await_reply T (now w + secs 3) (next_ref w)"
  let ?w2 = "reply_dropped T (next_ref w) (w1\<lparr>now := now w + secs 3\<rparr>)"
  have "outcomes ?k (w1\<lparr>now := now w + d\<rparr>) = [(w1\<lparr>now := now w + d\<rparr>, Blocked ?k)]" if "d < secs 3" for d
    using that w1(2) by (intro await_reply_ends(1)) simp_all
  moreover have "outcomes ?k (w1\<lparr>now := now w + secs 3\<rparr>) = [(?w2, Done (Err Timeout))]"
    using w1(2) by (intro await_reply_ends(2)) simp_all
  moreover have "notify_maps ?w2 m (request_id data) = Some (next_ref w)"
    "oview (oneshot_chans ?w2 (next_ref w)) = Receiver_gone" "registered ctx m ?w2"
    using w1(3,4) assms(1) by (simp_all add: reply_dropped_def update_oneshot_def os.receiver_dropped registered_def)
  ultimately show ?thesis using w1(1) by blast
qed

text \<open>A packet for an id whose waiter is gone is dropped.\<close>

lemma late_response_dropped:
  assumes "registered ctx m w" and "notify_maps w m (request_id p) = Some r"
    and "oview (oneshot_chans w r) = Receiver_gone"
  shows "\<exists>w'. outcomes (sync_process T inner ctx p) w = [(w', Done ())] \<and>
           oview (oneshot_chans w' r) = Receiver_gone \<and> notify_maps w' m (request_id p) = None \<and>
           packet_chans w' = packet_chans w \<and> spawned w' = spawned w"
  using sync_process_registered [OF assms(1,2)] answered_oneshot(2) [of w r m p] assms(3)
  by (simp add: answered_def update_oneshot_def)

text \<open>A second request with the same id takes the place of the first, whose waiter gives up at once.\<close>

lemma request_displaced:
  assumes "registered ctx m w" and "notify_maps w m (request_id data) = Some r" and "r \<noteq> next_ref w"
    and "oview (oneshot_chans w r) = Waiting" and "accepts (outbox pview ctx w)"
  shows "\<exists>w1 w2 k. outcomes (sync_send T ctx data) w = [(w1, Blocked k)] \<and>
           notify_maps w1 m (request_id data) = Some (next_ref w) \<and>
           outcomes (await_reply T deadline r) w1 = [(w2, Done (Err Disconnected))]"
proof -
  have "notify_maps w m (request_id data) \<noteq> Some (next_ref w)" using assms(2,3) by simp
  from sync_send_accepted [OF assms(1) this assms(5)] assms(2-4)
  obtain w1 where w1: "outcomes (sync_send T ctx data) w =
        [(w1, Blocked (await_reply T (now w + secs 3) (next_ref w)))]"
      "notify_maps w1 = (notify_maps w)(m := (notify_maps w m)(request_id data \<mapsto> next_ref w))"
      "oview (oneshot_chans w1 r) = Sender_gone" by metis
  then show ?thesis using await_reply_ends(4) [OF w1(3)] by simp
qed

end

section \<open>A world to run on\<close>

text \<open>
  One connection with its context, whose channels are lists, and an empty map of waiters; the
  witnesses start from it.
\<close>

definition demo_ctx :: conn_context where
  "demo_ctx = \<lparr>connection_id = str_bytes ''10.0.0.1:4711'', handle = \<lparr>channel = 0, shutdown = 1\<rparr>, attrs = 2\<rparr>"

type_synonym list_world = "(packet mpsc_view, unit mpsc_view, packet oneshot_view) world"

definition demo_world :: list_world where
  "demo_world =
     \<lparr>now = 0,
      packet_chans = (\<lambda>_. mpsc_channel list_mpsc 256),
      signal_chans = (\<lambda>_. mpsc_channel list_mpsc 1),
      oneshot_chans = (\<lambda>_. oneshot_channel cell_oneshot),
      attr_maps = (\<lambda>_. [str_bytes ''SYNC_NOTIFY'' \<mapsto> Any_notify_map 3]),
      notify_maps = (\<lambda>_. Map.empty),
      next_ref = 4,
      online_state = Map.empty,
      online_contexts = Map.empty,
      request_counter = Map.empty,
      counter_locked = False,
      spawned = []\<rparr>"

definition demo_request :: packet where
  "demo_request = packet_new 7 Map.empty Logout"

lemma demo_registered [simp]: "registered demo_ctx 3 demo_world"
  by (simp add: registered_def demo_world_def)

lemma demo_accepts [simp]:
  "accepts (outbox id demo_ctx demo_world)" "accepts (close_requests id demo_ctx demo_world)"
  by (simp_all add: accepts_def outbox_def close_requests_def demo_world_def list_mpsc.channel [simplified])

lemma demo_world_select [simp]:
  "notify_maps demo_world m = Map.empty" "next_ref demo_world = 4" "now demo_world = 0"
  "packet_chans demo_world r = mpsc_channel list_mpsc 256" "signal_chans demo_world r = mpsc_channel list_mpsc 1"
  "attr_maps demo_world m = [str_bytes ''SYNC_NOTIFY'' \<mapsto> Any_notify_map 3]"
  "online_contexts demo_world = Map.empty" "online_state demo_world = Map.empty"
  "request_counter demo_world = Map.empty" "\<not> counter_locked demo_world" "spawned demo_world = []"
  by (simp_all add: demo_world_def)

lemma sync_send_unregistered:
  "attr_maps w (attrs ctx) (str_bytes ''SYNC_NOTIFY'') = None \<Longrightarrow>
   outcomes (sync_send T ctx data) w = outcomes (bind (ctx_close T ctx) (\<lambda>_. Return (Err Disconnected))) w"
  by (simp add: sync_send_def)

section \<open>Properties\<close>

text \<open>C16: a request is answered.  sync_send puts the packet behind those that wait to be written and waits.
  When a packet with the same request id comes in, the processor hands it to the waiter and not to the
  inner processor, whatever that is, the id is free again, and sync_send returns that packet.\<close>

theorem request_answered:
  assumes "tokio_runtime T pv sv ov" and "registered ctx m w"
    and "notify_maps w m (request_id data) \<noteq> Some (next_ref w)" and "accepts (outbox pv ctx w)"
    and "request_id resp = request_id data"
  shows "\<exists>w1 w2 w3 k. outcomes (sync_send T ctx data) w = [(w1, Blocked k)] \<and>
           queued (outbox pv ctx w1) = queued (outbox pv ctx w) @ [data] \<and>
           outcomes (sync_process T inner ctx resp) w1 = [(w2, Done ())] \<and>
           notify_maps w2 m (request_id data) = None \<and>
           outcomes k w2 = [(w3, Done (Ok resp))]"
  by (rule tokio_runtime.request_then_response [OF assms])

theorem request_answered_witness:
  "\<exists>w1 w2 w3 k. outcomes (sync_send list_tokio demo_ctx demo_request) demo_world = [(w1, Blocked k)] \<and>
     queued (outbox id demo_ctx w1) = queued (outbox id demo_ctx demo_world) @ [demo_request] \<and>
     outcomes (sync_process list_tokio \<lparr>connected = \<lambda>_. Panicked, process = \<lambda>_ _. Panicked, disconnected = \<lambda>_. Panicked\<rparr>
       demo_ctx demo_request) w1 = [(w2, Done ())] \<and>
     notify_maps w2 3 (request_id demo_request) = None \<and> outcomes k w2 = [(w3, Done (Ok demo_request))]"
  by (rule request_answered [OF list_runtime.tokio_runtime_axioms demo_registered]) simp_all

text \<open>C28: a request that is not answered ends with Timeout, after three seconds and not before.  Its entry
  stays in the map of waiters; when the response comes after all, it takes the entry away and is dropped: it
  does not reach the inner processor, and nothing is sent or spawned.\<close>

theorem request_times_out:
  assumes "tokio_runtime T pv sv ov" and "registered ctx m w"
    and "notify_maps w m (request_id data) \<noteq> Some (next_ref w)" and "accepts (outbox pv ctx w)"
    and "request_id late = request_id data"
  shows "\<exists>w1 w2 w3 k. outcomes (sync_send T ctx data) w = [(w1, Blocked k)] \<and>
           (\<forall>d. d < secs 3 \<longrightarrow> outcomes k (w1\<lparr>now := now w + d\<rparr>) = [(w1\<lparr>now := now w + d\<rparr>, Blocked k)]) \<and>
           outcomes k (w1\<lparr>now := now w + secs 3\<rparr>) = [(w2, Done (Err Timeout))] \<and>
           notify_maps w2 m (request_id data) = Some (next_ref w) \<and>
           outcomes (sync_process T inner ctx late) w2 = [(w3, Done ())] \<and>
           notify_maps w3 m (request_id data) = None \<and>
           packet_chans w3 = packet_chans w2 \<and> spawned w3 = spawned w2"
proof -
  note silence = tokio_runtime.request_then_silence [OF assms(1-4)]
  note dropped = tokio_runtime.late_response_dropped [OF assms(1), of ctx m _ late "next_ref w" inner]
  show ?thesis using silence dropped unfolding assms(5) by metis
qed

theorem request_times_out_witness:
  "\<exists>w1 w2 k. outcomes (sync_send list_tokio demo_ctx demo_request) demo_world = [(w1, Blocked k)] \<and>
     outcomes k (w1\<lparr>now := secs 3\<rparr>) = [(w2, Done (Err Timeout))] \<and>
     notify_maps w2 3 (request_id demo_request) = Some 4"
  using request_times_out [OF list_runtime.tokio_runtime_axioms demo_registered, of demo_request demo_request]
  by fastforce

text \<open>A request on a connection that is gone ends with Disconnected at once and leaves no waiter behind, and
  so does a request on a connection that has no map of waiters, which is also asked to close.\<close>

theorem request_refused:
  assumes "tokio_runtime T pv sv ov" and "notify_maps w m (request_id data) = None"
  shows "(registered ctx m w \<and> receiver_gone (outbox pv ctx w) \<longrightarrow>
            (\<exists>w1. outcomes (sync_send T ctx data) w = [(w1, Done (Err Disconnected))] \<and>
                  notify_maps w1 = notify_maps w \<and> packet_chans w1 = packet_chans w))
       \<and> (attr_maps w (attrs ctx) (str_bytes ''SYNC_NOTIFY'') = None \<and> accepts (close_requests sv ctx w) \<longrightarrow>
            (\<exists>w1. outcomes (sync_send T ctx data) w = [(w1, Done (Err Disconnected))] \<and>
                  queued (close_requests sv ctx w1) = queued (close_requests sv ctx w) @ [()] \<and>
                  packet_chans w1 = packet_chans w))"
proof (intro conjI impI)
  assume "registered ctx m w \<and> receiver_gone (outbox pv ctx w)"
  then show "\<exists>w1. outcomes (sync_send T ctx data) w = [(w1, Done (Err Disconnected))] \<and>
      notify_maps w1 = notify_maps w \<and> packet_chans w1 = packet_chans w"
    using tokio_runtime.sync_send_refused [OF assms(1) _ assms(2), of ctx] by metis
next
  assume a: "attr_maps w (attrs ctx) (str_bytes ''SYNC_NOTIFY'') = None \<and> accepts (close_requests sv ctx w)"
  then obtain q where q: "sv q = (close_requests sv ctx w)\<lparr>queued := queued (close_requests sv ctx w) @ [()]\<rparr>"
    "outcomes (ctx_close T ctx) w = [(w\<lparr>signal_chans := (signal_chans w)(shutdown (handle ctx) := q)\<rparr>, Done ())]"
    using tokio_runtime.outcomes_ctx_close [OF assms(1)] by metis
  then show "\<exists>w1. outcomes (sync_send T ctx data) w = [(w1, Done (Err Disconnected))] \<and>
      queued (close_requests sv ctx w1) = queued (close_requests sv ctx w) @ [()] \<and>
      packet_chans w1 = packet_chans w"
    using a sync_send_unregistered [of w ctx T data] by (simp add: outcomes_bind close_requests_def)
qed

theorem request_refused_witness:
  "\<exists>w1. outcomes (sync_send list_tokio demo_ctx demo_request) (demo_world\<lparr>attr_maps := \<lambda>_. Map.empty\<rparr>)
           = [(w1, Done (Err Disconnected))] \<and>
        queued (close_requests id demo_ctx w1) = [()]"
  using request_refused [OF list_runtime.tokio_runtime_axioms,
      of "demo_world\<lparr>attr_maps := \<lambda>_. Map.empty\<rparr>" 3 demo_request demo_ctx] demo_accepts(2)
  by (auto simp: close_requests_def list_mpsc.channel [simplified])

text \<open>Request ids that are used twice at a time.  The second request takes the place of the first in the
  map of waiters and drops its sender, so the first one ends with Disconnected although the connection
  is alive, whatever its deadline.\<close>

theorem request_id_reused:
  assumes "tokio_runtime T pv sv ov" and "registered ctx m w"
    and "notify_maps w m (request_id data) = Some r" and "r \<noteq> next_ref w"
    and "ov (oneshot_chans w r) = Waiting" and "accepts (outbox pv ctx w)"
  shows "\<exists>w1 w2 k. outcomes (sync_send T ctx data) w = [(w1, Blocked k)] \<and>
           notify_maps w1 m (request_id data) = Some (next_ref w) \<and>
           outcomes (await_reply T deadline r) w1 = [(w2, Done (Err Disconnected))]"
  by (rule tokio_runtime.request_displaced [OF assms])

theorem request_id_reused_witness:
  "let w = demo_world\<lparr>notify_maps := (\<lambda>_. [7 \<mapsto> 0])\<rparr> in
   \<exists>w1 w2 k. outcomes (sync_send list_tokio demo_ctx demo_request) w = [(w1, Blocked k)] \<and>
     notify_maps w1 3 7 = Some 4 \<and>
     outcomes (await_reply list_tokio (secs 3) 0) w1 = [(w2, Done (Err Disconnected))]"
  using request_id_reused [OF list_runtime.tokio_runtime_axioms, of demo_ctx 3
      "demo_world\<lparr>notify_maps := (\<lambda>_. [7 \<mapsto> 0])\<rparr>" demo_request 0 "secs 3"] demo_accepts(1) demo_registered
  by (simp add: Let_def registered_def outbox_def demo_request_def demo_world_def cell_oneshot_def)

end
