(* ===== verification/Heart_Beat.thy ===== *)
theory Heart_Beat
  imports Context
begin

text \<open>
  The heart beat, \<open>connect/src/extract/heart_beat.rs\<close>: the reactor, a task that looks at the time
  of the last read once per interval and stops when nothing was read for more than three
  intervals, and \<open>HeartBeatProcessor\<close>, which starts the reactor, records every read and answers
  pings.
\<close>

definition must_be_logout :: nat where
  "must_be_logout = secs (3600 * 24)"

section \<open>The reactor\<close>

definition heartbeat_new ::
  "('q, 'u, 'o) tokio \<Rightarrow> nat \<Rightarrow> conn_context \<Rightarrow> ('q, 'u, 'o, heartbeat \<times> nat) task" where
  "heartbeat_new T i ctx =
     bind (new_signal_chan T 1) (\<lambda>r. Return (\<lparr>interval = i, hb_ctx = ctx, hb_shutdown = r\<rparr>, r))"

definition last_read :: "heartbeat \<Rightarrow> ('q, 'u, 'o, nat) task" where
  "last_read hb =
     bind (ctx_attr downcast_instant (hb_ctx hb) (str_bytes ''LAST_READ'')) (\<lambda>r.
     case r of
       None \<Rightarrow> Return must_be_logout
     | Some t \<Rightarrow> gets (\<lambda>w. now w - t))"

definition next_tick :: "nat \<Rightarrow> nat \<Rightarrow> nat" where
  "next_tick i elapsed = (if i > elapsed then i - elapsed else i)"

text \<open>
  One turn of the loop of \<open>run\<close>; the result says whether the loop goes on.  Of the two futures of
  the \<open>select!\<close>, the timer is ready from its deadline on and \<open>recv\<close> when it has a value or no
  sender; when both are ready, either branch may be taken.
\<close>

definition heartbeat_run :: "('q, 'u, 'o) tokio \<Rightarrow> heartbeat \<Rightarrow> ('q, 'u, 'o, bool) task" where
  "heartbeat_run T hb =
     bind (last_read hb) (\<lambda>elapsed.
     if elapsed > interval hb * 3 then Return False
     else
       bind (gets now) (\<lambda>start. await (\<lambda>w.
         (if start + next_tick (interval hb) elapsed \<le> now w then [(w, True)] else []) @
         (case mpsc_recv (signals T) (signal_chans w (hb_shutdown hb)) of
            None \<Rightarrow> []
          | Some (_, q) \<Rightarrow> [(w\<lparr>signal_chans := (signal_chans w)(hb_shutdown hb := q)\<rparr>, False)]))))"

section \<open>\<open>HeartBeatProcessor\<close>\<close>

definition kick_read :: "conn_context \<Rightarrow> ('q, 'u, 'o, unit) task" where
  "kick_read ctx =
     bind (gets now) (\<lambda>t.
     bind (ctx_put_attr ctx (str_bytes ''LAST_READ'') (Any_instant t)) (\<lambda>_. Return ()))"

definition hb_connected ::
  "('q, 'u, 'o) tokio \<Rightarrow> nat \<Rightarrow> ('q, 'u, 'o) handler \<Rightarrow> conn_context \<Rightarrow> ('q, 'u, 'o, unit) task" where
  "hb_connected T i inner ctx =
     bind (heartbeat_new T i ctx) (\<lambda>(reactor, shut).
     bind (ctx_put_attr ctx (str_bytes ''HEART_BEAT_REACTOR_SHUTDOWN'') (Any_shutdown shut)) (\<lambda>_.
     bind (kick_read ctx) (\<lambda>_.
     bind (spawn (Heartbeat_job reactor)) (\<lambda>_.
     connected inner ctx))))"

definition hb_process ::
  "('q, 'u, 'o) tokio \<Rightarrow> ('q, 'u, 'o) handler \<Rightarrow> conn_context \<Rightarrow> packet \<Rightarrow> ('q, 'u, 'o, unit) task" where
  "hb_process T inner ctx p =
     bind (kick_read ctx) (\<lambda>_.
     bind (if ping p then
             (case gen_pong p of
                Ok resp \<Rightarrow> bind (ctx_send T ctx resp) (\<lambda>_. Return ())
              | _ \<Rightarrow> Panicked)
           else Return ()) (\<lambda>_.
     process inner ctx p))"

definition hb_disconnected ::
  "('q, 'u, 'o) tokio \<Rightarrow> conn_context \<Rightarrow> ('q, 'u, 'o, unit) task" where
  "hb_disconnected T ctx =
     bind (ctx_attr downcast_shutdown ctx (str_bytes ''HEART_BEAT_REACTOR_SHUTDOWN'')) (\<lambda>sender.
     case sender of
       Some r \<Rightarrow> bind (send_signal T r) (\<lambda>_. Return ())
     | None \<Rightarrow> Return ())"

definition heart_beat_processor ::
  "('q, 'u, 'o) tokio \<Rightarrow> nat \<Rightarrow> ('q, 'u, 'o) handler \<Rightarrow> ('q, 'u, 'o) handler" where
  "heart_beat_processor T i inner =
     \<lparr>connected = hb_connected T i inner, process = hb_process T inner,
      disconnected = hb_disconnected T\<rparr>"

end
