(* ===== verification/Heart_Beat_Properties.thy ===== *)
theory Heart_Beat_Properties
  imports Heart_Beat Sync_Properties
begin

text \<open>
  The properties of the heart beat: pings are answered, every packet counts as a read, a
  connection on which nothing is read is noticed between three and four intervals after the last
  read, and the reactor stops when the connection ends.
\<close>

section \<open>One turn of the reactor\<close>

definition last_read_at :: "conn_context \<Rightarrow> nat \<Rightarrow> ('q, 'u, 'o) world \<Rightarrow> bool" where
  "last_read_at ctx t w \<longleftrightarrow> attr_maps w (attrs ctx) (str_bytes ''LAST_READ'') = Some (Any_instant t)"

definition no_signal :: "('u \<Rightarrow> unit mpsc_view) \<Rightarrow> nat \<Rightarrow> ('q, 'u, 'o) world \<Rightarrow> bool" where
  "no_signal sview r w \<longleftrightarrow>
     queued (sview (signal_chans w r)) = [] \<and> \<not> senders_gone (sview (signal_chans w r))"

lemma last_read_at_now [simp]: "last_read_at ctx t (w\<lparr>now := n\<rparr>) = last_read_at ctx t w"
  by (simp add: last_read_at_def)

lemma no_signal_now [simp]: "no_signal sv r (w\<lparr>now := n\<rparr>) = no_signal sv r w"
  by (simp add: no_signal_def)

lemma outcomes_last_read:
  "last_read_at (hb_ctx hb) t w \<Longrightarrow> outcomes (bind (last_read hb) f) w = outcomes (f (now w - t)) w"
  by (simp add: last_read_def last_read_at_def bind_assoc)

text \<open>The wait of one turn: for the timer that was set at \<open>start\<close> or for the signal.\<close>

definition tick_or_signal ::
  "('q, 'u, 'o) tokio \<Rightarrow> heartbeat \<Rightarrow> nat \<Rightarrow> ('q, 'u, 'o, bool) task" where
  "tick_or_signal T hb deadline = await (\<lambda>w.
     (if deadline \<le> now w then [(w, True)] else []) @
     (case mpsc_recv (signals T) (signal_chans w (hb_shutdown hb)) of
        None \<Rightarrow> []
      | Some (_, q) \<Rightarrow> [(w\<lparr>signal_chans := (signal_chans w)(hb_shutdown hb := q)\<rparr>, False)]))"

lemma outcomes_heartbeat_run:
  assumes "last_read_at (hb_ctx hb) t w"
  shows "outcomes (heartbeat_run T hb) w =
    (if now w - t > interval hb * 3 then [(w, Done False)]
     else outcomes (tick_or_signal T hb (now w + next_tick (interval hb) (now w - t))) w)"
  by (simp add: heartbeat_run_def tick_or_signal_def outcomes_last_read [OF assms])

context tokio_runtime
begin

lemma tick_or_signal_idle:
  assumes "no_signal sview (hb_shutdown hb) w"
  shows "outcomes (tick_or_signal T hb deadline) w =
    (if deadline \<le> now w then [(w, Done True)] else [(w, Blocked (tick_or_signal T hb deadline))])"
  using assms sg.recv_empty [of "signal_chans w (hb_shutdown hb)"]
  by (simp add: tick_or_signal_def outcomes_await no_signal_def)

lemma tick_or_signal_signalled:
  assumes "queued (sview (signal_chans w (hb_shutdown hb))) = s # rest" and "now w < deadline"
  shows "\<exists>w'. outcomes (tick_or_signal T hb deadline) w = [(w', Done False)]"
  using assms sg.recv [of "signal_chans w (hb_shutdown hb)" s rest]
  by (auto simp: tick_or_signal_def outcomes_await)

end

section \<open>A reactor on an idle connection\<close>

text \<open>
  \<open>idle_reactor T hb w w'\<close>: started in \<open>w\<close>, the reactor stops in \<open>w'\<close> when nothing happens but
  that time passes, and every wait ends at the first moment at which it can.
\<close>

inductive idle_reactor ::
  "('q, 'u, 'o) tokio \<Rightarrow> heartbeat \<Rightarrow> ('q, 'u, 'o) world \<Rightarrow> ('q, 'u, 'o) world \<Rightarrow> bool"
  for T :: "('q, 'u, 'o) tokio" and hb :: heartbeat where
  reactor_stops: "outcomes (heartbeat_run T hb) w = [(w', Done False)] \<Longrightarrow> idle_reactor T hb w w'"
| reactor_turns:
    "outcomes (heartbeat_run T hb) w = [(w, Blocked k)] \<Longrightarrow>
     (\<forall>d'<d. outcomes k (w\<lparr>now := now w + d'\<rparr>) = [(w\<lparr>now := now w + d'\<rparr>, Blocked k)]) \<Longrightarrow>
     outcomes k (w\<lparr>now := now w + d\<rparr>) = [(w1, Done True)] \<Longrightarrow>
     idle_reactor T hb w1 w' \<Longrightarrow> idle_reactor T hb w w'"

lemma next_tick_bounds:
  "0 < i \<Longrightarrow> e \<le> 3 * i \<Longrightarrow> 0 < next_tick i e \<and> e + next_tick i e \<le> 4 * i"
  by (auto simp: next_tick_def)

context tokio_runtime
begin

lemma idle_turn:
  assumes "last_read_at (hb_ctx hb) t w" and "no_signal sview (hb_shutdown hb) w"
    and "0 < interval hb" and "now w - t \<le> 3 * interval hb"
  shows "outcomes (heartbeat_run T hb) w =
           [(w, Blocked (tick_or_signal T hb (now w + next_tick (interval hb) (now w - t))))]"
  using assms next_tick_bounds [OF assms(3,4)]
  by (simp add: outcomes_heartbeat_run tick_or_signal_idle mult.commute)

lemma reactor_notices:
  assumes "last_read_at (hb_ctx hb) t w" and "no_signal sview (hb_shutdown hb) w"
    and "0 < interval hb" and "t \<le> now w" and "now w \<le> t + 3 * interval hb"
  shows "\<exists>n. idle_reactor T hb w (w\<lparr>now := n\<rparr>) \<and> t + 3 * interval hb < n \<and> n \<le> t + 4 * interval hb"
  using assms
proof (induction "t + 4 * interval hb - now w" arbitrary: w rule: less_induct)
  case less
  let ?i = "interval hb" and ?e = "now w - t"
  let ?d = "next_tick ?i ?e"
  let ?k = "tick_or_signal T hb (now w + ?d)"
  let ?w = "w\<lparr>now := now w + ?d\<rparr>"
  have e: "?e \<le> 3 * ?i" using less.prems by simp
  note d = next_tick_bounds [OF less.prems(3) e]
  have "now ?w = t + (?e + ?d)" using less.prems(4) by simp
  have run: "outcomes (heartbeat_run T hb) w = [(w, Blocked ?k)]"
    by (rule idle_turn [OF less.prems(1-3) e])
  have wait: "\<forall>d'<?d. outcomes ?k (w\<lparr>now := now w + d'\<rparr>) = [(w\<lparr>now := now w + d'\<rparr>, Blocked ?k)]"
    using less.prems(2) by (simp add: tick_or_signal_idle)
  have tick: "outcomes ?k ?w = [(?w, Done True)]"
    using less.prems(2) by (simp add: tick_or_signal_idle)
  have "\<exists>n. idle_reactor T hb ?w (?w\<lparr>now := n\<rparr>) \<and> t + 3 * ?i < n \<and> n \<le> t + 4 * ?i"
  proof (cases "now ?w \<le> t + 3 * ?i")
    case True
    then show ?thesis using less.prems d by (intro less.hyps) auto
  next
    case False
    then have late: "now ?w - t > ?i * 3" by linarith
    have "last_read_at (hb_ctx hb) t ?w" using less.prems(1) by simp
    from outcomes_heartbeat_run [OF this, of T] late
    have "outcomes (heartbeat_run T hb) ?w = [(?w\<lparr>now := now ?w\<rparr>, Done False)]" by simp
    then have "idle_reactor T hb ?w (?w\<lparr>now := now ?w\<rparr>)" by (rule reactor_stops)
    moreover have "t + 3 * ?i < now ?w \<and> now ?w \<le> t + 4 * ?i" using False d \<open>now ?w = t + (?e + ?d)\<close> by linarith
    ultimately show ?thesis by blast
  qed
  then obtain n where "idle_reactor T hb ?w (w\<lparr>now := n\<rparr>)" "t + 3 * ?i < n" "n \<le> t + 4 * ?i" by auto
  then show ?case using reactor_turns [OF run wait tick] by blast
qed

end

section \<open>Properties\<close>

text \<open>C31: an idle connection is noticed.  The reactor looks at the time of the last read once per interval and
  stops after more than three and at most four intervals without a read, however far in the first three
  intervals it is when it looks first; when it stops, nothing but the clock has changed: the connection has
  not been asked to close.\<close>

theorem idle_connection_noticed:
  assumes "tokio_runtime T pv sv ov" and "last_read_at (hb_ctx hb) t w" and "no_signal sv (hb_shutdown hb) w"
    and "0 < interval hb" and "t \<le> now w" and "now w \<le> t + 3 * interval hb"
  shows "\<exists>n. idle_reactor T hb w (w\<lparr>now := n\<rparr>) \<and> t + 3 * interval hb < n \<and> n \<le> t + 4 * interval hb"
  by (rule tokio_runtime.reactor_notices [OF assms])

definition demo_heartbeat :: heartbeat where
  "demo_heartbeat = \<lparr>interval = secs 10, hb_ctx = demo_ctx, hb_shutdown = 5\<rparr>"

definition beating_world :: list_world where
  "beating_world = demo_world\<lparr>attr_maps := (\<lambda>_.
     [str_bytes ''LAST_READ'' \<mapsto> Any_instant 0, str_bytes ''HEART_BEAT_REACTOR_SHUTDOWN'' \<mapsto> Any_shutdown 5])\<rparr>"

lemma beating_world_facts [simp]:
  "last_read_at demo_ctx 0 beating_world" "no_signal id 5 beating_world" "now beating_world = 0"
  "signal_chans beating_world r = mpsc_channel list_mpsc 1"
  "packet_chans beating_world r = mpsc_channel list_mpsc 256"
  "attr_maps beating_world m (str_bytes ''HEART_BEAT_REACTOR_SHUTDOWN'') = Some (Any_shutdown 5)"
  by (simp_all add: beating_world_def last_read_at_def no_signal_def list_mpsc.channel [simplified] str_bytes_def)

theorem idle_connection_noticed_witness:
  "\<exists>n. idle_reactor list_tokio demo_heartbeat beating_world (beating_world\<lparr>now := n\<rparr>) \<and>
       30000000000 < n \<and> n \<le> 40000000000"
  using idle_connection_noticed [OF list_runtime.tokio_runtime_axioms, of demo_heartbeat 0 beating_world]
  by (simp add: demo_heartbeat_def secs_def)

text \<open>A ping is answered with a pong of the same nonce and the same request id, once, and the packet still goes
  to the inner processor; any other packet goes to the inner processor with nothing sent; every packet is
  recorded as a read at the present time.  When the connection is gone, the pong is given up and the inner
  processor still gets the packet.\<close>

theorem ping_answered:
  assumes "tokio_runtime T pv sv ov" and "w' = put_attr ctx (str_bytes ''LAST_READ'') (Any_instant (now w)) w"
  shows "(payload p = Ping nonce \<and> accepts (outbox pv ctx w) \<longrightarrow>
            (\<exists>w1. outcomes (hb_process T inner ctx p) w = outcomes (process inner ctx p) w1 \<and>
                  queued (outbox pv ctx w1) =
                    queued (outbox pv ctx w) @ [packet_new (request_id p) Map.empty (Pong nonce)] \<and>
                  attr_maps w1 = attr_maps w'))
       \<and> (payload p = Ping nonce \<and> receiver_gone (outbox pv ctx w) \<longrightarrow>
            outcomes (hb_process T inner ctx p) w = outcomes (process inner ctx p) w')
       \<and> (\<not> ping p \<longrightarrow> outcomes (hb_process T inner ctx p) w = outcomes (process inner ctx p) w')
       \<and> last_read_at ctx (now w) w'"
proof -
  have start: "outcomes (hb_process T inner ctx p) w =
      outcomes (bind (if ping p then
             (case gen_pong p of
                Ok resp \<Rightarrow> bind (ctx_send T ctx resp) (\<lambda>_. Return ())
              | _ \<Rightarrow> Panicked)
           else Return ()) (\<lambda>_. process inner ctx p)) w'"
    by (simp add: hb_process_def kick_read_def bind_assoc assms(2))
  have box: "outbox pv ctx w' = outbox pv ctx w" by (simp add: outbox_def assms(2))
  let ?pong = "packet_new (request_id p) Map.empty (Pong nonce)"
  have pong: "ping p" "gen_pong p = Ok ?pong" if "payload p = Ping nonce"
    using that by (simp_all add: ping_def gen_pong_def)
  have "\<exists>w1. outcomes (hb_process T inner ctx p) w = outcomes (process inner ctx p) w1 \<and>
      queued (outbox pv ctx w1) = queued (outbox pv ctx w) @ [?pong] \<and> attr_maps w1 = attr_maps w'"
    if ac: "payload p = Ping nonce" "accepts (outbox pv ctx w)"
  proof -
    obtain q where q: "mpsc_send (packets T) ?pong (packet_chans w' (channel (handle ctx))) = Some (True, q)"
      "pv q = (outbox pv ctx w')\<lparr>queued := queued (outbox pv ctx w') @ [?pong]\<rparr>"
      using tokio_runtime.sendable [OF assms(1), of ctx w' ?pong] ac(2) box by metis
    show ?thesis
      using pong [OF ac(1)] q box start
      by (intro exI [of _ "w'\<lparr>packet_chans := (packet_chans w')(channel (handle ctx) := q)\<rparr>"])
        (simp add: bind_assoc tokio_runtime.outcomes_ctx_send [OF assms(1) q(1)] outbox_def)
  qed
  moreover have "outcomes (hb_process T inner ctx p) w = outcomes (process inner ctx p) w'"
    if gone: "payload p = Ping nonce" "receiver_gone (outbox pv ctx w)"
    using pong [OF gone(1)] gone(2) box start
    by (simp add: bind_assoc tokio_runtime.outcomes_ctx_send_refused [OF assms(1)])
  moreover have "outcomes (hb_process T inner ctx p) w = outcomes (process inner ctx p) w'" if "\<not> ping p"
    using that start by simp
  moreover have "last_read_at ctx (now w) w'" by (simp add: last_read_at_def assms(2))
  ultimately show ?thesis by blast
qed

theorem ping_answered_witness:
  "\<exists>w1. outcomes (hb_process list_tokio \<lparr>connected = \<lambda>_. Return (), process = \<lambda>_ _. Return (), disconnected = \<lambda>_. Return ()\<rparr>
          demo_ctx (packet_new 3 Map.empty (Ping 99))) demo_world = [(w1, Done ())] \<and>
        queued (outbox id demo_ctx w1) = [packet_new 3 Map.empty (Pong 99)]"
  using ping_answered [OF list_runtime.tokio_runtime_axioms refl, of "packet_new 3 Map.empty (Ping 99)" 99 demo_ctx demo_world
      "\<lparr>connected = \<lambda>_. Return (), process = \<lambda>_ _. Return (), disconnected = \<lambda>_. Return ()\<rparr>"]
  by (auto simp: outbox_def accepts_def list_mpsc.channel [simplified])

text \<open>A reactor that has been signalled stops in its next turn.\<close>

lemma signalled_reactor_stops:
  assumes "tokio_runtime T pv sv ov" and "queued (sv (signal_chans w (hb_shutdown hb))) \<noteq> []"
    and "last_read_at (hb_ctx hb) t w" and "0 < interval hb"
  shows "\<exists>v. outcomes (heartbeat_run T hb) w = [(v, Done False)]"
proof (cases "now w - t > interval hb * 3")
  case True
  then show ?thesis using assms(3) by (simp add: outcomes_heartbeat_run [of _ t])
next
  case False
  obtain s rest where "queued (sv (signal_chans w (hb_shutdown hb))) = s # rest"
    using assms(2) by (cases "queued (sv (signal_chans w (hb_shutdown hb)))") auto
  moreover have "now w < now w + next_tick (interval hb) (now w - t)"
    using next_tick_bounds [OF assms(4), of "now w - t"] False by simp
  ultimately have "\<exists>v. outcomes (tick_or_signal T hb (now w + next_tick (interval hb) (now w - t))) w = [(v, Done False)]"
    by (rule tokio_runtime.tick_or_signal_signalled [OF assms(1)])
  then show ?thesis using False assms(3) by (simp add: outcomes_heartbeat_run [of _ t])
qed

text \<open>C32: the end of a connection stops its reactor: disconnected puts the signal into the channel that connected
  left in the context, and the reactor, at its next wait, takes the signal and stops.\<close>

theorem reactor_shut_down:
  assumes "tokio_runtime T pv sv ov"
    and "attr_maps w (attrs ctx) (str_bytes ''HEART_BEAT_REACTOR_SHUTDOWN'') = Some (Any_shutdown (hb_shutdown hb))"
    and "hb_ctx hb = ctx" and "last_read_at ctx t w" and "0 < interval hb"
    and "accepts (sv (signal_chans w (hb_shutdown hb)))"
  shows "\<exists>w1 w2. outcomes (hb_disconnected T ctx) w = [(w1, Done ())] \<and>
           outcomes (heartbeat_run T hb) w1 = [(w2, Done False)]"
proof -
  let ?r = "hb_shutdown hb"
  obtain q where q: "mpsc_send (signals T) () (signal_chans w ?r) = Some (True, q)"
    "sv q = (sv (signal_chans w ?r))\<lparr>queued := queued (sv (signal_chans w ?r)) @ [()]\<rparr>"
    using mpsc.send [of "signals T" sv "signal_chans w ?r" "()"] assms(1,6)
    unfolding tokio_runtime_def accepts_def by blast
  let ?w = "w\<lparr>signal_chans := (signal_chans w)(?r := q)\<rparr>"
  have "outcomes (hb_disconnected T ctx) w = [(?w, Done ())]"
    using assms(2) q(1) by (simp add: hb_disconnected_def send_signal_def outcomes_await_bind)
  moreover have "\<exists>w2. outcomes (heartbeat_run T hb) ?w = [(w2, Done False)]"
    by (rule signalled_reactor_stops [OF assms(1)]) (use q(2) assms(3-5) in \<open>simp_all add: last_read_at_def\<close>)
  ultimately show ?thesis by blast
qed

theorem reactor_shut_down_witness:
  "\<exists>w1 w2. outcomes (hb_disconnected list_tokio demo_ctx) beating_world = [(w1, Done ())] \<and>
     outcomes (heartbeat_run list_tokio demo_heartbeat) w1 = [(w2, Done False)]"
  by (rule reactor_shut_down [OF list_runtime.tokio_runtime_axioms, where t = 0])
    (simp_all add: demo_heartbeat_def secs_def accepts_def list_mpsc.channel [simplified])

end
