(* ===== verification/State_Support.thy ===== *)
theory State_Support
  imports Context
begin

text \<open>
  Login and the state of who is online, \<open>connect/src/extract/online_state.rs\<close>: the traits
  \<open>AuthServer\<close> and \<open>StateServer\<close>, which are records of programs, and \<open>StateSupportProcessor\<close>,
  which authenticates a login, closes the connection on a logout or on a packet of a user who is
  not logged in, and tells the state server where the user is.
\<close>

section \<open>The traits\<close>

record ('w, 'e) auth_server =
  auth :: "packet \<Rightarrow> ('w, (u64, 'e) outcome) prog"
  into_packet :: "'e \<Rightarrow> packet"

record 'w state_server =
  put :: "u64 \<Rightarrow> rstring \<Rightarrow> ('w, unit) prog"
  put_local :: "u64 \<Rightarrow> conn_context \<Rightarrow> ('w, unit) prog"
  remove :: "u64 \<Rightarrow> ('w, rstring option) prog"
  remove_local :: "u64 \<Rightarrow> ('w, unit) prog"

definition current_user :: "conn_context \<Rightarrow> ('q, 'u, 'o, u64 option) task" where
  "current_user ctx = ctx_attr downcast_user_id ctx (str_bytes ''USER_ID'')"

section \<open>\<open>StateSupportProcessor\<close>\<close>

text \<open>The body of the task that \<open>update_state\<close> spawns, and the spawning.\<close>

definition update_state_task ::
  "('q, 'u, 'o) world state_server \<Rightarrow> u64 \<Rightarrow> conn_context \<Rightarrow> ('q, 'u, 'o, unit) task" where
  "update_state_task server key ctx =
     bind (put_local server key ctx) (\<lambda>_.
     bind (put server key (ctx_id ctx)) (\<lambda>_.
     bind (gets now) (\<lambda>t.
     bind (ctx_put_attr ctx (str_bytes ''STATE_LAST_SYNC'') (Any_instant t)) (\<lambda>_. Return ()))))"

definition update_state :: "u64 \<Rightarrow> conn_context \<Rightarrow> ('q, 'u, 'o, unit) task" where
  "update_state key ctx = spawn (Update_state_job key ctx)"

definition state_last_update :: "conn_context \<Rightarrow> ('q, 'u, 'o, nat option) task" where
  "state_last_update ctx = ctx_attr downcast_instant ctx (str_bytes ''STATE_LAST_SYNC'')"

definition ss_connected ::
  "('q, 'u, 'o) handler \<Rightarrow> conn_context \<Rightarrow> ('q, 'u, 'o, unit) task" where
  "ss_connected inner ctx = connected inner ctx"

definition ss_process ::
  "('q, 'u, 'o) tokio \<Rightarrow> (('q, 'u, 'o) world, 'e) auth_server \<Rightarrow> nat \<Rightarrow> ('q, 'u, 'o) handler \<Rightarrow>
   conn_context \<Rightarrow> packet \<Rightarrow> ('q, 'u, 'o, unit) task" where
  "ss_process T A update_interval inner ctx p =
     (if login_packet p then
        bind (auth A p) (\<lambda>r.
        case r of
          Ok user_id \<Rightarrow>
            bind (ctx_put_attr ctx (str_bytes ''USER_ID'') (Any_user_id user_id)) (\<lambda>_.
            bind (update_state user_id ctx) (\<lambda>_.
            process inner ctx p))
        | Err e \<Rightarrow> bind (ctx_send T ctx (into_packet A e)) (\<lambda>_. Return ())
        | Panic \<Rightarrow> Panicked)
      else if logout_packet p then ctx_close T ctx
      else
        bind (current_user ctx) (\<lambda>user.
        case user of
          None \<Rightarrow> ctx_close T ctx
        | Some user_id \<Rightarrow>
            bind (state_last_update ctx) (\<lambda>last.
            bind (case last of
                    Some last_time \<Rightarrow>
                      bind (gets (\<lambda>w. now w - last_time)) (\<lambda>elapsed.
                      if elapsed > update_interval then update_state user_id ctx else Return ())
                  | None \<Rightarrow> update_state user_id ctx) (\<lambda>_.
            process inner ctx p))))"

definition ss_disconnected ::
  "('q, 'u, 'o) world state_server \<Rightarrow> ('q, 'u, 'o) handler \<Rightarrow> conn_context \<Rightarrow> ('q, 'u, 'o, unit) task" where
  "ss_disconnected server inner ctx =
     bind (current_user ctx) (\<lambda>user.
     bind (case user of
             Some user_id \<Rightarrow>
               bind (remove server user_id) (\<lambda>_.
               bind (remove_local server user_id) (\<lambda>_. Return ()))
           | None \<Rightarrow> Return ()) (\<lambda>_.
     disconnected inner ctx))"

definition state_support_processor ::
  "('q, 'u, 'o) tokio \<Rightarrow> ('q, 'u, 'o) world state_server \<Rightarrow> (('q, 'u, 'o) world, 'e) auth_server \<Rightarrow>
   nat \<Rightarrow> ('q, 'u, 'o) handler \<Rightarrow> ('q, 'u, 'o) handler" where
  "state_support_processor T server A update_interval inner =
     \<lparr>connected = ss_connected inner, process = ss_process T A update_interval inner,
      disconnected = ss_disconnected server inner\<rparr>"

end
