(* ===== verification/Online_State_Server.thy ===== *)
theory Online_State_Server
  imports State_Support
begin

text \<open>
  The state server in memory, \<open>im/src/online_state.rs\<close>: which connection a user is on, and the
  context of that connection, each in a locked map.
\<close>

definition oss_put :: "u64 \<Rightarrow> rstring \<Rightarrow> ('q, 'u, 'o, unit) task" where
  "oss_put key st = modify (\<lambda>w. w\<lparr>online_state := (online_state w)(key \<mapsto> st)\<rparr>)"

definition oss_remove :: "u64 \<Rightarrow> ('q, 'u, 'o, rstring option) task" where
  "oss_remove key = atomic (\<lambda>w.
     (w\<lparr>online_state := (online_state w)(key := None)\<rparr>, online_state w key))"

definition oss_put_local :: "u64 \<Rightarrow> conn_context \<Rightarrow> ('q, 'u, 'o, unit) task" where
  "oss_put_local key ctx = modify (\<lambda>w. w\<lparr>online_contexts := (online_contexts w)(key \<mapsto> ctx)\<rparr>)"

definition oss_remove_local :: "u64 \<Rightarrow> ('q, 'u, 'o, unit) task" where
  "oss_remove_local key = modify (\<lambda>w. w\<lparr>online_contexts := (online_contexts w)(key := None)\<rparr>)"

definition oss_get_context :: "u64 \<Rightarrow> ('q, 'u, 'o, conn_context option) task" where
  "oss_get_context key = gets (\<lambda>w. online_contexts w key)"

definition online_state_server :: "('q, 'u, 'o) world state_server" where
  "online_state_server =
     \<lparr>put = oss_put, put_local = oss_put_local, remove = oss_remove, remove_local = oss_remove_local\<rparr>"

definition online_state_server_new :: "('q, 'u, 'o) world \<Rightarrow> ('q, 'u, 'o) world" where
  "online_state_server_new w = w\<lparr>online_state := Map.empty, online_contexts := Map.empty\<rparr>"

end
