(* ===== verification/Auth.thy ===== *)
theory Auth
  imports State_Support
begin

text \<open>
  Authentication by a token, \<open>im/src/auth.rs\<close>.  The token is the base64 text of an encrypted
  record that begins with the user's id in eight bytes, big-endian.  The base64 decoder and the
  block cipher are other crates': functions that the definitions take as arguments.
\<close>

definition KEY :: bytes where
  "KEY = [0x0, 0x1, 0x2, 0x3, 0x4, 0x5, 0xC, 0x7, 0xB, 0x9, 0x10, 0x11, 0x12, 0x13, 0x14, 0x15]"

definition IV :: bytes where
  "IV = [0x0, 0x1, 0x2, 0x3, 0x4, 0x5, 0xC, 0x7, 0xB, 0x9, 0x10, 0x11, 0x12, 0x13, 0x14, 0x15]"

text \<open>
  The decryptor (AES in CBC mode with a 128-bit key and PKCS padding) takes key, initial vector,
  the encrypted data and the output buffer, and yields the buffer with the plain text written at
  its front.  \<open>decrypt\<close> returns the whole buffer, which is as long as the encrypted data.
\<close>

record crypto_ops =
  base64_decode :: "rstring \<Rightarrow> bytes option"
  cbc_decrypt :: "bytes \<Rightarrow> bytes \<Rightarrow> bytes \<Rightarrow> bytes \<Rightarrow> bytes option"

datatype auth_error = InvalidToken u64

definition decrypt :: "crypto_ops \<Rightarrow> bytes \<Rightarrow> bytes option" where
  "decrypt X encrypted_data =
     (let buf = replicate (length encrypted_data) 0 in
      cbc_decrypt X KEY IV encrypted_data buf)"

text \<open>\<open>get_u64\<close> panics when fewer than eight bytes are left.\<close>

definition parse_token :: "buf_ops \<Rightarrow> crypto_ops \<Rightarrow> u64 \<Rightarrow> rstring \<Rightarrow> (u64, auth_error) outcome" where
  "parse_token B X req token =
     (case base64_decode X token of
        None \<Rightarrow> Err (InvalidToken req)
      | Some bs \<Rightarrow>
         (case decrypt X bs of
            None \<Rightarrow> Err (InvalidToken req)
          | Some decrypt_data \<Rightarrow>
             (if length decrypt_data < 8 then Panic else Ok (get_u64 B decrypt_data))))"

definition token_auth :: "buf_ops \<Rightarrow> crypto_ops \<Rightarrow> packet \<Rightarrow> (u64, auth_error) outcome" where
  "token_auth B X p =
     (let req = packet_request_id p in
      case payload p of Login token _ _ _ \<Rightarrow> parse_token B X req token | _ \<Rightarrow> Panic)"

definition auth_error_into_packet :: "auth_error \<Rightarrow> packet" where
  "auth_error_into_packet e =
     (case e of InvalidToken req \<Rightarrow> packet_new req Map.empty (Error 32 (str_bytes ''invalid token'')))"

lemma rejection_packet:
  "token_auth B X p = Err e \<Longrightarrow>
   auth_error_into_packet e = packet_new (request_id p) Map.empty (Error 32 (str_bytes ''invalid token''))"
  by (auto simp: token_auth_def parse_token_def packet_request_id_def auth_error_into_packet_def Let_def
      split: payload.splits option.splits if_splits)

definition token_auth_server ::
  "buf_ops \<Rightarrow> crypto_ops \<Rightarrow> (('q, 'u, 'o) world, auth_error) auth_server" where
  "token_auth_server B X =
     \<lparr>auth = (\<lambda>p. Return (token_auth B X p)), into_packet = auth_error_into_packet\<rparr>"

end
