(* ===== verification/State_Properties.thy ===== *)
theory State_Properties
  imports Online_State_Server Auth Sync_Properties
begin

text \<open>
  The properties of login and of the state of who is online: what a token must be to log a user
  in, that nothing but a login reaches the application before the user is known, when the state
  server is told where the user is, and what it knows then and after the end of the connection.
\<close>

section \<open>The contract of a state server\<close>

text \<open>
  What the middleware needs of a state server: each operation ends, has its effect on the entry of
  its key and on no other, and touches nothing else of the world.
\<close>

definition only_directory_changed :: "('q, 'u, 'o) world \<Rightarrow> ('q, 'u, 'o) world \<Rightarrow> bool" where
  "only_directory_changed w w' \<longleftrightarrow>
     w' = w\<lparr>online_state := online_state w', online_contexts := online_contexts w'\<rparr>"

lemma only_directory_changed_select:
  assumes "only_directory_changed w w'"
  shows "now w' = now w" "packet_chans w' = packet_chans w" "signal_chans w' = signal_chans w"
    "attr_maps w' = attr_maps w" "spawned w' = spawned w"
  using arg_cong [OF assms [unfolded only_directory_changed_def], of now]
    arg_cong [OF assms [unfolded only_directory_changed_def], of packet_chans]
    arg_cong [OF assms [unfolded only_directory_changed_def], of signal_chans]
    arg_cong [OF assms [unfolded only_directory_changed_def], of attr_maps]
    arg_cong [OF assms [unfolded only_directory_changed_def], of spawned] by simp_all

locale state_directory =
  fixes S :: "('q, 'u, 'o) world state_server"
    and where_is :: "('q, 'u, 'o) world \<Rightarrow> u64 \<rightharpoonup> rstring"
    and context_of :: "('q, 'u, 'o) world \<Rightarrow> u64 \<rightharpoonup> conn_context"
  assumes put: "\<exists>w'. outcomes (put S k v) w = [(w', Done ())] \<and> only_directory_changed w w' \<and>
      where_is w' = (where_is w)(k \<mapsto> v) \<and> context_of w' = context_of w"
    and put_local: "\<exists>w'. outcomes (put_local S k c) w = [(w', Done ())] \<and> only_directory_changed w w' \<and>
      where_is w' = where_is w \<and> context_of w' = (context_of w)(k \<mapsto> c)"
    and remove: "\<exists>w'. outcomes (remove S k) w = [(w', Done (where_is w k))] \<and> only_directory_changed w w' \<and>
      where_is w' = (where_is w)(k := None) \<and> context_of w' = context_of w"
    and remove_local: "\<exists>w'. outcomes (remove_local S k) w = [(w', Done ())] \<and> only_directory_changed w w' \<and>
      where_is w' = where_is w \<and> context_of w' = (context_of w)(k := None)"
    and of_directory: "\<And>f. where_is (w\<lparr>attr_maps := f\<rparr>) = where_is w \<and> context_of (w\<lparr>attr_maps := f\<rparr>) = context_of w"
begin

lemma update_state_task_ends:
  "\<exists>w'. outcomes (update_state_task S k ctx) w = [(w', Done ())] \<and>
     where_is w' = (where_is w)(k \<mapsto> connection_id ctx) \<and> context_of w' = (context_of w)(k \<mapsto> ctx) \<and>
     attr_maps w' (attrs ctx) (str_bytes ''STATE_LAST_SYNC'') = Some (Any_instant (now w)) \<and>
     packet_chans w' = packet_chans w \<and> signal_chans w' = signal_chans w"
proof -
  obtain w1 where w1: "outcomes (put_local S k ctx) w = [(w1, Done ())]" "only_directory_changed w w1"
    "where_is w1 = where_is w" "context_of w1 = (context_of w)(k \<mapsto> ctx)" using put_local by blast
  obtain w2 where w2: "outcomes (put S k (ctx_id ctx)) w1 = [(w2, Done ())]" "only_directory_changed w1 w2"
    "where_is w2 = (where_is w1)(k \<mapsto> ctx_id ctx)" "context_of w2 = context_of w1" using put by blast
  let ?w = "put_attr ctx (str_bytes ''STATE_LAST_SYNC'') (Any_instant (now w2)) w2"
  have "outcomes (update_state_task S k ctx) w = [(?w, Done ())]"
    by (simp add: update_state_task_def outcomes_bind [of "put_local S k ctx"]
        outcomes_bind [of "put S k (ctx_id ctx)"] w1(1) w2(1))
  moreover have "now w2 = now w" "packet_chans w2 = packet_chans w" "signal_chans w2 = signal_chans w"
    by (simp_all add: only_directory_changed_select [OF w1(2)] only_directory_changed_select [OF w2(2)])
  ultimately show ?thesis
    using w1 w2 of_directory by (simp add: put_attr_def ctx_id_def)
qed

text \<open>The end of a connection of a known user removes the user's entries, whichever connection they name.\<close>

lemma ss_disconnected_ends:
  assumes "attr_maps w (attrs ctx) (str_bytes ''USER_ID'') = Some (Any_user_id k)"
  shows "\<exists>w'. outcomes (ss_disconnected S inner ctx) w = outcomes (disconnected inner ctx) w' \<and>
     where_is w' = (where_is w)(k := None) \<and> context_of w' = (context_of w)(k := None)"
proof -
  obtain w1 where w1: "outcomes (remove S k) w = [(w1, Done (where_is w k))]"
    "where_is w1 = (where_is w)(k := None)" "context_of w1 = context_of w" using remove by blast
  obtain w2 where w2: "outcomes (remove_local S k) w1 = [(w2, Done ())]"
    "where_is w2 = where_is w1" "context_of w2 = (context_of w1)(k := None)" using remove_local by blast
  have "outcomes (ss_disconnected S inner ctx) w = outcomes (disconnected inner ctx) w2"
    using assms by (simp add: ss_disconnected_def current_user_def bind_assoc
        outcomes_bind [of "remove S k"] outcomes_bind [of "remove_local S k"] w1(1) w2(1))
  then show ?thesis using w1 w2 by auto
qed

end

interpretation online: state_directory online_state_server online_state online_contexts
  by unfold_locales
    (auto simp: online_state_server_def oss_put_def oss_put_local_def oss_remove_def oss_remove_local_def
      only_directory_changed_def)

section \<open>How \<open>StateSupportProcessor\<close> treats a packet\<close>

definition user_of :: "conn_context \<Rightarrow> ('q, 'u, 'o) world \<Rightarrow> u64 option" where
  "user_of ctx w = Option.bind (attr_maps w (attrs ctx) (str_bytes ''USER_ID'')) downcast_user_id"

definition with_update_job :: "u64 \<Rightarrow> conn_context \<Rightarrow> ('q, 'u, 'o) world \<Rightarrow> ('q, 'u, 'o) world" where
  "with_update_job k ctx w = w\<lparr>spawned := spawned w @ [Update_state_job k ctx]\<rparr>"

lemma outcomes_current_user_bind:
  "outcomes (bind (current_user ctx) f) w = outcomes (f (user_of ctx w)) w"
  by (simp add: current_user_def user_of_def)

lemma outcomes_update_state_bind:
  "outcomes (bind (update_state k ctx) f) w = outcomes (f ()) (with_update_job k ctx w)"
  by (simp add: update_state_def spawn_def with_update_job_def)

lemma ss_process_login:
  assumes "login_packet p"
  shows "token_auth B X p = Ok k \<Longrightarrow>
      outcomes (ss_process T (token_auth_server B X) u inner ctx p) w =
      outcomes (process inner ctx p) (with_update_job k ctx (put_attr ctx (str_bytes ''USER_ID'') (Any_user_id k) w))"
    and "token_auth B X p = Err e \<Longrightarrow>
      outcomes (ss_process T (token_auth_server B X) u inner ctx p) w =
      outcomes (bind (ctx_send T ctx (auth_error_into_packet e)) (\<lambda>_. Return ())) w"
    and "token_auth B X p = Panic \<Longrightarrow>
      outcomes (ss_process T (token_auth_server B X) u inner ctx p) w = [(w, Crashed)]"
  using assms by (simp_all add: ss_process_def token_auth_server_def outcomes_update_state_bind)

lemma ss_process_other:
  assumes "\<not> login_packet p"
  shows "logout_packet p \<or> user_of ctx w = None \<Longrightarrow>
      outcomes (ss_process T A u inner ctx p) w = outcomes (ctx_close T ctx) w"
    and "\<not> logout_packet p \<Longrightarrow> user_of ctx w = Some k \<Longrightarrow>
      outcomes (ss_process T A u inner ctx p) w =
      outcomes (process inner ctx p)
        (case Option.bind (attr_maps w (attrs ctx) (str_bytes ''STATE_LAST_SYNC'')) downcast_instant of
           Some t \<Rightarrow> if now w - t > u then with_update_job k ctx w else w
         | None \<Rightarrow> with_update_job k ctx w)"
  using assms
  by (auto simp: ss_process_def outcomes_current_user_bind state_last_update_def bind_assoc
      outcomes_update_state_bind split: option.split)

section \<open>Properties\<close>

definition plain_crypto :: crypto_ops where
  "plain_crypto = \<lparr>base64_decode = (\<lambda>t. Some t), cbc_decrypt = (\<lambda>key iv enc buf. Some enc)\<rparr>"

definition no_crypto :: crypto_ops where
  "no_crypto = \<lparr>base64_decode = (\<lambda>t. None), cbc_decrypt = (\<lambda>key iv enc buf. None)\<rparr>"

text \<open>C15: no packet reaches the application before the user is known.  Unless a connection has logged in, a packet
  that is not a login is not passed on, whatever the inner processor is: the connection is asked to close and
  nothing else happens.  A logout closes the connection of a known user as well.\<close>

theorem stranger_kept_out:
  assumes "tokio_runtime T pv sv ov" and "\<not> login_packet p" and "logout_packet p \<or> user_of ctx w = None"
    and "accepts (close_requests sv ctx w)"
  shows "\<exists>q. outcomes (ss_process T A u inner ctx p) w =
             [(w\<lparr>signal_chans := (signal_chans w)(shutdown (handle ctx) := q)\<rparr>, Done ())] \<and>
           queued (sv q) = queued (close_requests sv ctx w) @ [()]"
proof -
  obtain q where "sv q = (close_requests sv ctx w)\<lparr>queued := queued (close_requests sv ctx w) @ [()]\<rparr>"
    "outcomes (ctx_close T ctx) w = [(w\<lparr>signal_chans := (signal_chans w)(shutdown (handle ctx) := q)\<rparr>, Done ())]"
    by (rule tokio_runtime.outcomes_ctx_close [OF assms(1,4)])
  then show ?thesis using ss_process_other(1) [OF assms(2,3), of T A u inner] by auto
qed

theorem stranger_kept_out_witness:
  "\<exists>w1. outcomes (ss_process list_tokio (token_auth_server std_bytes no_crypto) (secs 30)
       \<lparr>connected = \<lambda>_. Panicked, process = \<lambda>_ _. Panicked, disconnected = \<lambda>_. Panicked\<rparr>
       demo_ctx (packet_new 1 Map.empty (Ping 5))) demo_world = [(w1, Done ())]"
proof -
  have "user_of demo_ctx demo_world = None" by (simp add: user_of_def str_bytes_def)
  with stranger_kept_out [OF list_runtime.tokio_runtime_axioms, where p = "packet_new 1 Map.empty (Ping 5)"
      and ctx = demo_ctx and w = demo_world and A = "token_auth_server std_bytes no_crypto" and u = "secs 30"
      and inner = "\<lparr>connected = \<lambda>_. Panicked, process = \<lambda>_ _. Panicked, disconnected = \<lambda>_. Panicked\<rparr>"]
  show ?thesis by (auto simp: login_packet_def)
qed

text \<open>C29: login.  With a valid token the user's id is recorded in the context, the state server is told in a task of
  its own, and the packet goes on to the application; with a rejected token the client gets the error packet
  for its request id, the application sees nothing and nothing is recorded.\<close>

theorem login_processed:
  assumes "tokio_runtime T pv sv ov" and "login_packet p"
  shows "(token_auth B X p = Ok k \<longrightarrow>
            (\<exists>w1. outcomes (ss_process T (token_auth_server B X) u inner ctx p) w = outcomes (process inner ctx p) w1 \<and>
                  user_of ctx w1 = Some k \<and> spawned w1 = spawned w @ [Update_state_job k ctx] \<and>
                  packet_chans w1 = packet_chans w))
       \<and> (token_auth B X p = Err e \<and> accepts (outbox pv ctx w) \<longrightarrow>
            (\<exists>w1. outcomes (ss_process T (token_auth_server B X) u inner ctx p) w = [(w1, Done ())] \<and>
                  queued (outbox pv ctx w1) = queued (outbox pv ctx w) @
                    [packet_new (request_id p) Map.empty (Error 32 (str_bytes ''invalid token''))] \<and>
                  attr_maps w1 = attr_maps w \<and> spawned w1 = spawned w))"
proof (intro conjI impI)
  assume "token_auth B X p = Ok k"
  from ss_process_login(1) [OF assms(2) this]
  show "\<exists>w1. outcomes (ss_process T (token_auth_server B X) u inner ctx p) w = outcomes (process inner ctx p) w1 \<and>
      user_of ctx w1 = Some k \<and> spawned w1 = spawned w @ [Update_state_job k ctx] \<and> packet_chans w1 = packet_chans w"
    by (intro exI [of _ "with_update_job k ctx (put_attr ctx (str_bytes ''USER_ID'') (Any_user_id k) w)"])
      (simp add: with_update_job_def user_of_def)
next
  assume a: "token_auth B X p = Err e \<and> accepts (outbox pv ctx w)"
  obtain q where q: "mpsc_send (packets T) (auth_error_into_packet e) (packet_chans w (channel (handle ctx))) = Some (True, q)"
    "pv q = (outbox pv ctx w)\<lparr>queued := queued (outbox pv ctx w) @ [auth_error_into_packet e]\<rparr>"
    using tokio_runtime.sendable [OF assms(1)] a by metis
  note err = rejection_packet [OF conjunct1 [OF a]]
  show "\<exists>w1. outcomes (ss_process T (token_auth_server B X) u inner ctx p) w = [(w1, Done ())] \<and>
      queued (outbox pv ctx w1) = queued (outbox pv ctx w) @
        [packet_new (request_id p) Map.empty (Error 32 (str_bytes ''invalid token''))] \<and>
      attr_maps w1 = attr_maps w \<and> spawned w1 = spawned w"
    using ss_process_login(2) [OF assms(2) conjunct1 [OF a], of T u inner ctx w] q [unfolded err]
    by (simp add: tokio_runtime.outcomes_ctx_send [OF assms(1) q(1) [unfolded err]] outbox_def err)
qed

definition demo_login :: packet where
  "demo_login = packet_new 1 Map.empty (Login [] [] [] 0)"

theorem login_processed_witness:
  "\<exists>w1. outcomes (ss_process list_tokio (token_auth_server std_bytes no_crypto) (secs 30)
       \<lparr>connected = \<lambda>_. Panicked, process = \<lambda>_ _. Panicked, disconnected = \<lambda>_. Panicked\<rparr>
       demo_ctx demo_login) demo_world = [(w1, Done ())] \<and>
     queued (outbox id demo_ctx w1) = [packet_new 1 Map.empty (Error 32 (str_bytes ''invalid token''))]"
proof -
  have "login_packet demo_login" "token_auth std_bytes no_crypto demo_login = Err (InvalidToken 1)"
    by (simp_all add: demo_login_def login_packet_def token_auth_def parse_token_def no_crypto_def packet_request_id_def)
  with login_processed [OF list_runtime.tokio_runtime_axioms, where p = demo_login and ctx = demo_ctx and w = demo_world
      and B = std_bytes and X = no_crypto and u = "secs 30" and e = "InvalidToken 1"
      and inner = "\<lparr>connected = \<lambda>_. Panicked, process = \<lambda>_ _. Panicked, disconnected = \<lambda>_. Panicked\<rparr>"]
  show ?thesis
    by (auto simp: demo_login_def outbox_def accepts_def list_mpsc.channel [simplified])
qed

text \<open>The packet of a known user goes to the application, and the state server is told again when it has not
  been told yet or not for longer than the interval, and only then.\<close>

theorem known_user_refreshed:
  assumes "\<not> login_packet p" and "\<not> logout_packet p" and "user_of ctx w = Some k"
  shows "\<exists>w1. outcomes (ss_process T A u inner ctx p) w = outcomes (process inner ctx p) w1 \<and>
           w1 = w\<lparr>spawned := spawned w1\<rparr> \<and>
           spawned w1 = (if (\<exists>t. attr_maps w (attrs ctx) (str_bytes ''STATE_LAST_SYNC'') = Some (Any_instant t) \<and>
                               now w - t \<le> u)
                         then spawned w else spawned w @ [Update_state_job k ctx])"
proof (intro exI conjI)
  show "outcomes (ss_process T A u inner ctx p) w = outcomes (process inner ctx p)
      (case Option.bind (attr_maps w (attrs ctx) (str_bytes ''STATE_LAST_SYNC'')) downcast_instant of
         Some t \<Rightarrow> if now w - t > u then with_update_job k ctx w else w
       | None \<Rightarrow> with_update_job k ctx w)"
    by (rule ss_process_other(2) [OF assms])
qed (auto simp: with_update_job_def Option.bind_eq_Some_conv elim!: downcast_instant.elims split: option.split)

theorem known_user_refreshed_witness:
  "\<exists>w1. outcomes (ss_process list_tokio (token_auth_server std_bytes no_crypto) (secs 30)
       \<lparr>connected = \<lambda>_. Return (), process = \<lambda>_ _. Return (), disconnected = \<lambda>_. Return ()\<rparr>
       demo_ctx (packet_new 1 Map.empty (Ping 5)))
       (put_attr demo_ctx (str_bytes ''USER_ID'') (Any_user_id 9) demo_world) = [(w1, Done ())] \<and>
     spawned w1 = [Update_state_job 9 demo_ctx]"
proof -
  let ?w = "put_attr demo_ctx (str_bytes ''USER_ID'') (Any_user_id 9) demo_world"
  have "user_of demo_ctx ?w = Some 9" "attr_maps ?w (attrs demo_ctx) (str_bytes ''STATE_LAST_SYNC'') = None"
    by (simp_all add: user_of_def str_bytes_def)
  with known_user_refreshed [where p = "packet_new 1 Map.empty (Ping 5)" and ctx = demo_ctx and w = ?w and k = 9
      and T = list_tokio and A = "token_auth_server std_bytes no_crypto" and u = "secs 30"
      and inner = "\<lparr>connected = \<lambda>_. Return (), process = \<lambda>_ _. Return (), disconnected = \<lambda>_. Return ()\<rparr>"]
  show ?thesis by (auto simp: login_packet_def logout_packet_def)
qed

text \<open>C34: a token is the user's id.  When the token decodes and decrypts to data that begin with the eight bytes
  of an id, as the client's encrypt writes them, the login is of that user; a token that does not decode or
  decrypt is rejected with the request id of the login.  Data of fewer than eight bytes, and a packet that is
  not a login, end in a panic.\<close>

theorem token_names_user:
  assumes "bytes_crate B" and "payload p = Login token v ua ts"
  shows "(base64_decode X token = Some enc \<and>
            cbc_decrypt X KEY IV enc (replicate (length enc) 0) = Some (to_be_bytes k @ rest) \<longrightarrow>
          token_auth B X p = Ok k)
       \<and> (base64_decode X token = None \<or>
          (\<exists>enc. base64_decode X token = Some enc \<and> cbc_decrypt X KEY IV enc (replicate (length enc) 0) = None) \<longrightarrow>
          token_auth B X p = Err (InvalidToken (request_id p)))
       \<and> (base64_decode X token = Some enc \<and>
            cbc_decrypt X KEY IV enc (replicate (length enc) 0) = Some short \<and> length short < 8 \<longrightarrow>
          token_auth B X p = Panic)"
  using assms(2) bytes_crate.get_u64 [OF assms(1)]
  by (auto simp: token_auth_def parse_token_def decrypt_def packet_request_id_def Let_def)

theorem token_names_user_witness:
  "token_auth std_bytes plain_crypto (packet_new 1 Map.empty (Login (to_be_bytes (42 :: u64) @ [0, 32, 0, 32]) [] [] 0)) = Ok 42"
  using token_names_user [OF std.bytes_crate_axioms, of "packet_new 1 Map.empty (Login (to_be_bytes (42 :: u64) @ [0, 32, 0, 32]) [] [] 0)"
      "to_be_bytes (42 :: u64) @ [0, 32, 0, 32]" "[]" "[]" 0 plain_crypto "to_be_bytes (42 :: u64) @ [0, 32, 0, 32]" 42 "[0, 32, 0, 32]" "[]"]
  by (simp add: plain_crypto_def)

text \<open>The state server knows where a user is.  The task that a login starts records the id of the connection and
  its context for the user and no one else, and the time in the context; the end of a connection of the
  user removes both entries, even when a later login on another connection has replaced them.\<close>

theorem directory_follows_user:
  assumes "user_of old w = Some k"
  shows "\<exists>w1. outcomes (update_state_task online_state_server k ctx) w = [(w1, Done ())] \<and>
           online_state w1 = (online_state w)(k \<mapsto> connection_id ctx) \<and>
           online_contexts w1 = (online_contexts w)(k \<mapsto> ctx) \<and>
           (attrs old \<noteq> attrs ctx \<longrightarrow>
             (\<exists>w2. outcomes (ss_disconnected online_state_server inner old) w1 = outcomes (disconnected inner old) w2 \<and>
                   online_state w2 k = None \<and> online_contexts w2 k = None))"
proof -
  obtain w1 where w1: "outcomes (update_state_task online_state_server k ctx) w = [(w1, Done ())]"
    "online_state w1 = (online_state w)(k \<mapsto> connection_id ctx)" "online_contexts w1 = (online_contexts w)(k \<mapsto> ctx)"
    using online.update_state_task_ends by blast
  have "attr_maps w1 m = attr_maps w m" if "m \<noteq> attrs ctx" for m
    using w1(1) that by (auto simp: update_state_task_def online_state_server_def oss_put_def oss_put_local_def)
  then have "attrs old \<noteq> attrs ctx \<Longrightarrow> attr_maps w1 (attrs old) (str_bytes ''USER_ID'') = Some (Any_user_id k)"
    using assms by (auto simp: user_of_def Option.bind_eq_Some_conv elim!: downcast_user_id.elims)
  from online.ss_disconnected_ends [OF this] w1 show ?thesis by (metis fun_upd_same)
qed

theorem directory_follows_user_witness:
  "\<exists>w1. outcomes (update_state_task online_state_server 9 demo_ctx)
       (put_attr demo_ctx (str_bytes ''USER_ID'') (Any_user_id 9) demo_world) = [(w1, Done ())] \<and>
     online_contexts w1 9 = Some demo_ctx"
proof -
  let ?w = "put_attr demo_ctx (str_bytes ''USER_ID'') (Any_user_id 9) demo_world"
  have "user_of demo_ctx ?w = Some 9" by (simp add: user_of_def)
  from directory_follows_user [OF this, of demo_ctx] show ?thesis by auto
qed

end
