(* ===== verification/Server.thy ===== *)
theory Server
  imports Online_State_Server Sync_Message
begin

text \<open>
  The application, \<open>im/src/server.rs\<close>: a message is forwarded to the connection of the user it is
  for, as a request whose id the server counts down per connection, and the sender gets an
  acknowledgement.  The lock of the request counter is explicit, since a guard of it lives across
  an await point.
\<close>

section \<open>Errors\<close>

datatype im_error = Im_custom u32 rstring | Im_disconnected | Im_undefined_behavior

type_synonym 'a im_result = "('a, im_error) outcome"

datatype store_error = Store_error u32 rstring

section \<open>The request counter\<close>

definition lock_counter :: "('q, 'u, 'o, unit) task" where
  "lock_counter = await (\<lambda>w. if counter_locked w then [] else [(w\<lparr>counter_locked := True\<rparr>, ())])"

definition unlock_counter :: "('q, 'u, 'o, unit) task" where
  "unlock_counter = modify (\<lambda>w. w\<lparr>counter_locked := False\<rparr>)"

definition counter_get :: "rstring \<Rightarrow> ('q, 'u, 'o, u64 option) task" where
  "counter_get k = gets (\<lambda>w. request_counter w k)"

definition counter_insert :: "rstring \<Rightarrow> u64 \<Rightarrow> ('q, 'u, 'o, unit) task" where
  "counter_insert k v = modify (\<lambda>w. w\<lparr>request_counter := (request_counter w)(k \<mapsto> v)\<rparr>)"

definition counter_remove :: "rstring \<Rightarrow> ('q, 'u, 'o, unit) task" where
  "counter_remove k = modify (\<lambda>w. w\<lparr>request_counter := (request_counter w)(k := None)\<rparr>)"

text \<open>
  The guard of the first \<open>lock\<close> lives until the end of the function, so it is still held when
  the branch for a missing counter locks again.
\<close>

definition gen_request_id :: "conn_context \<Rightarrow> ('q, 'u, 'o, u64) task" where
  "gen_request_id ctx =
     bind lock_counter (\<lambda>_.
     bind (counter_get (ctx_id ctx)) (\<lambda>r.
     case r of
       Some c \<Rightarrow>
         bind (counter_insert (ctx_id ctx) (c - 1)) (\<lambda>_.
         bind unlock_counter (\<lambda>_. Return c))
     | None \<Rightarrow>
         bind lock_counter (\<lambda>_.
         bind (counter_insert (ctx_id ctx) (- 1 - 1)) (\<lambda>_.
         bind unlock_counter (\<lambda>_.
         bind unlock_counter (\<lambda>_. Return (- 1)))))))"

section \<open>Sending to a user\<close>

definition get_context :: "u64 \<Rightarrow> ('q, 'u, 'o, conn_context im_result) task" where
  "get_context account =
     bind (oss_get_context account) (\<lambda>r.
     Return (case r of Some ctx \<Rightarrow> Ok ctx | None \<Rightarrow> Err Im_disconnected))"

definition send_oneway :: "('q, 'u, 'o) tokio \<Rightarrow> message \<Rightarrow> ('q, 'u, 'o, unit im_result) task" where
  "send_oneway T msg =
     bind (get_context (msg_to msg)) (\<lambda>r.
     case r of
       Ok ctx \<Rightarrow>
         bind (gen_request_id ctx) (\<lambda>i.
         bind (ctx_send T ctx (packet_new i Map.empty (Message msg))) (\<lambda>sent.
         Return (case sent of Ok _ \<Rightarrow> Ok () | Err _ \<Rightarrow> Err Im_disconnected | Panic \<Rightarrow> Panic)))
     | Err e \<Rightarrow> Return (Err e)
     | Panic \<Rightarrow> Panicked)"

text \<open>What \<open>send\<close> makes of the response.\<close>

definition response_result :: "payload \<Rightarrow> unit im_result" where
  "response_result resp =
     (case resp of
        Error code msg \<Rightarrow> Err (Im_custom code msg)
      | MessageCliAck \<Rightarrow> Ok ()
      | _ \<Rightarrow> Err Im_undefined_behavior)"

definition server_send :: "('q, 'u, 'o) tokio \<Rightarrow> message \<Rightarrow> ('q, 'u, 'o, unit im_result) task" where
  "server_send T msg =
     bind (get_context (msg_to msg)) (\<lambda>r.
     case r of
       Ok ctx \<Rightarrow>
         bind (gen_request_id ctx) (\<lambda>i.
         bind (sync_send T ctx (packet_new i Map.empty (Message msg))) (\<lambda>resp.
         Return (case resp of
           Ok p \<Rightarrow> response_result (payload p)
         | Err _ \<Rightarrow> Err Im_disconnected
         | Panic \<Rightarrow> Panic)))
     | Err e \<Rightarrow> Return (Err e)
     | Panic \<Rightarrow> Panicked)"

definition process_message ::
  "('q, 'u, 'o) tokio \<Rightarrow> message \<Rightarrow> conn_context \<Rightarrow> ('q, 'u, 'o, (unit, store_error) outcome) task" where
  "process_message T msg ctx = bind (server_send T msg) (\<lambda>_. Return (Ok ()))"

section \<open>The processor\<close>

definition server_connected :: "conn_context \<Rightarrow> ('q, 'u, 'o, unit) task" where
  "server_connected ctx = Return ()"

definition server_process ::
  "('q, 'u, 'o) tokio \<Rightarrow> conn_context \<Rightarrow> packet \<Rightarrow> ('q, 'u, 'o, unit) task" where
  "server_process T ctx p =
     (let i = packet_request_id p in
      case payload p of
        Message msg \<Rightarrow>
          bind (process_message T msg ctx) (\<lambda>r.
          case r of
            Ok _ \<Rightarrow> bind (ctx_send T ctx (packet_new i Map.empty MessageSrvAck)) (\<lambda>_. Return ())
          | _ \<Rightarrow> Return ())
      | Login _ _ _ _ \<Rightarrow>
          bind lock_counter (\<lambda>_.
          bind (counter_insert (ctx_id ctx) (- 1)) (\<lambda>_. unlock_counter))
      | _ \<Rightarrow> Return ())"

definition server_disconnected :: "conn_context \<Rightarrow> ('q, 'u, 'o, unit) task" where
  "server_disconnected ctx =
     bind lock_counter (\<lambda>_. bind (counter_remove (ctx_id ctx)) (\<lambda>_. unlock_counter))"

definition server :: "('q, 'u, 'o) tokio \<Rightarrow> ('q, 'u, 'o) handler" where
  "server T =
     \<lparr>connected = server_connected, process = server_process T, disconnected = server_disconnected\<rparr>"

definition server_new :: "('q, 'u, 'o) world \<Rightarrow> ('q, 'u, 'o) world" where
  "server_new w = w\<lparr>request_counter := Map.empty, counter_locked := False\<rparr>"

end
