(* ===== verification/Server_Properties.thy ===== *)
theory Server_Properties
  imports Server Sync_Properties
begin

text \<open>
  The properties of the application: the request ids that it gives out, the lock behind them, and
  the way of a message from its sender to its receiver and of the acknowledgement back.
\<close>

section \<open>The request counter\<close>

lemma outcomes_lock_bind:
  "\<not> counter_locked w \<Longrightarrow> outcomes (bind lock_counter f) w = outcomes (f ()) (w\<lparr>counter_locked := True\<rparr>)"
  "counter_locked w \<Longrightarrow> outcomes (bind lock_counter f) w = [(w, Blocked (bind lock_counter f))]"
  by (simp_all add: lock_counter_def outcomes_await_bind)

definition with_counter :: "conn_context \<Rightarrow> u64 \<Rightarrow> ('q, 'u, 'o) world \<Rightarrow> ('q, 'u, 'o) world" where
  "with_counter ctx c w = w\<lparr>request_counter := (request_counter w)(ctx_id ctx \<mapsto> c)\<rparr>"

lemma with_counter_select [simp]:
  "request_counter (with_counter ctx c w) = (request_counter w)(ctx_id ctx \<mapsto> c)"
  "counter_locked (with_counter ctx c w) = counter_locked w" "now (with_counter ctx c w) = now w"
  "packet_chans (with_counter ctx c w) = packet_chans w" "notify_maps (with_counter ctx c w) = notify_maps w"
  "next_ref (with_counter ctx c w) = next_ref w" "attr_maps (with_counter ctx c w) = attr_maps w"
  "oneshot_chans (with_counter ctx c w) = oneshot_chans w" "online_contexts (with_counter ctx c w) = online_contexts w"
  by (simp_all add: with_counter_def)

lemma world_relocked [simp]:
  "\<not> counter_locked w \<Longrightarrow> w\<lparr>request_counter := f, counter_locked := False\<rparr> = w\<lparr>request_counter := f\<rparr>"
  "\<not> counter_locked w \<Longrightarrow> w\<lparr>counter_locked := False\<rparr> = w"
  by (cases w; simp)+

lemma outcomes_gen_request_id_bind:
  assumes "\<not> counter_locked w" and "request_counter w (ctx_id ctx) = Some c"
  shows "outcomes (bind (gen_request_id ctx) f) w = outcomes (f c) (with_counter ctx (c - 1) w)"
  using assms
  by (simp add: gen_request_id_def bind_assoc outcomes_lock_bind counter_get_def counter_insert_def
      unlock_counter_def with_counter_def)

lemma server_login:
  assumes "\<not> counter_locked w" and "login_packet p"
  shows "outcomes (server_process T ctx p) w = [(with_counter ctx (- 1) w, Done ())]"
proof -
  obtain a b c d where "payload p = Login a b c d"
    using assms(2) by (auto simp: login_packet_def split: payload.splits)
  then show ?thesis
    using assms(1)
    by (simp add: server_process_def outcomes_lock_bind counter_insert_def unlock_counter_def with_counter_def)
qed

text \<open>Several ids in a row.\<close>

primrec gen_request_ids :: "nat \<Rightarrow> conn_context \<Rightarrow> ('q, 'u, 'o, u64 list) task" where
  "gen_request_ids 0 ctx = Return []"
| "gen_request_ids (Suc n) ctx =
     bind (gen_request_id ctx) (\<lambda>i. bind (gen_request_ids n ctx) (\<lambda>is. Return (i # is)))"

lemma outcomes_gen_request_ids:
  assumes "\<not> counter_locked w" and "request_counter w (ctx_id ctx) = Some c"
  shows "\<exists>w'. outcomes (gen_request_ids n ctx) w = [(w', Done (map (\<lambda>i. c - of_nat i) [0..<n]))]"
  using assms
proof (induction n arbitrary: w c)
  case 0
  then show ?case by simp
next
  case (Suc n)
  let ?w = "with_counter ctx (c - 1) w"
  obtain w' where "outcomes (gen_request_ids n ctx) ?w = [(w', Done (map (\<lambda>i. c - 1 - of_nat i) [0..<n]))]"
    using Suc.IH [of ?w "c - 1"] Suc.prems by auto
  moreover have "map (\<lambda>i. c - of_nat i) [0..<Suc n] = c # map (\<lambda>i. c - 1 - of_nat i) [0..<n]"
    by (simp only: upt_conv_Cons [of 0 "Suc n"] map_Suc_upt [symmetric]) (simp add: algebra_simps)
  ultimately show ?case
    by (simp add: outcomes_gen_request_id_bind [OF Suc.prems] outcomes_bind [of "gen_request_ids n ctx"]
        del: upt_Suc)
qed

lemma counting_down_distinct:
  fixes c :: u64
  assumes "n \<le> 2 ^ 64"
  shows "distinct (map (\<lambda>i. c - of_nat i) [0..<n])"
proof -
  have "i = j" if "i < n" "j < n" "c - of_nat i = c - (of_nat j :: u64)" for i j
  proof -
    have "(of_nat i :: u64) = of_nat j" using that(3) by simp
    then have "unat (of_nat i :: u64) = unat (of_nat j :: u64)" by simp
    then show ?thesis using that assms by (simp add: unat_of_nat)
  qed
  then show ?thesis by (auto simp: distinct_map inj_on_def)
qed

section \<open>Messages\<close>

lemma outcomes_get_context_bind:
  "outcomes (bind (get_context k) f) w =
   outcomes (f (case online_contexts w k of Some ctx \<Rightarrow> Ok ctx | None \<Rightarrow> Err Im_disconnected)) w"
  by (simp add: get_context_def oss_get_context_def bind_assoc)

definition send_result :: "packet connect_result \<Rightarrow> unit im_result" where
  "send_result resp =
     (case resp of Ok p \<Rightarrow> response_result (payload p) | Err _ \<Rightarrow> Err Im_disconnected | Panic \<Rightarrow> Panic)"

text \<open>The task of a message that was sent: it waits for the reply and then acknowledges the message.\<close>

definition message_waiting ::
  "('q, 'u, 'o) tokio \<Rightarrow> conn_context \<Rightarrow> packet \<Rightarrow> nat \<Rightarrow> nat \<Rightarrow> ('q, 'u, 'o, unit) task" where
  "message_waiting T sdr p deadline r =
     bind (bind (await_reply T deadline r) (\<lambda>resp. Return (send_result resp))) (\<lambda>_.
     bind (ctx_send T sdr (packet_new (request_id p) Map.empty MessageSrvAck)) (\<lambda>_. Return ()))"

text \<open>The receiver of a message is online: its context is known and ready for a request.\<close>

definition reachable ::
  "('q \<Rightarrow> packet mpsc_view) \<Rightarrow> conn_context \<Rightarrow> u64 \<Rightarrow> nat \<Rightarrow> u64 \<Rightarrow> ('q, 'u, 'o) world \<Rightarrow> bool" where
  "reachable pview rcv user m c w \<longleftrightarrow>
     \<not> counter_locked w \<and> online_contexts w user = Some rcv \<and> request_counter w (ctx_id rcv) = Some c \<and>
     registered rcv m w \<and> notify_maps w m c \<noteq> Some (next_ref w) \<and> accepts (outbox pview rcv w)"

lemma outcomes_server_send_offline:
  "online_contexts w (msg_to msg) = None \<Longrightarrow> outcomes (server_send T msg) w = [(w, Done (Err Im_disconnected))]"
  by (simp add: server_send_def outcomes_get_context_bind)

context tokio_runtime
begin

text \<open>
  Sending to a receiver that is online: the message goes out with the next request id, and the
  sender's task waits for the reply.
\<close>

lemma server_send_waits:
  assumes "reachable pview rcv (msg_to msg) m c w"
  obtains w1 where
    "outcomes (server_send T msg) w =
       [(w1, Blocked (bind (await_reply T (now w + secs 3) (next_ref w)) (\<lambda>resp. Return (send_result resp))))]"
    "queued (outbox pview rcv w1) = queued (outbox pview rcv w) @ [packet_new c Map.empty (Message msg)]"
    "oview (oneshot_chans w1 (next_ref w)) = Waiting" "notify_maps w1 m c = Some (next_ref w)"
    "registered rcv m w1" "now w1 = now w"
    "\<And>r. r \<noteq> channel (handle rcv) \<Longrightarrow> packet_chans w1 r = packet_chans w r"
proof -
  let ?w = "with_counter rcv (c - 1) w" and ?data = "packet_new c Map.empty (Message msg)"
  have free: "\<not> counter_locked w" and on: "online_contexts w (msg_to msg) = Some rcv"
    and ctr: "request_counter w (ctx_id rcv) = Some c" and reg: "registered rcv m ?w"
    and fresh: "notify_maps ?w m (request_id ?data) \<noteq> Some (next_ref ?w)" and acc: "accepts (outbox pview rcv ?w)"
    using assms by (simp_all add: reachable_def registered_def outbox_def)
  have start: "outcomes (server_send T msg) w =
      outcomes (bind (sync_send T rcv ?data) (\<lambda>resp. Return (send_result resp))) ?w"
    by (simp add: server_send_def outcomes_get_context_bind on outcomes_gen_request_id_bind [OF free ctr]
        send_result_def)
  obtain w1 where w1: "outcomes (sync_send T rcv ?data) ?w =
        [(w1, Blocked (await_reply T (now ?w + secs 3) (next_ref ?w)))]"
      "queued (outbox pview rcv w1) = queued (outbox pview rcv ?w) @ [?data]"
      "oview (oneshot_chans w1 (next_ref ?w)) = Waiting"
      "notify_maps w1 = (notify_maps ?w)(m := (notify_maps ?w m)(request_id ?data \<mapsto> next_ref ?w))"
      "now w1 = now ?w" "attr_maps w1 = attr_maps ?w"
      "\<And>r. r \<noteq> channel (handle rcv) \<Longrightarrow> packet_chans w1 r = packet_chans ?w r"
    using sync_send_accepted [OF reg fresh acc] by metis
  show ?thesis
    by (rule that [of w1]) (use start w1 reg in \<open>simp_all add: outcomes_bind outbox_def registered_def\<close>)
qed

lemma server_send_replied:
  assumes "oview (oneshot_chans w r) = Waiting"
  shows "outcomes (bind (await_reply T deadline r) (\<lambda>resp. Return (send_result resp))) (answered m r resp w) =
    [(reply_dropped T r (answered m r resp w), Done (response_result (payload resp)))]"
  by (simp add: outcomes_bind await_reply_ends(3) [OF answered_oneshot(1) [OF assms]] send_result_def)

text \<open>A message as the task of its sender sees it: it waits for the reply, and then it goes on to the acknowledgement.\<close>

lemma message_waits:
  assumes "reachable pview rcv (msg_to msg) m c w" and "payload p = Message msg"
  obtains w1 where
    "outcomes (server_process T sdr p) w = [(w1, Blocked (message_waiting T sdr p (now w + secs 3) (next_ref w)))]"
    "queued (outbox pview rcv w1) = queued (outbox pview rcv w) @ [packet_new c Map.empty (Message msg)]"
    "oview (oneshot_chans w1 (next_ref w)) = Waiting" "notify_maps w1 m c = Some (next_ref w)"
    "registered rcv m w1" "now w1 = now w" "\<And>r. r \<noteq> channel (handle rcv) \<Longrightarrow> packet_chans w1 r = packet_chans w r"
proof -
  let ?deliver = "bind (await_reply T (now w + secs 3) (next_ref w)) (\<lambda>resp. Return (send_result resp))"
  obtain w1 where w1: "outcomes (server_send T msg) w = [(w1, Blocked ?deliver)]"
    "queued (outbox pview rcv w1) = queued (outbox pview rcv w) @ [packet_new c Map.empty (Message msg)]"
    "oview (oneshot_chans w1 (next_ref w)) = Waiting" "notify_maps w1 m c = Some (next_ref w)"
    "registered rcv m w1" "now w1 = now w" "\<And>r. r \<noteq> channel (handle rcv) \<Longrightarrow> packet_chans w1 r = packet_chans w r"
    using server_send_waits [OF assms(1)] by metis
  have "outcomes (server_process T sdr p) w = [(w1, Blocked (message_waiting T sdr p (now w + secs 3) (next_ref w)))]"
    by (simp add: server_process_def assms(2) process_message_def bind_assoc packet_request_id_def message_waiting_def
        outcomes_bind [of "server_send T msg"] w1(1))
  then show ?thesis using w1(2-7) by (rule that)
qed

lemma message_goes_on:
  assumes "outcomes (await_reply T deadline r) w = [(v, Done resp)]" and "accepts (outbox pview sdr v)"
  shows "\<exists>q. outcomes (message_waiting T sdr p deadline r) w =
      [(v\<lparr>packet_chans := (packet_chans v)(channel (handle sdr) := q)\<rparr>, Done ())] \<and>
    queued (pview q) = queued (outbox pview sdr v) @ [packet_new (request_id p) Map.empty MessageSrvAck]"
proof -
  let ?ack = "packet_new (request_id p) Map.empty MessageSrvAck"
  obtain q where "mpsc_send (packets T) ?ack (packet_chans v (channel (handle sdr))) = Some (True, q)"
    "pview q = (outbox pview sdr v)\<lparr>queued := queued (outbox pview sdr v) @ [?ack]\<rparr>"
    using sendable [of sdr v ?ack] assms(2) by metis
  then show ?thesis
    by (intro exI [of _ q]) (simp add: message_waiting_def bind_assoc outcomes_bind [of "await_reply T deadline r"] assms(1) outcomes_ctx_send)
qed

lemma message_resumes:
  assumes "oview (oneshot_chans w r) = Waiting" and "accepts (outbox pview sdr w)"
  shows "\<exists>q. outcomes (message_waiting T sdr p deadline r) (answered m r reply w) =
      [((reply_dropped T r (answered m r reply w))\<lparr>packet_chans := (packet_chans w)(channel (handle sdr) := q)\<rparr>, Done ())] \<and>
    queued (pview q) = queued (outbox pview sdr w) @ [packet_new (request_id p) Map.empty MessageSrvAck]"
  using message_goes_on [OF await_reply_ends(3) [OF answered_oneshot(1) [OF assms(1), of m reply]], where sdr = sdr and p = p] assms(2)
  by (simp add: outbox_def)

lemma message_gives_up:
  assumes "oview (oneshot_chans w r) = Waiting" and "deadline \<le> now w" and "accepts (outbox pview sdr w)"
  shows "\<exists>q. outcomes (message_waiting T sdr p deadline r) w =
      [((reply_dropped T r w)\<lparr>packet_chans := (packet_chans w)(channel (handle sdr) := q)\<rparr>, Done ())] \<and>
    queued (pview q) = queued (outbox pview sdr w) @ [packet_new (request_id p) Map.empty MessageSrvAck]"
  using message_goes_on [OF await_reply_ends(2) [OF assms(1,2)], where sdr = sdr and p = p] assms(3)
  by (simp add: outbox_def)

text \<open>The whole way of a message, from the sender's packet to the acknowledgement.\<close>

lemma message_round:
  assumes "reachable pview rcv (msg_to msg) m c w" and "accepts (outbox pview sdr w)"
    and "channel (handle sdr) \<noteq> channel (handle rcv)" and "payload p = Message msg" and "request_id reply = c"
  shows "\<exists>w1 w2 w3 k. outcomes (server_process T sdr p) w = [(w1, Blocked k)] \<and>
           queued (outbox pview rcv w1) = queued (outbox pview rcv w) @ [packet_new c Map.empty (Message msg)] \<and>
           outcomes (sync_process T inner rcv reply) w1 = [(w2, Done ())] \<and>
           outcomes k w2 = [(w3, Done ())] \<and>
           queued (outbox pview sdr w3) =
             queued (outbox pview sdr w) @ [packet_new (request_id p) Map.empty MessageSrvAck]"
proof -
  obtain w1 where w1: "outcomes (server_process T sdr p) w =
      [(w1, Blocked (message_waiting T sdr p (now w + secs 3) (next_ref w)))]"
    "queued (outbox pview rcv w1) = queued (outbox pview rcv w) @ [packet_new c Map.empty (Message msg)]"
    "oview (oneshot_chans w1 (next_ref w)) = Waiting" "notify_maps w1 m c = Some (next_ref w)"
    "registered rcv m w1" "now w1 = now w" "\<And>r. r \<noteq> channel (handle rcv) \<Longrightarrow> packet_chans w1 r = packet_chans w r"
    using message_waits [OF assms(1,4), where sdr = sdr] by metis
  have two: "outcomes (sync_process T inner rcv reply) w1 = [(answered m (next_ref w) reply w1, Done ())]"
    using w1(4,5) assms(5) by (intro sync_process_registered) simp_all
  have box: "outbox pview sdr w1 = outbox pview sdr w" using w1(7) [OF assms(3)] by (simp add: outbox_def)
  then have "accepts (outbox pview sdr w1)" using assms(2) by simp
  from message_resumes [OF w1(3) this, of p "now w + secs 3" m reply] show ?thesis
    using w1(1,2) two box by (auto simp: outbox_def)
qed

end

text \<open>A counter that is missing: the guard is held, and the second lock waits for it.\<close>

lemma missing_counter_blocks:
  assumes "\<not> counter_locked w" and "request_counter w (ctx_id ctx) = None"
  shows "\<exists>k. outcomes (gen_request_id ctx) w = [(w\<lparr>counter_locked := True\<rparr>, Blocked k)] \<and>
           (\<forall>w'. counter_locked w' \<longrightarrow> outcomes k w' = [(w', Blocked k)])"
  using assms by (simp add: gen_request_id_def outcomes_lock_bind counter_get_def)

section \<open>Properties\<close>

text \<open>A message is delivered and acknowledged.  When the receiver is online, the message goes to the receiver's
  connection under the next request id and the task of the sender waits; when the receiver's reply with that
  id comes in, the sender gets the acknowledgement with the request id of the message.\<close>

theorem message_delivered:
  assumes "tokio_runtime T pv sv ov" and "reachable pv rcv (msg_to msg) m c w" and "accepts (outbox pv sdr w)"
    and "channel (handle sdr) \<noteq> channel (handle rcv)" and "payload p = Message msg" and "request_id reply = c"
  shows "\<exists>w1 w2 w3 k. outcomes (server_process T sdr p) w = [(w1, Blocked k)] \<and>
           queued (outbox pv rcv w1) = queued (outbox pv rcv w) @ [packet_new c Map.empty (Message msg)] \<and>
           outcomes (sync_process T inner rcv reply) w1 = [(w2, Done ())] \<and>
           outcomes k w2 = [(w3, Done ())] \<and>
           queued (outbox pv sdr w3) = queued (outbox pv sdr w) @ [packet_new (request_id p) Map.empty MessageSrvAck]"
  by (rule tokio_runtime.message_round [OF assms])

definition demo_sender :: conn_context where
  "demo_sender = \<lparr>connection_id = str_bytes ''10.0.0.2:4712'', handle = \<lparr>channel = 10, shutdown = 11\<rparr>, attrs = 12\<rparr>"

definition demo_message :: message where
  "demo_message = \<lparr>msg_from = 1, msg_to = 2, timestamp = 32, seq = 1, msg_type = str_bytes ''text'',
                   content = str_bytes ''hello''\<rparr>"

definition chat_world :: list_world where
  "chat_world = demo_world\<lparr>online_contexts := [2 \<mapsto> demo_ctx], request_counter := [ctx_id demo_ctx \<mapsto> - 1]\<rparr>"

lemma chat_world_facts [simp]:
  "reachable id demo_ctx 2 3 (- 1) chat_world" "accepts (outbox id c chat_world)"
  "queued (outbox id c chat_world) = []" "registered demo_ctx 3 chat_world"
  "\<not> counter_locked chat_world" "request_counter chat_world (ctx_id demo_ctx) = Some (- 1)"
  "online_contexts chat_world 2 = Some demo_ctx"
  by (simp_all add: reachable_def chat_world_def registered_def accepts_def outbox_def
      list_mpsc.channel [simplified])

lemma demo_channels [simp]: "channel (handle demo_sender) \<noteq> channel (handle demo_ctx)" "msg_to demo_message = 2"
  by (simp_all add: demo_sender_def demo_ctx_def demo_message_def)

theorem message_delivered_witness:
  "\<exists>w1 w2 w3 k. outcomes (server_process list_tokio demo_sender (packet_new 5 Map.empty (Message demo_message))) chat_world
       = [(w1, Blocked k)] \<and>
     queued (outbox id demo_ctx w1) = [packet_new (- 1) Map.empty (Message demo_message)] \<and>
     outcomes (sync_process list_tokio (server list_tokio) demo_ctx (packet_new (- 1) Map.empty MessageCliAck)) w1
       = [(w2, Done ())] \<and>
     outcomes k w2 = [(w3, Done ())] \<and>
     queued (outbox id demo_sender w3) = [packet_new 5 Map.empty MessageSrvAck]"
  using message_delivered [OF list_runtime.tokio_runtime_axioms, of demo_ctx demo_message 3 "- 1" chat_world demo_sender
      "packet_new 5 Map.empty (Message demo_message)" "packet_new (- 1) Map.empty MessageCliAck" "server list_tokio"]
  by simp

text \<open>What the reply means.  The server's send succeeds exactly for an acknowledgement; an error packet from the
  receiver is passed on with its code and message, and any other packet is undefined behaviour.\<close>

theorem reply_decides:
  assumes "tokio_runtime T pv sv ov" and "reachable pv rcv (msg_to msg) m c w" and "request_id reply = c"
  shows "\<exists>w1 w2 w3 k. outcomes (server_send T msg) w = [(w1, Blocked k)] \<and>
           outcomes (sync_process T inner rcv reply) w1 = [(w2, Done ())] \<and>
           outcomes k w2 = [(w3, Done (case payload reply of
              MessageCliAck \<Rightarrow> Ok ()
            | Error code text \<Rightarrow> Err (Im_custom code text)
            | _ \<Rightarrow> Err Im_undefined_behavior))]"
proof -
  note waits = tokio_runtime.server_send_waits [OF assms(1,2)]
  obtain w1 where w1: "outcomes (server_send T msg) w =
        [(w1, Blocked (bind (await_reply T (now w + secs 3) (next_ref w)) (\<lambda>resp. Return (send_result resp))))]"
    "ov (oneshot_chans w1 (next_ref w)) = Waiting" "notify_maps w1 m c = Some (next_ref w)" "registered rcv m w1"
    using waits by metis
  have "notify_maps w1 m (request_id reply) = Some (next_ref w)" using w1(3) assms(3) by simp
  from tokio_runtime.sync_process_registered [OF assms(1) w1(4) this, of inner]
    tokio_runtime.server_send_replied [OF assms(1) w1(2), of _ m reply] w1(1)
  show ?thesis by (force simp: response_result_def split: payload.splits)
qed

theorem reply_decides_witness:
  "\<exists>w1 w2 w3 k. outcomes (server_send list_tokio demo_message) chat_world = [(w1, Blocked k)] \<and>
     outcomes (sync_process list_tokio (server list_tokio) demo_ctx (packet_new (- 1) Map.empty (Ping 3))) w1 = [(w2, Done ())] \<and>
     outcomes k w2 = [(w3, Done (Err Im_undefined_behavior))]"
  using reply_decides [OF list_runtime.tokio_runtime_axioms, of demo_ctx demo_message 3 "- 1" chat_world
      "packet_new (- 1) Map.empty (Ping 3)" "server list_tokio"] by simp

text \<open>The acknowledgement does not depend on the delivery.  When the receiver is not online, the
  sender gets the same MessageSrvAck as for a delivered message, and nothing is sent to anyone else.\<close>

theorem acknowledged_without_delivery:
  assumes "tokio_runtime T pv sv ov" and "online_contexts w (msg_to msg) = None" and "accepts (outbox pv sdr w)"
    and "payload p = Message msg"
  shows "\<exists>w1. outcomes (server_process T sdr p) w = [(w1, Done ())] \<and>
           queued (outbox pv sdr w1) = queued (outbox pv sdr w) @ [packet_new (request_id p) Map.empty MessageSrvAck] \<and>
           (\<forall>r. r \<noteq> channel (handle sdr) \<longrightarrow> packet_chans w1 r = packet_chans w r)"
proof -
  let ?ack = "packet_new (request_id p) Map.empty MessageSrvAck"
  obtain q where q: "mpsc_send (packets T) ?ack (packet_chans w (channel (handle sdr))) = Some (True, q)"
    "pv q = (outbox pv sdr w)\<lparr>queued := queued (outbox pv sdr w) @ [?ack]\<rparr>"
    by (rule tokio_runtime.sendable [OF assms(1,3)])
  show ?thesis
    by (intro exI [of _ "w\<lparr>packet_chans := (packet_chans w)(channel (handle sdr) := q)\<rparr>"])
      (simp add: server_process_def assms(4) process_message_def bind_assoc packet_request_id_def q(2) outbox_def
        outcomes_bind [of "server_send T msg"] outcomes_server_send_offline [OF assms(2)]
        tokio_runtime.outcomes_ctx_send [OF assms(1) q(1)])
qed

theorem acknowledged_without_delivery_witness:
  "\<exists>w1. outcomes (server_process list_tokio demo_sender (packet_new 5 Map.empty (Message demo_message))) demo_world
       = [(w1, Done ())] \<and>
     queued (outbox id demo_sender w1) = [packet_new 5 Map.empty MessageSrvAck]"
  using acknowledged_without_delivery [OF list_runtime.tokio_runtime_axioms, of demo_world demo_message demo_sender
      "packet_new 5 Map.empty (Message demo_message)"]
  by (auto simp: outbox_def accepts_def list_mpsc.channel [simplified])

text \<open>C33: request ids count down from the greatest and do not repeat: after a login, up to 2 to the 64 ids in a row
  are distinct.  A second login on the same connection starts the count again, so that ids repeat that may
  still be waited for.\<close>

theorem request_ids_distinct:
  assumes "\<not> counter_locked w" and "login_packet p" and "n \<le> 2 ^ 64"
  shows "\<exists>w1 w2 w3 ids. outcomes (server_process T ctx p) w = [(w1, Done ())] \<and>
           outcomes (gen_request_ids n ctx) w1 = [(w2, Done ids)] \<and>
           ids = map (\<lambda>i. - 1 - of_nat i) [0..<n] \<and> distinct ids \<and>
           outcomes (bind (server_process T ctx p) (\<lambda>_. gen_request_id ctx)) w1 = [(w3, Done (- 1))]"
proof -
  let ?w = "with_counter ctx (- 1) w"
  have login: "outcomes (server_process T ctx p) w = [(?w, Done ())]" by (rule server_login [OF assms(1,2)])
  obtain w2 where "outcomes (gen_request_ids n ctx) ?w = [(w2, Done (map (\<lambda>i. - 1 - of_nat i) [0..<n]))]"
    using outcomes_gen_request_ids [of ?w ctx "- 1" n] assms(1) by auto
  moreover have "outcomes (server_process T ctx p) ?w = [(with_counter ctx (- 1) ?w, Done ())]"
    using assms(1,2) by (intro server_login) simp_all
  then have "\<exists>w3. outcomes (bind (server_process T ctx p) (\<lambda>_. gen_request_id ctx)) ?w = [(w3, Done (- 1))]"
    using outcomes_gen_request_id_bind [of "with_counter ctx (- 1) ?w" ctx "- 1" Return] assms(1)
    by (simp add: outcomes_bind [of "server_process T ctx p"] bind_Return_right)
  ultimately show ?thesis using login counting_down_distinct [OF assms(3)] by blast
qed

theorem request_ids_distinct_witness:
  "\<exists>w1 w2. outcomes (server_process list_tokio demo_ctx (packet_new 1 Map.empty (Login [] [] [] 0))) demo_world = [(w1, Done ())] \<and>
     outcomes (gen_request_ids 2 demo_ctx) w1 = [(w2, Done [- 1, - 2])]"
proof -
  have "login_packet (packet_new 1 Map.empty (Login [] [] [] 0))" by (simp add: login_packet_def)
  from request_ids_distinct [OF _ this, of demo_world 2 list_tokio demo_ctx]
  show ?thesis by (auto simp: upt_rec)
qed

end
