(* ===== verification/Connector.thy ===== *)
theory Connector
  imports Connection Server Heart_Beat Auth
begin

text \<open>
  The connector, \<open>connect/src/connector.rs\<close>: the task of one connection, which calls the processor
  when the connection begins and ends and in between waits for a packet to send, a packet that was
  received, or the shutdown signal, whichever comes first.  Also \<open>im/src/main.rs\<close>: the stack of
  processors and one turn of the loop that accepts connections.  The task of a connection works on the world and on the state of its
  connection.
\<close>

type_synonym ('q, 'u, 'o, 'c, 'a) conn_task = "(('q, 'u, 'o) world \<times> 'c, 'a) prog"

text \<open>A program that does not touch the connection.\<close>

primrec on_world :: "('w, 'a) prog \<Rightarrow> ('w \<times> 'c, 'a) prog" where
  "on_world (Return a) = Return a"
| "on_world Panicked = Panicked"
| "on_world (Act g) =
     Act (\<lambda>(w, c). map (\<lambda>(w, p). ((w, c), p)) (map (map_prod id on_world) (g w)))"

section \<open>The loop of a connection\<close>

datatype flow = Continue | Exit "unit connect_result"

text \<open>What the branch of a packet to send does after the packet was taken from the channel.\<close>

definition write_packet ::
  "'c connection \<Rightarrow> (packet \<Rightarrow> serialize) \<Rightarrow> packet \<Rightarrow> ('q, 'u, 'o, 'c, flow) conn_task" where
  "write_packet C ser p =
     bind (atomic (\<lambda>(w, c). let (r, c) = conn_write C ser p c in ((w, c), r))) (\<lambda>r.
     case r of
       Ok _ \<Rightarrow> Return Continue
     | Err e \<Rightarrow> Return (Exit (Err e))
     | Panic \<Rightarrow> Panicked)"

text \<open>What the branch of \<open>next\<close> does; \<open>None\<close> is a read that did not complete a packet.\<close>

fun packet_received ::
  "conn_context \<Rightarrow> packet connect_result option \<Rightarrow> ('q, 'u, 'o, 'c, flow) conn_task" where
  "packet_received ctx None = Return Continue"
| "packet_received ctx (Some (Ok p)) = bind (on_world (spawn (Process_job ctx p))) (\<lambda>_. Return Continue)"
| "packet_received ctx (Some (Err e)) = Return (Exit (Err e))"
| "packet_received ctx (Some Panic) = Panicked"

text \<open>
  One turn of the loop.  The three lists are the branches of the \<open>select!\<close> that are ready.  A read
  that does not complete a packet leaves the loop where it was: \<open>next\<close> has no state of its own
  besides the connection, so that a turn that only read is the same as \<open>next\<close> going round again.
\<close>

definition run_connection ::
  "('q, 'u, 'o) tokio \<Rightarrow> buf_ops \<Rightarrow> 'c connection \<Rightarrow> (packet \<Rightarrow> serialize) \<Rightarrow> packet de_m \<Rightarrow>
   conn_context \<Rightarrow> nat \<Rightarrow> nat \<Rightarrow> ('q, 'u, 'o, 'c, flow) conn_task" where
  "run_connection T B C ser de ctx send_channel shutdown_channel = Act (\<lambda>(w, c).
     (case mpsc_recv (packets T) (packet_chans w send_channel) of
        None \<Rightarrow> []
      | Some (send_data, q) \<Rightarrow>
          [((w\<lparr>packet_chans := (packet_chans w)(send_channel := q)\<rparr>, c),
            case send_data of Some p \<Rightarrow> write_packet C ser p | None \<Rightarrow> Return (Exit (Ok ())))]) @
     (case next_once B C de c of
        None \<Rightarrow> []
      | Some (maybe_packet, c) \<Rightarrow> [((w, c), packet_received ctx maybe_packet)]) @
     (case mpsc_recv (signals T) (signal_chans w shutdown_channel) of
        None \<Rightarrow> []
      | Some (_, q) \<Rightarrow>
          [((w\<lparr>signal_chans := (signal_chans w)(shutdown_channel := q)\<rparr>, c), Return (Exit (Ok ())))]))"

section \<open>The task of a connection\<close>

text \<open>
  \<open>run_connection\<close> owns the receiving ends of both channels; they are dropped when it returns,
  before the processor hears of the end of the connection.
\<close>

definition drop_receivers :: "('q, 'u, 'o) tokio \<Rightarrow> nat \<Rightarrow> nat \<Rightarrow> ('q, 'u, 'o) world \<Rightarrow> ('q, 'u, 'o) world" where
  "drop_receivers T send_channel shutdown_channel w =
     w\<lparr>packet_chans := (packet_chans w)(send_channel :=
          mpsc_drop_receiver (packets T) (packet_chans w send_channel)),
       signal_chans := (signal_chans w)(shutdown_channel :=
          mpsc_drop_receiver (signals T) (signal_chans w shutdown_channel))\<rparr>"

datatype stage = Begin | Loop | End

text \<open>The stages of the task that \<open>run\<close> spawns; the result is the stage to go to, if any.\<close>

definition connection_stage ::
  "('q, 'u, 'o) tokio \<Rightarrow> buf_ops \<Rightarrow> 'c connection \<Rightarrow> (packet \<Rightarrow> serialize) \<Rightarrow> packet de_m \<Rightarrow>
   ('q, 'u, 'o) handler \<Rightarrow> conn_context \<Rightarrow> stage \<Rightarrow> ('q, 'u, 'o, 'c, stage option) conn_task" where
  "connection_stage T B C ser de P ctx st =
     (let rx = channel (handle ctx); stop = shutdown (handle ctx) in
      case st of
        Begin \<Rightarrow> bind (on_world (connected P ctx)) (\<lambda>_. Return (Some Loop))
      | Loop \<Rightarrow>
          bind (run_connection T B C ser de ctx rx stop) (\<lambda>r.
          case r of
            Continue \<Rightarrow> Return (Some Loop)
          | Exit _ \<Rightarrow> bind (on_world (modify (drop_receivers T rx stop))) (\<lambda>_. Return (Some End)))
      | End \<Rightarrow> bind (on_world (disconnected P ctx)) (\<lambda>_. Return None))"

text \<open>
  The connector keeps the processor, of which every task has a clone; the markers of its type parameters hold no data.  \<open>Connector::run\<close> up to the spawned task: the
  channels, the handle and the context.
\<close>

record ('q, 'u, 'o) connector =
  con_processor :: "('q, 'u, 'o) handler"

definition connector_new :: "('q, 'u, 'o) handler \<Rightarrow> ('q, 'u, 'o) connector" where
  "connector_new processor = \<lparr>con_processor = processor\<rparr>"

definition connector_run :: "('q, 'u, 'o) tokio \<Rightarrow> rstring \<Rightarrow> ('q, 'u, 'o, conn_context) task" where
  "connector_run T key =
     bind (new_packet_chan T 256) (\<lambda>sender.
     bind (new_signal_chan T 1) (\<lambda>shut.
     context_new key (handle_new sender shut)))"

section \<open>The main program\<close>

text \<open>The stack of processors, and the connector that \<open>main\<close> runs with it, on the state that it starts with.\<close>

definition connector_init ::
  "('q, 'u, 'o) tokio \<Rightarrow> buf_ops \<Rightarrow> crypto_ops \<Rightarrow> nat \<Rightarrow> nat \<Rightarrow> ('q, 'u, 'o) connector" where
  "connector_init T B X heart_beat state_update =
     (let auth_server = token_auth_server B X;
          processor = state_support_processor T online_state_server auth_server state_update (server T);
          processor = heart_beat_processor T heart_beat processor;
          processor = sync_message_processor T processor
      in connector_new processor)"

definition main_processor ::
  "('q, 'u, 'o) tokio \<Rightarrow> buf_ops \<Rightarrow> crypto_ops \<Rightarrow> ('q, 'u, 'o) handler" where
  "main_processor T B X = con_processor (connector_init T B X (secs 10) (secs 30))"

text \<open>The stack taken apart: what is left of it below each middleware.\<close>

definition inner_stack ::
  "('q, 'u, 'o) tokio \<Rightarrow> buf_ops \<Rightarrow> crypto_ops \<Rightarrow> ('q, 'u, 'o) handler" where
  "inner_stack T B X =
     state_support_processor T online_state_server (token_auth_server B X) (secs 30) (server T)"

lemma main_process:
  "process (main_processor T B X) ctx p = sync_process T (heart_beat_processor T (secs 10) (inner_stack T B X)) ctx p"
  "process (heart_beat_processor T i P) ctx p = hb_process T P ctx p"
  "process (inner_stack T B X) ctx p = ss_process T (token_auth_server B X) (secs 30) (server T) ctx p"
  "process (server T) ctx p = server_process T ctx p"
  by (simp_all add: main_processor_def connector_init_def connector_new_def Let_def sync_message_processor_def
      heart_beat_processor_def inner_stack_def state_support_processor_def server_def)

definition main_state :: "('q, 'u, 'o) world \<Rightarrow> ('q, 'u, 'o) world" where
  "main_state w = server_new (online_state_server_new w)"

text \<open>
  One turn of the loop of \<open>main\<close> for what the listener returns: a socket with the address of its peer or an error,
  after which the loop goes on.  The task of a connection starts with the context and the connection.
\<close>

definition main_accept ::
  "('q, 'u, 'o) tokio \<Rightarrow> ('s \<times> rstring) option \<Rightarrow>
   ('q, 'u, 'o, (conn_context \<times> 's tcp_connection) option) task" where
  "main_accept T accepted =
     (case accepted of
        Some (socket, addr) \<Rightarrow>
          let conn = tcp_connection_new socket in
          bind (connector_run T addr) (\<lambda>ctx. Return (Some (ctx, conn)))
      | None \<Rightarrow> Return None)"

end
