(* ===== verification/System.thy ===== *)
theory System
  imports Connector
begin

text \<open>
  The running server: the connections, the tasks that were spawned and the scheduler that lets any
  of them act.  Also what the handlers can change in one step, for any relation between states
  that allows the steps all handlers take.
\<close>

section \<open>The scheduler\<close>

text \<open>The program of a spawned task; the result is the task to go on as, for the loop of the reactor.\<close>

definition start_job ::
  "('q, 'u, 'o) tokio \<Rightarrow> ('q, 'u, 'o) handler \<Rightarrow> ('q, 'u, 'o) world state_server \<Rightarrow> job \<Rightarrow>
   ('q, 'u, 'o, job option) task" where
  "start_job T P S j =
     (case j of
        Process_job ctx p \<Rightarrow> bind (process P ctx p) (\<lambda>_. Return None)
      | Heartbeat_job hb \<Rightarrow> bind (heartbeat_run T hb) (\<lambda>again. Return (if again then Some j else None))
      | Update_state_job k ctx \<Rightarrow> bind (update_state_task S k ctx) (\<lambda>_. Return None))"

record ('q, 'u, 'o, 'c) link =
  link_ctx :: conn_context
  link_conn :: 'c
  link_prog :: "('q, 'u, 'o, 'c, stage option) conn_task"

text \<open>\<open>job_log\<close> records, for the statements about a run, every task that was started.\<close>

record ('q, 'u, 'o, 'c) system =
  sys_world :: "('q, 'u, 'o) world"
  links :: "('q, 'u, 'o, 'c) link list"
  tasks :: "('q, 'u, 'o, job option) task list"
  job_log :: "job list"

text \<open>What the code of a server is given: the libraries, the connection, the codec and the processor.\<close>

record ('q, 'u, 'o, 'c) server_setup =
  su_tokio :: "('q, 'u, 'o) tokio"
  su_bytes :: buf_ops
  su_conn :: "'c connection"
  su_ser :: "packet \<Rightarrow> serialize"
  su_de :: "packet de_m"
  su_processor :: "('q, 'u, 'o) handler"
  su_state :: "('q, 'u, 'o) world state_server"
  su_peer :: "'c \<Rightarrow> 'c \<Rightarrow> bool"

definition stage_prog ::
  "('q, 'u, 'o, 'c) server_setup \<Rightarrow> conn_context \<Rightarrow> stage \<Rightarrow> ('q, 'u, 'o, 'c, stage option) conn_task" where
  "stage_prog U = connection_stage (su_tokio U) (su_bytes U) (su_conn U) (su_ser U) (su_de U) (su_processor U)"

text \<open>
  One step of the server: a connection is accepted; a connection or a task acts, goes on to its
  next stage or dies; a spawned task starts; time passes; the peer of a connection does something.
\<close>

inductive sys_step ::
  "('q, 'u, 'o, 'c) server_setup \<Rightarrow> ('q, 'u, 'o, 'c) system \<Rightarrow> ('q, 'u, 'o, 'c) system \<Rightarrow> bool"
  for U :: "('q, 'u, 'o, 'c) server_setup" where
  step_accept:
    "(w, Done ctx) \<in> set (outcomes (connector_run (su_tokio U) key) (sys_world s)) \<Longrightarrow>
     sys_step U s (s\<lparr>sys_world := w,
       links := links s @ [\<lparr>link_ctx = ctx, link_conn = c, link_prog = stage_prog U ctx Begin\<rparr>]\<rparr>)"
| step_link:
    "i < length (links s) \<Longrightarrow> link_prog (links s ! i) = Act g \<Longrightarrow>
     ((w, c), p) \<in> set (g (sys_world s, link_conn (links s ! i))) \<Longrightarrow>
     sys_step U s (s\<lparr>sys_world := w, links := (links s)[i := (links s ! i)\<lparr>link_conn := c, link_prog := p\<rparr>]\<rparr>)"
| step_stage:
    "i < length (links s) \<Longrightarrow> link_prog (links s ! i) = Return (Some st) \<Longrightarrow>
     sys_step U s (s\<lparr>links := (links s)[i := (links s ! i)\<lparr>link_prog := stage_prog U (link_ctx (links s ! i)) st\<rparr>]\<rparr>)"
| step_link_dies:
    "i < length (links s) \<Longrightarrow> link_prog (links s ! i) = Panicked \<Longrightarrow>
     h = handle (link_ctx (links s ! i)) \<Longrightarrow>
     sys_step U s (s\<lparr>sys_world := drop_receivers (su_tokio U) (channel h) (shutdown h) (sys_world s),
       links := (links s)[i := (links s ! i)\<lparr>link_prog := Return None\<rparr>]\<rparr>)"
| step_task:
    "i < length (tasks s) \<Longrightarrow> tasks s ! i = Act g \<Longrightarrow> (w, p) \<in> set (g (sys_world s)) \<Longrightarrow>
     sys_step U s (s\<lparr>sys_world := w, tasks := (tasks s)[i := p]\<rparr>)"
| step_again:
    "i < length (tasks s) \<Longrightarrow> tasks s ! i = Return (Some j) \<Longrightarrow>
     sys_step U s (s\<lparr>tasks := (tasks s)[i := start_job (su_tokio U) (su_processor U) (su_state U) j],
       job_log := job_log s @ [j]\<rparr>)"
| step_spawn:
    "spawned (sys_world s) = js @ j # js' \<Longrightarrow>
     sys_step U s (s\<lparr>sys_world := (sys_world s)\<lparr>spawned := js @ js'\<rparr>,
       tasks := tasks s @ [start_job (su_tokio U) (su_processor U) (su_state U) j], job_log := job_log s @ [j]\<rparr>)"
| step_time:
    "now (sys_world s) \<le> n \<Longrightarrow> sys_step U s (s\<lparr>sys_world := (sys_world s)\<lparr>now := n\<rparr>\<rparr>)"
| step_peer:
    "i < length (links s) \<Longrightarrow> su_peer U (link_conn (links s ! i)) c \<Longrightarrow>
     sys_step U s (s\<lparr>links := (links s)[i := (links s ! i)\<lparr>link_conn := c\<rparr>]\<rparr>)"

text \<open>The server at its start: no connection, no task, nothing known.\<close>

definition initial_world :: "nat \<Rightarrow> ('q, 'u, 'o) world \<Rightarrow> bool" where
  "initial_world t w \<longleftrightarrow>
     now w = t \<and> attr_maps w = (\<lambda>_. Map.empty) \<and> notify_maps w = (\<lambda>_. Map.empty) \<and> spawned w = [] \<and>
     w = main_state w"

definition sys_start :: "('q, 'u, 'o) world \<Rightarrow> ('q, 'u, 'o, 'c) system" where
  "sys_start w = \<lparr>sys_world = w, links = [], tasks = [], job_log = []\<rparr>"

definition sys_reaches :: "('q, 'u, 'o, 'c) server_setup \<Rightarrow> ('q, 'u, 'o, 'c) system \<Rightarrow> ('q, 'u, 'o, 'c) system \<Rightarrow> bool" where
  "sys_reaches U = (sys_step U)\<^sup>*\<^sup>*"

text \<open>What \<open>main\<close> does with an accepted socket is a step that accepts a connection; a failed accept changes nothing.\<close>

lemma main_accept_step:
  assumes "(w, Done r) \<in> set (outcomes (main_accept (su_tokio U) accepted) (sys_world s))"
  shows "case r of
      None \<Rightarrow> accepted = None \<and> w = sys_world s
    | Some (ctx, c) \<Rightarrow> sys_step U s (s\<lparr>sys_world := w,
        links := links s @ [\<lparr>link_ctx = ctx, link_conn = c, link_prog = stage_prog U ctx Begin\<rparr>]\<rparr>)"
proof (cases accepted)
  case None
  then show ?thesis using assms by (simp add: main_accept_def)
next
  case (Some a)
  then obtain socket addr where a: "accepted = Some (socket, addr)" by (cases a) simp
  then obtain ctx where "(w, Done ctx) \<in> set (outcomes (connector_run (su_tokio U) addr) (sys_world s))"
      "r = Some (ctx, tcp_connection_new socket)"
    using assms by (auto simp: main_accept_def outcomes_bind_Done)
  then show ?thesis using step_accept [of w ctx U addr s "tcp_connection_new socket"] by simp
qed

lemma sys_reaches_refl [simp, intro]: "sys_reaches U s s"
  by (simp add: sys_reaches_def)

lemma sys_reaches_step: "sys_step U s t \<Longrightarrow> sys_reaches U t u \<Longrightarrow> sys_reaches U s u"
  unfolding sys_reaches_def by (rule converse_rtranclp_into_rtranclp)

lemma sys_reaches_trans: "sys_reaches U s t \<Longrightarrow> sys_reaches U t u \<Longrightarrow> sys_reaches U s u"
  unfolding sys_reaches_def by (rule rtranclp_trans)

text \<open>An invariant of the steps holds in everything that is reached.\<close>

lemma sys_reaches_invariant:
  assumes "sys_reaches U s t" and "J s" and "\<And>s t. J s \<Longrightarrow> sys_step U s t \<Longrightarrow> J t"
  shows "J t"
  using assms(1) unfolding sys_reaches_def
  by (induction rule: rtranclp_induct) (use assms(2,3) in auto)

section \<open>What the handlers change in one step\<close>

text \<open>Two worlds that differ at most in the signals, the one-shot channels and the waiters; indices are only taken.\<close>

definition same_core :: "('q, 'u, 'o) world \<Rightarrow> ('q, 'u, 'o) world \<Rightarrow> bool" where
  "same_core w w' \<longleftrightarrow>
     now w' = now w \<and> attr_maps w' = attr_maps w \<and> online_state w' = online_state w \<and>
     online_contexts w' = online_contexts w \<and> request_counter w' = request_counter w \<and>
     counter_locked w' = counter_locked w \<and> spawned w' = spawned w \<and> packet_chans w' = packet_chans w \<and>
     next_ref w \<le> next_ref w'"

lemma same_core_updates [simp, intro]:
  "same_core w w" "same_core w (w\<lparr>signal_chans := g\<rparr>)"
  "same_core w (w\<lparr>notify_maps := n\<rparr>)" "same_core w (update_oneshot u r w)"
  "same_core w (w\<lparr>next_ref := Suc (next_ref w), signal_chans := g\<rparr>)"
  "same_core w (w\<lparr>next_ref := Suc (next_ref w), oneshot_chans := q\<rparr>)"
  "same_core w (w\<lparr>next_ref := Suc (next_ref w), notify_maps := n\<rparr>)"
  "same_core w (drop_found_sender T found w)"
  "same_core w (drop_found_sender T found (w\<lparr>notify_maps := n\<rparr>))"
  by (simp_all add: same_core_def update_oneshot_def drop_found_sender_def split: option.splits)

text \<open>The type of the value that each key of the attributes is used for.\<close>

definition attribute_typed :: "rstring \<Rightarrow> any \<Rightarrow> bool" where
  "attribute_typed key v \<longleftrightarrow>
     (key = str_bytes ''SYNC_NOTIFY'' \<longrightarrow> downcast_notify_map v \<noteq> None) \<and>
     (key = str_bytes ''LAST_READ'' \<longrightarrow> downcast_instant v \<noteq> None) \<and>
     (key = str_bytes ''HEART_BEAT_REACTOR_SHUTDOWN'' \<longrightarrow> downcast_shutdown v \<noteq> None) \<and>
     (key = str_bytes ''USER_ID'' \<longrightarrow> downcast_user_id v \<noteq> None) \<and>
     (key = str_bytes ''STATE_LAST_SYNC'' \<longrightarrow> downcast_instant v \<noteq> None)"

lemma attribute_typed_known [simp, intro]:
  "attribute_typed (str_bytes ''SYNC_NOTIFY'') (Any_notify_map r)"
  "attribute_typed (str_bytes ''LAST_READ'') (Any_instant t)"
  "attribute_typed (str_bytes ''HEART_BEAT_REACTOR_SHUTDOWN'') (Any_shutdown r)"
  "attribute_typed (str_bytes ''USER_ID'') (Any_user_id k)"
  "attribute_typed (str_bytes ''STATE_LAST_SYNC'') (Any_instant t)"
  by (simp_all add: attribute_typed_def str_bytes_def)

text \<open>The only job that a task can go on as is that of a reactor.\<close>

definition only_reactor :: "job option \<Rightarrow> bool" where
  "only_reactor r \<longleftrightarrow> (\<forall>j. r = Some j \<longrightarrow> (\<exists>hb. j = Heartbeat_job hb))"

lemma only_reactor_simps [simp]: "only_reactor None" "only_reactor (Some (Heartbeat_job hb))"
  by (simp_all add: only_reactor_def)

text \<open>
  A login is sound when its token proves a good user and panics only where panics are allowed; a
  connection is sound when its reads and writes panic only there.
\<close>

definition login_sound :: "bool \<Rightarrow> (nat \<Rightarrow> u64 \<Rightarrow> bool) \<Rightarrow> buf_ops \<Rightarrow> crypto_ops \<Rightarrow> conn_context \<Rightarrow> packet \<Rightarrow> bool" where
  "login_sound Z good B X ctx p \<longleftrightarrow>
     (login_packet p \<longrightarrow> (\<forall>k. token_auth B X p = Ok k \<longrightarrow> good (attrs ctx) k) \<and> (token_auth B X p = Panic \<longrightarrow> Z))"

definition conn_sound :: "bool \<Rightarrow> buf_ops \<Rightarrow> 'c connection \<Rightarrow> (packet \<Rightarrow> serialize) \<Rightarrow> packet de_m \<Rightarrow> bool" where
  "conn_sound Z B C ser de \<longleftrightarrow>
     Z \<or> (\<forall>p c. fst (conn_write C ser p c) \<noteq> Panic) \<and> (\<forall>c d. next_once B C de c \<noteq> Some (Some Panic, d))"

lemma conn_sound_True [simp]: "conn_sound True B C ser de"
  by (simp add: conn_sound_def)

text \<open>The connection that a job is for.\<close>

primrec job_ctx :: "job \<Rightarrow> conn_context" where
  "job_ctx (Process_job ctx p) = ctx"
| "job_ctx (Heartbeat_job hb) = hb_ctx hb"
| "job_ctx (Update_state_job k ctx) = ctx"

text \<open>
  A job is allowed for a known connection, an update only of a good user.  What the server may answer to a
  packet is the acknowledgement of a message, when a user is recorded for the connection, the pong of a
  ping, and the error of a login that was rejected.  A packet is sound when its login is, when the message
  that it is, if any, may be sent to every connection of its receiver, and when its answers may be sent to
  its own connection.
\<close>

definition job_allowed :: "(nat \<Rightarrow> u64 \<Rightarrow> bool) \<Rightarrow> (conn_context \<Rightarrow> bool) \<Rightarrow> job \<Rightarrow> bool" where
  "job_allowed good known j \<longleftrightarrow> known (job_ctx j) \<and> (\<forall>k ctx. j = Update_state_job k ctx \<longrightarrow> good (attrs ctx) k)"

definition message_sound ::
  "(nat \<Rightarrow> u64 \<Rightarrow> bool) \<Rightarrow> (conn_context \<Rightarrow> bool) \<Rightarrow> (nat \<Rightarrow> packet \<Rightarrow> bool) \<Rightarrow> conn_context \<Rightarrow> packet \<Rightarrow> bool" where
  "message_sound good known sends ctx p \<longleftrightarrow>
     (\<forall>msg k rcv i. payload p = Message msg \<longrightarrow> good (attrs ctx) k \<longrightarrow> known rcv \<longrightarrow> good (attrs rcv) (msg_to msg) \<longrightarrow>
        sends (channel (handle rcv)) (packet_new i Map.empty (Message msg)))"

inductive answers :: "(nat \<Rightarrow> u64 \<Rightarrow> bool) \<Rightarrow> buf_ops \<Rightarrow> crypto_ops \<Rightarrow> conn_context \<Rightarrow> packet \<Rightarrow> packet \<Rightarrow> bool"
  for good B X ctx p where
  answers_message: "payload p = Message msg \<Longrightarrow> good (attrs ctx) k \<Longrightarrow>
    answers good B X ctx p (packet_new (request_id p) Map.empty MessageSrvAck)"
| answers_ping: "gen_pong p = Ok q \<Longrightarrow> answers good B X ctx p q"
| answers_login: "login_packet p \<Longrightarrow> token_auth B X p = Err e \<Longrightarrow> answers good B X ctx p (auth_error_into_packet e)"

definition answers_sound ::
  "(nat \<Rightarrow> u64 \<Rightarrow> bool) \<Rightarrow> (nat \<Rightarrow> packet \<Rightarrow> bool) \<Rightarrow> buf_ops \<Rightarrow> crypto_ops \<Rightarrow> conn_context \<Rightarrow> packet \<Rightarrow> bool" where
  "answers_sound good sends B X ctx p \<longleftrightarrow> (\<forall>q. answers good B X ctx p q \<longrightarrow> sends (channel (handle ctx)) q)"

definition packet_sound ::
  "bool \<Rightarrow> (nat \<Rightarrow> u64 \<Rightarrow> bool) \<Rightarrow> (conn_context \<Rightarrow> bool) \<Rightarrow> (nat \<Rightarrow> packet \<Rightarrow> bool) \<Rightarrow> buf_ops \<Rightarrow> crypto_ops \<Rightarrow>
   conn_context \<Rightarrow> packet \<Rightarrow> bool" where
  "packet_sound Z good known sends B X ctx p \<longleftrightarrow>
     known ctx \<and> login_sound Z good B X ctx p \<and> message_sound good known sends ctx p \<and>
     answers_sound good sends B X ctx p"

lemma sends_all_sound [simp]: "message_sound good known (\<lambda>_ _. True) ctx p" "answers_sound good (\<lambda>_ _. True) B X ctx p"
  by (simp_all add: message_sound_def answers_sound_def)

lemma answers_soundD:
  assumes "answers_sound good sends B X ctx p"
  shows "payload p = Message msg \<Longrightarrow> good (attrs ctx) k \<Longrightarrow>
           sends (channel (handle ctx)) (packet_new (request_id p) Map.empty MessageSrvAck)"
    and "gen_pong p = Ok q \<Longrightarrow> sends (channel (handle ctx)) q"
    and "login_packet p \<Longrightarrow> token_auth B X p = Err e \<Longrightarrow> sends (channel (handle ctx)) (auth_error_into_packet e)"
  using assms unfolding answers_sound_def by (blast intro: answers.intros)+

text \<open>A relation that does not restrict the request counter allows its critical sections.\<close>

locale counter_steps =
  fixes Z :: bool and I :: "('q, 'u, 'o) world \<Rightarrow> bool" and R :: "('q, 'u, 'o) world \<Rightarrow> ('q, 'u, 'o) world \<Rightarrow> bool"
  assumes idle: "I w \<Longrightarrow> R w w"
    and counter: "I w \<Longrightarrow> R w (w\<lparr>counter_locked := b\<rparr>)" "I w \<Longrightarrow> R w (w\<lparr>request_counter := m\<rparr>)"
begin

lemma counter_keeps:
  "keeping Z I R lock_counter" "keeping Z I R unlock_counter" "keeping Z I R (counter_get k)"
  "keeping Z I R (counter_insert k c)"
  unfolding lock_counter_def unlock_counter_def counter_get_def counter_insert_def
  by (auto intro!: keeps_await keeps_modify keeps_gets idle counter split: if_splits)

lemma counting: "keeping Z I R (gen_request_id ctx)"
  unfolding gen_request_id_def by (auto intro!: keeping_bind counter_keeps split: option.split)

lemma counter_section: "keeping Z I R (bind lock_counter (\<lambda>_. bind (counter_insert i c) (\<lambda>_. unlock_counter)))"
  by (intro keeping_bind counter_keeps)

end

text \<open>
  The contract of a relation \<open>R\<close> on the states in which \<open>I\<close> holds: it allows the steps that no
  handler can do without.  \<open>good m k\<close> restricts the users: \<open>k\<close> may be recorded for the attributes
  \<open>m\<close> and for the contexts that have them, in the directory and in the jobs that update it; what is
  recorded as the user of a context is good.  \<open>known\<close> restricts the contexts of jobs and of the directory,
  \<open>own\<close> the contexts whose attributes may be written and whose queue may be taken from or dropped, and \<open>sends r p\<close> the
  packets that may be put into the channel \<open>r\<close>.  The two critical sections of the
  request counter are assumed as wholes.
\<close>

locale handler_steps =
  fixes T :: "('q, 'u, 'o) tokio" and Z :: bool and I :: "('q, 'u, 'o) world \<Rightarrow> bool"
    and R :: "('q, 'u, 'o) world \<Rightarrow> ('q, 'u, 'o) world \<Rightarrow> bool"
    and good :: "nat \<Rightarrow> u64 \<Rightarrow> bool" and known :: "conn_context \<Rightarrow> bool" and own :: "conn_context \<Rightarrow> bool"
    and sends :: "nat \<Rightarrow> packet \<Rightarrow> bool"
  assumes core: "I w \<Longrightarrow> same_core w w' \<Longrightarrow> R w w'"
    and attribute: "I w \<Longrightarrow> own ctx \<Longrightarrow> key \<noteq> str_bytes ''USER_ID'' \<Longrightarrow> attribute_typed key v \<Longrightarrow> R w (put_attr ctx key v w)"
    and recording: "I w \<Longrightarrow> own ctx \<Longrightarrow> good (attrs ctx) k \<Longrightarrow> R w (put_attr ctx (str_bytes ''USER_ID'') (Any_user_id k) w)"
    and recorded: "I w \<Longrightarrow> attr_maps w m (str_bytes ''USER_ID'') = Some (Any_user_id k) \<Longrightarrow> good m k"
    and listed: "I w \<Longrightarrow> online_contexts w k = Some ctx \<Longrightarrow> good (attrs ctx) k \<and> known ctx"
    and spawning: "I w \<Longrightarrow> job_allowed good known j \<Longrightarrow> R w (w\<lparr>spawned := spawned w @ [j]\<rparr>)"
    and directory: "I w \<Longrightarrow> R w (w\<lparr>online_state := f\<rparr>)"
      "I w \<Longrightarrow> good (attrs ctx) k \<Longrightarrow> known ctx \<Longrightarrow> R w (w\<lparr>online_contexts := (online_contexts w)(k \<mapsto> ctx)\<rparr>)"
    and sending: "I w \<Longrightarrow> sends r p \<Longrightarrow> mpsc_send (packets T) p (packet_chans w r) = Some (ok, q) \<Longrightarrow>
           R w (w\<lparr>packet_chans := (packet_chans w)(r := q)\<rparr>)"
    and receiving: "I w \<Longrightarrow> own ctx \<Longrightarrow> mpsc_recv (packets T) (packet_chans w (channel (handle ctx))) = Some (got, q) \<Longrightarrow>
           R w (w\<lparr>packet_chans := (packet_chans w)(channel (handle ctx) := q)\<rparr>)"
    and dropping: "I w \<Longrightarrow> own ctx \<Longrightarrow> R w (drop_receivers T (channel (handle ctx)) x w)"
    and counting: "keeping Z I R (gen_request_id ctx)"
    and counter_section: "keeping Z I R (bind lock_counter (\<lambda>_. bind (counter_insert i c) (\<lambda>_. unlock_counter)))"
begin

lemma idle_step: "I w \<Longrightarrow> R w w"
  by (simp add: core)

lemma send_packet_keeps:
  assumes "sends r p"
  shows "keeping Z I R (send_packet T r p)"
  unfolding send_packet_def
proof (rule keeps_await)
  fix w w' ok
  assume w: "I w" and step: "(w', ok) \<in> set (case mpsc_send (packets T) p (packet_chans w r) of
       None \<Rightarrow> [] | Some (ok, q) \<Rightarrow> [(w\<lparr>packet_chans := (packet_chans w)(r := q)\<rparr>, ok)])"
  then obtain q where "mpsc_send (packets T) p (packet_chans w r) = Some (ok, q)"
    "w' = w\<lparr>packet_chans := (packet_chans w)(r := q)\<rparr>" by (cases "mpsc_send (packets T) p (packet_chans w r)") (auto simp del: fun_upd_apply)
  then show "R w w' \<and> True" using sending [OF w assms] by simp
qed

lemma comm_keeps:
  "keeping Z I R (send_signal T r)" "keeping Z I R (new_oneshot T)"
  "keeping Z I R (new_signal_chan T n)" "keeping Z I R new_notify_map" "keeping Z I R (notify_insert T m i q)"
  "keeping Z I R (notify_remove m i)" "keeping Z I R (modify (drop_found_sender T found))"
  "keeping Z I R (modify (update_oneshot u r))" "keeping Z I R (gets h)"
  unfolding send_signal_def new_oneshot_def new_signal_chan_def new_notify_map_def
    notify_insert_def notify_remove_def
  by (auto intro!: keeps_await keeps_atomic keeps_modify keeps_gets core simp: Let_def split: option.splits)

lemma context_keeps:
  "keeping Z I R (ctx_attr d ctx key)" "keeping Z I R (ctx_close T ctx)"
  "own ctx \<Longrightarrow> key \<noteq> str_bytes ''USER_ID'' \<Longrightarrow> attribute_typed key v \<Longrightarrow> keeping Z I R (ctx_put_attr ctx key v)"
  "job_allowed good known j \<Longrightarrow> keeping Z I R (spawn j)"
  unfolding ctx_attr_def ctx_close_def handle_close_def spawn_def ctx_put_attr_def
  by (auto intro!: keeping_bind comm_keeps keeps_modify spawning keeps_atomic simp: attribute [unfolded put_attr_def])

text \<open>Sending on a context does not panic, so that what follows need not expect it.\<close>

lemma ctx_send_keeps:
  assumes "sends (channel (handle ctx)) p" and "\<And>r. r \<noteq> Panic \<Longrightarrow> keeps Z I R Q (f r)"
  shows "keeps Z I R Q (bind (ctx_send T ctx p) f)"
proof (rule keeps_bind)
  show "keeps Z I R (\<lambda>r. r \<noteq> Panic) (ctx_send T ctx p)"
    unfolding ctx_send_def handle_send_def by (auto intro!: keeping_bind send_packet_keeps assms(1))
qed (rule assms(2))

lemma wait_keeps:
  "keeping Z I R (response_or_deadline T deadline r)" "keeping Z I R (timeout_response T d r)"
  "keeping Z I R (response_new T)"
proof -
  have drop: "I w \<Longrightarrow> R w (update_oneshot u r w)" for w u r by (simp add: core)
  show "keeping Z I R (response_or_deadline T deadline r)"
    unfolding response_or_deadline_def
    by (rule keeps_await) (auto simp: Let_def drop split: option.splits if_splits)
  then show "keeping Z I R (timeout_response T d r)" for d
    unfolding timeout_response_def response_or_deadline_def
    by (auto intro!: keeping_bind comm_keeps keeps_await simp: Let_def drop split: option.splits if_splits)
  show "keeping Z I R (response_new T)" unfolding response_new_def by (auto intro!: keeping_bind comm_keeps)
qed

lemma sync_send_keeps: "sends (channel (handle ctx)) data \<Longrightarrow> keeping Z I R (sync_send T ctx data)"
  unfolding sync_send_def
  by (auto intro!: keeping_bind ctx_send_keeps context_keeps comm_keeps wait_keeps split: option.split outcome.split)

lemma heart_beat_keeps:
  "own ctx \<Longrightarrow> keeping Z I R (kick_read ctx)" "keeps Z I R (\<lambda>(hb, r). hb_ctx hb = ctx) (heartbeat_new T i ctx)"
  "keeping Z I R (hb_disconnected T ctx)"
proof -
  have "str_bytes ''LAST_READ'' \<noteq> str_bytes ''USER_ID''" by (simp add: str_bytes_def)
  then show "own ctx \<Longrightarrow> keeping Z I R (kick_read ctx)"
    unfolding kick_read_def by (auto intro!: keeping_bind context_keeps comm_keeps)
  show "keeps Z I R (\<lambda>(hb, r). hb_ctx hb = ctx) (heartbeat_new T i ctx)" "keeping Z I R (hb_disconnected T ctx)"
    unfolding heartbeat_new_def hb_disconnected_def
    by (auto intro!: keeping_bind context_keeps comm_keeps split: option.split)
qed

lemma heartbeat_run_keeps: "keeping Z I R (heartbeat_run T hb)"
proof -
  have "keeping Z I R (last_read hb)"
    unfolding last_read_def by (auto intro!: keeping_bind context_keeps comm_keeps split: option.split)
  then show ?thesis
    unfolding heartbeat_run_def
    by (auto intro!: keeping_bind comm_keeps keeps_await core split: option.splits if_splits)
qed

lemma directory_keeps:
  "keeping Z I R (oss_put k st)" "good (attrs ctx) k \<Longrightarrow> known ctx \<Longrightarrow> keeping Z I R (oss_put_local k ctx)"
  "keeps Z I R (\<lambda>r. \<forall>ctx. r = Some ctx \<longrightarrow> good (attrs ctx) k \<and> known ctx) (oss_get_context k)"
  unfolding oss_put_def oss_put_local_def oss_get_context_def
  by (auto intro!: keeps_modify keeps_atomic keeps_gets comm_keeps directory idle_step dest: listed)

lemma update_state_task_keeps:
  assumes "good (attrs ctx) k" and "known ctx" and "own ctx"
  shows "keeping Z I R (update_state_task online_state_server k ctx)"
proof -
  have "str_bytes ''STATE_LAST_SYNC'' \<noteq> str_bytes ''USER_ID''" by (simp add: str_bytes_def)
  then show ?thesis
    unfolding update_state_task_def online_state_server_def
    by (auto intro!: keeping_bind context_keeps comm_keeps directory_keeps assms)
qed

lemma server_process_keeps:
  assumes "message_sound good known sends ctx p" and "answers_sound good sends B X ctx p" and "good (attrs ctx) k"
  shows "keeping Z I R (server_process T ctx p)"
proof -
  have online: "keeps Z I R (\<lambda>r. r \<noteq> Panic \<and> (\<forall>ctx. r = Ok ctx \<longrightarrow> good (attrs ctx) k \<and> known ctx)) (get_context k)" for k
    unfolding get_context_def by (rule keeps_bind [OF directory_keeps(3)]) (auto split: option.split)
  have "keeping Z I R (server_send T msg)" if "payload p = Message msg" for msg
    unfolding server_send_def
    by (rule keeps_bind [OF online])
      (use assms that in \<open>auto intro!: keeping_bind counting sync_send_keeps simp: message_sound_def split: outcome.split\<close>)
  then show ?thesis
    unfolding server_process_def process_message_def
    by (auto intro!: keeping_bind ctx_send_keeps counter_section answers_soundD(1) [OF assms(2) _ assms(3)]
        simp: Let_def packet_request_id_def split: payload.split outcome.split)
qed

text \<open>A user that \<open>current_user\<close> yields is good; a login must be of a good user.\<close>

lemma current_user_keeps: "keeps Z I R (\<lambda>r. \<forall>k. r = Some k \<longrightarrow> good (attrs ctx) k) (current_user ctx)"
  unfolding current_user_def ctx_attr_def
  by (rule keeps_gets) (auto simp: core bind_eq_Some_conv elim!: downcast_user_id.elims dest: recorded)

lemma ss_process_keeps:
  assumes "\<And>k. good (attrs ctx) k \<Longrightarrow> keeping Z I R (process inner ctx p)"
    and "login_sound Z good B X ctx p" and "known ctx" and "answers_sound good sends B X ctx p" and "own ctx"
  shows "keeping Z I R (ss_process T (token_auth_server B X) u inner ctx p)"
proof -
  have login: "keeping Z I R (ctx_put_attr ctx (str_bytes ''USER_ID'') (Any_user_id k))" if "good (attrs ctx) k" for k
    unfolding ctx_put_attr_def using recording [OF _ assms(5) that] by (auto intro!: keeps_atomic simp: put_attr_def)
  have update: "keeping Z I R (update_state k ctx)" if "good (attrs ctx) k" for k
    unfolding update_state_def using that assms(3) by (intro context_keeps(4)) (simp add: job_allowed_def)
  have known: "keeping Z I R (bind (state_last_update ctx) (\<lambda>last. bind (case last of
          Some t \<Rightarrow> bind (gets (\<lambda>w. now w - t)) (\<lambda>elapsed. if elapsed > u then update_state k ctx else Return ())
        | None \<Rightarrow> update_state k ctx) (\<lambda>_. process inner ctx p)))" if "good (attrs ctx) k" for k
    unfolding state_last_update_def
    by (auto intro!: keeping_bind context_keeps(1) comm_keeps update that assms(1) [OF that] split: option.split)
  have rest: "keeping Z I R (bind (current_user ctx) (\<lambda>user. case user of
          None \<Rightarrow> ctx_close T ctx
        | Some k \<Rightarrow> bind (state_last_update ctx) (\<lambda>last. bind (case last of
            Some t \<Rightarrow> bind (gets (\<lambda>w. now w - t)) (\<lambda>elapsed. if elapsed > u then update_state k ctx else Return ())
          | None \<Rightarrow> update_state k ctx) (\<lambda>_. process inner ctx p))))"
    by (rule keeps_bind [OF current_user_keeps]) (auto intro!: known context_keeps(2) split: option.split)
  show ?thesis
    unfolding ss_process_def token_auth_server_def
    using rest assms(2)
    by (auto simp: login_sound_def intro!: keeping_bind ctx_send_keeps answers_soundD(3) [OF assms(4)] login update context_keeps(2) intro: assms(1) split: outcome.split)
qed

lemma stack_keeps:
  shows "known ctx \<Longrightarrow> own ctx \<Longrightarrow> keeping Z I R (connected (main_processor T B X) ctx)"
    and "keeping Z I R (disconnected (main_processor T B X) ctx)"
    and "packet_sound Z good known sends B X ctx p \<Longrightarrow> own ctx \<Longrightarrow> keeping Z I R (process (main_processor T B X) ctx p)"
proof -
  note stack = main_processor_def connector_init_def connector_new_def Let_def sync_message_processor_def heart_beat_processor_def
    state_support_processor_def server_def
  have keys: "str_bytes ''SYNC_NOTIFY'' \<noteq> str_bytes ''USER_ID''"
    "str_bytes ''HEART_BEAT_REACTOR_SHUTDOWN'' \<noteq> str_bytes ''USER_ID''" by (simp_all add: str_bytes_def)
  have hb: "keeping Z I R (hb_connected T i inner ctx)" if "known ctx" "own ctx" "keeping Z I R (connected inner ctx)" for i and inner :: "('q, 'u, 'o) handler"
    unfolding hb_connected_def
    by (rule keeps_bind [OF heart_beat_keeps(2)])
      (use that in \<open>auto intro!: keeping_bind context_keeps comm_keeps heart_beat_keeps keys simp: job_allowed_def\<close>)
  show "known ctx \<Longrightarrow> own ctx \<Longrightarrow> keeping Z I R (connected (main_processor T B X) ctx)"
    by (simp add: stack sync_connected_def)
      (auto intro!: keeping_bind context_keeps comm_keeps keys hb simp: ss_connected_def server_connected_def)
  show "keeping Z I R (disconnected (main_processor T B X) ctx)"
    by (simp add: stack sync_disconnected_def heart_beat_keeps)
  assume sound: "packet_sound Z good known sends B X ctx p" and own: "own ctx"
  then have inner: "keeping Z I R (process (inner_stack T B X) ctx p)"
    unfolding packet_sound_def inner_stack_def state_support_processor_def server_def
    by (auto intro!: ss_process_keeps intro: server_process_keeps)
  have answers: "sends (channel (handle ctx)) q" if "gen_pong p = Ok q" for q
    using sound that by (auto simp: packet_sound_def dest: answers_soundD(2))
  from inner have "keeping Z I R (hb_process T (inner_stack T B X) ctx p)"
    unfolding hb_process_def
    by (auto intro!: keeping_bind ctx_send_keeps answers heart_beat_keeps own split: outcome.split dest: gen_pong_ping)
  with sound own show "keeping Z I R (process (main_processor T B X) ctx p)"
    by (simp add: main_process(1) sync_process_def)
      (auto intro!: keeping_bind context_keeps comm_keeps simp: main_process(2) split: option.split)
qed

text \<open>Connections: the same for programs that also work on the connection.\<close>

lemma on_world_keeps:
  "keeps Z I R Q p \<Longrightarrow> keeps Z (\<lambda>x. I (fst x)) (\<lambda>x y. R (fst x) (fst y)) Q (on_world p)"
proof (induction rule: keeps.induct)
  case (keeps_Act g)
  then show ?case by (auto intro!: keeps.keeps_Act)
qed auto

lemma run_connection_keeps:
  fixes C :: "'c connection"
  assumes "conn_sound Z B C ser de" and "known ctx" and "own ctx" and "rx = channel (handle ctx)"
  shows "keeping Z (\<lambda>x. I (fst x)) (\<lambda>x y. R (fst x) (fst y)) (run_connection T B C ser de ctx rx stop)"
proof -
  let ?keeping = "\<lambda>p :: ('q, 'u, 'o, 'c, flow) conn_task. keeping Z (\<lambda>x. I (fst x)) (\<lambda>x y. R (fst x) (fst y)) p"
  have "?keeping (write_packet C ser p)" for p
    unfolding write_packet_def
    by (rule keeps_bind [where P = "\<lambda>r. r = Panic \<longrightarrow> Z"])
      (use assms(1) in \<open>auto simp: conn_sound_def split_beta intro!: keeps_atomic idle_step split: outcome.split\<close>)
  then have sent: "R w (fst x) \<and> ?keeping p" if "I w" "(x, p) \<in> set (case mpsc_recv (packets T) (packet_chans w rx) of
        None \<Rightarrow> []
      | Some (send_data, q) \<Rightarrow>
          [((w\<lparr>packet_chans := (packet_chans w)(rx := q)\<rparr>, c),
            case send_data of Some p \<Rightarrow> write_packet C ser p | None \<Rightarrow> Return (Exit (Ok ())))])" for w x p and c :: 'c
    using that by (cases "mpsc_recv (packets T) (packet_chans w rx)") (auto simp del: fun_upd_apply intro: receiving [OF _ assms(3), folded assms(4)] split: option.splits)
  have "?keeping (packet_received ctx r)" if "next_once B C de c = Some (r, d)" for r c d
  proof -
    have "r = Some Panic \<Longrightarrow> Z" using assms(1) that by (metis conn_sound_def)
    then show ?thesis
      using assms(2)
      by (cases "(ctx, r)" rule: packet_received.cases)
        (auto intro!: keeping_bind on_world_keeps context_keeps simp: job_allowed_def)
  qed
  then have read: "R w (fst x) \<and> ?keeping p" if "I w" "(x, p) \<in> set (case next_once B C de c of
        None \<Rightarrow> []
      | Some (maybe_packet, c) \<Rightarrow> [((w, c), packet_received ctx maybe_packet)])" for w x p and c :: 'c
    using that by (cases "next_once B C de c") (auto intro: idle_step)
  have stop: "R w (fst x) \<and> ?keeping p" if "I w" "(x, p) \<in> set (case mpsc_recv (signals T) (signal_chans w stop) of
        None \<Rightarrow> []
      | Some (_, q) \<Rightarrow>
          [((w\<lparr>signal_chans := (signal_chans w)(stop := q)\<rparr>, c), Return (Exit (Ok ())))])" for w x p and c :: 'c
    using that by (cases "mpsc_recv (signals T) (signal_chans w stop)") (auto simp del: fun_upd_apply intro: core)
  show ?thesis
    unfolding run_connection_def
  proof (rule keeps.keeps_Act)
    fix x y :: "('q, 'u, 'o) world \<times> 'c" and p :: "('q, 'u, 'o, 'c, flow) conn_task"
    assume I: "I (fst x)" and step: "(y, p) \<in> set ((\<lambda>(w, c).
     (case mpsc_recv (packets T) (packet_chans w rx) of
        None \<Rightarrow> []
      | Some (send_data, q) \<Rightarrow>
          [((w\<lparr>packet_chans := (packet_chans w)(rx := q)\<rparr>, c),
            case send_data of Some p \<Rightarrow> write_packet C ser p | None \<Rightarrow> Return (Exit (Ok ())))]) @
     (case next_once B C de c of
        None \<Rightarrow> []
      | Some (maybe_packet, c) \<Rightarrow> [((w, c), packet_received ctx maybe_packet)]) @
     (case mpsc_recv (signals T) (signal_chans w stop) of
        None \<Rightarrow> []
      | Some (_, q) \<Rightarrow>
          [((w\<lparr>signal_chans := (signal_chans w)(stop := q)\<rparr>, c), Return (Exit (Ok ())))])) x)"
    obtain w c where x: "x = (w, c)" by (cases x)
    from I step show "R (fst x) (fst y) \<and> ?keeping p"
      unfolding x prod.case set_append fst_conv
      by (elim UnE) (erule (1) sent read stop)+
  qed
qed

lemma connection_stage_keeps:
  assumes "keeping Z I R (connected P ctx)" and "keeping Z I R (disconnected P ctx)" and "conn_sound Z B C ser de"
    and "known ctx" and "own ctx"
  shows "keeping Z (\<lambda>x. I (fst x)) (\<lambda>x y. R (fst x) (fst y)) (connection_stage T B C ser de P ctx st)"
proof -
  have "keeping Z I R (modify (drop_receivers T (channel (handle ctx)) r))" for r
    using assms(5) by (auto intro!: keeps_modify dropping)
  then show ?thesis
    unfolding connection_stage_def
    by (auto intro!: keeping_bind on_world_keeps assms run_connection_keeps simp: Let_def split: stage.split flow.split)
qed

lemma start_job_keeps:
  assumes "\<And>ctx p. j = Process_job ctx p \<Longrightarrow> packet_sound Z good known sends B X ctx p"
    and "\<And>k ctx. j = Update_state_job k ctx \<Longrightarrow> good (attrs ctx) k \<and> known ctx"
    and "(\<exists>hb. j = Heartbeat_job hb) \<or> own (job_ctx j)"
  shows "keeps Z I R only_reactor (start_job T (main_processor T B X) online_state_server j)"
proof (cases j)
  case (Process_job ctx p)
  show ?thesis
    unfolding start_job_def Process_job job.case
    by (rule keeping_bind, rule stack_keeps(3), rule assms(1) [OF Process_job]) (use assms(3) Process_job in simp_all)
next
  case (Heartbeat_job hb)
  then show ?thesis by (auto simp: start_job_def intro!: keeping_bind heartbeat_run_keeps)
next
  case (Update_state_job k ctx)
  then show ?thesis
    using assms(2,3) by (auto simp: start_job_def intro!: keeping_bind update_state_task_keeps)
qed

end

section \<open>Running tasks without interference\<close>

text \<open>What a program can do alone it can do in the server, while everything else waits.\<close>

lemma task_update_same [simp]: "tasks s ! i = p \<Longrightarrow> s\<lparr>tasks := (tasks s)[i := p]\<rparr> = s"
  by (cases s) auto

lemma task_advances:
  assumes "advances w p w' p'" and "i < length (tasks s)" and "tasks s ! i = p" and "sys_world s = w"
  shows "sys_reaches U s (s\<lparr>sys_world := w', tasks := (tasks s)[i := p']\<rparr>)"
  using assms
proof (induction arbitrary: s rule: advances.induct)
  case (advances_refl w p)
  then show ?case by (cases s) auto
next
  case (advances_step w1 p1 g w w2 p2)
  let ?s = "s\<lparr>sys_world := w1, tasks := (tasks s)[i := p1]\<rparr>"
  have "sys_step U s ?s" using advances_step.prems advances_step.hyps(1) by (intro step_task) auto
  moreover have "sys_reaches U ?s (?s\<lparr>sys_world := w2, tasks := (tasks ?s)[i := p2]\<rparr>)"
    using advances_step.prems by (intro advances_step.IH) auto
  ultimately show ?case by (simp add: sys_reaches_step)
qed

lemma link_advances:
  assumes "advances x p x' p'" and "i < length (links s)" and "link_prog (links s ! i) = p"
    and "x = (sys_world s, link_conn (links s ! i))"
  shows "sys_reaches U s (s\<lparr>sys_world := fst x',
      links := (links s)[i := (links s ! i)\<lparr>link_conn := snd x', link_prog := p'\<rparr>]\<rparr>)"
  using assms
proof (induction arbitrary: s rule: advances.induct)
  case (advances_refl x p)
  then show ?case by (cases s) auto
next
  case (advances_step x1 p1 g x x2 p2)
  let ?s = "s\<lparr>sys_world := fst x1, links := (links s)[i := (links s ! i)\<lparr>link_conn := snd x1, link_prog := p1\<rparr>]\<rparr>"
  have "sys_step U s ?s" using advances_step.prems advances_step.hyps(1) by (intro step_link) auto
  moreover have "sys_reaches U ?s (?s\<lparr>sys_world := fst x2,
      links := (links ?s)[i := (links ?s ! i)\<lparr>link_conn := snd x2, link_prog := p2\<rparr>]\<rparr>)"
    using advances_step.prems by (intro advances_step.IH) auto
  ultimately show ?case using advances_step.prems by (simp add: sys_reaches_step)
qed

text \<open>A spawned task is started.\<close>

lemma spawn_step:
  assumes "spawned (sys_world s) = js @ j # js'"
  shows "sys_reaches U s (s\<lparr>sys_world := (sys_world s)\<lparr>spawned := js @ js'\<rparr>,
     tasks := tasks s @ [start_job (su_tokio U) (su_processor U) (su_state U) j], job_log := job_log s @ [j]\<rparr>)"
  by (rule sys_reaches_step [OF step_spawn [OF assms] sys_reaches_refl])

text \<open>A spawned task is started and advances alone, to the program \<open>q\<close>.\<close>

lemma spawn_and_advance:
  assumes "spawned (sys_world s) = js @ j # js'"
    and "advances ((sys_world s)\<lparr>spawned := js @ js'\<rparr>) (start_job (su_tokio U) (su_processor U) (su_state U) j) w q"
  shows "sys_reaches U s (s\<lparr>sys_world := w, tasks := tasks s @ [q], job_log := job_log s @ [j]\<rparr>)"
proof -
  let ?s = "s\<lparr>sys_world := (sys_world s)\<lparr>spawned := js @ js'\<rparr>,
     tasks := tasks s @ [start_job (su_tokio U) (su_processor U) (su_state U) j], job_log := job_log s @ [j]\<rparr>"
  have "sys_reaches U ?s (?s\<lparr>sys_world := w, tasks := (tasks ?s)[length (tasks s) := q]\<rparr>)"
    by (rule task_advances [OF assms(2)]) simp_all
  from sys_reaches_trans [OF spawn_step [OF assms(1), of U] this] show ?thesis by (cases s) simp
qed

text \<open>A program that leaves the connection alone ends as it does without one.\<close>

fun on_world_ending :: "('w, 'a) ending \<Rightarrow> ('w \<times> 'c, 'a) ending" where
  "on_world_ending (Done a) = Done a"
| "on_world_ending Crashed = Crashed"
| "on_world_ending (Blocked p) = Blocked (on_world p)"

lemma outcomes_on_world:
  "outcomes (on_world p) (w, c) = map (\<lambda>(w, e). ((w, c), on_world_ending e)) (outcomes p w)"
proof (induction p arbitrary: w)
  case (Act g)
  have "concat (map (\<lambda>(x, p). outcomes p x) (map (\<lambda>(w, p). ((w, c), p)) (map (map_prod id on_world) ys))) =
      map (\<lambda>(w, e). ((w, c), on_world_ending e)) (concat (map (\<lambda>(w, p). outcomes p w) ys))"
    if "set ys \<subseteq> set (g w)" for ys
    using that
  proof (induction ys)
    case (Cons y ys)
    have "outcomes (on_world (snd y)) (fst y, c) = map (\<lambda>(w, e). ((w, c), on_world_ending e)) (outcomes (snd y) (fst y))"
      using Cons.prems by (intro Act.IH) (auto simp: prod_set_defs)
    then show ?case using Cons by (cases y) simp
  qed simp
  from this [of "g w"] show ?case by (simp add: outcomes_Act del: outcomes.simps(3))
qed simp_all

section \<open>The lock of the request counter\<close>

text \<open>
  While the lock of the request counter is held, no handler that begins releases it or changes the
  counters.
\<close>

definition frozen :: "('q, 'u, 'o) world \<Rightarrow> ('q, 'u, 'o) world \<Rightarrow> bool" where
  "frozen w w' \<longleftrightarrow> counter_locked w' \<and> request_counter w' = request_counter w"

lemma transp_frozen: "transp frozen"
  by (auto simp: transp_def frozen_def)

lemma locked_out: "keeps True counter_locked frozen Q (bind lock_counter f)"
  by (rule keeps_bind [where P = "\<lambda>_. False"])
    (auto simp: lock_counter_def intro!: keeps_await split: if_splits)

interpretation locked: handler_steps T True counter_locked frozen "\<lambda>_ _. True" "\<lambda>_. True" "\<lambda>_. True" "\<lambda>_ _. True" for T
proof
  show "keeping True counter_locked frozen (gen_request_id ctx :: ('q, 'u, 'o, u64) task)" for ctx
    unfolding gen_request_id_def by (rule locked_out)
  show "keeping True counter_locked frozen
      (bind lock_counter (\<lambda>_. bind (counter_insert k c) (\<lambda>_. unlock_counter)) :: ('q, 'u, 'o, unit) task)" for k c
    by (rule locked_out)
qed (auto simp: same_core_def frozen_def drop_receivers_def)

end
