(* ===== verification/Server_Invariants.thy ===== *)
theory Server_Invariants
  imports System
begin

text \<open>
  Invariants of the running server.  A relation that every step of every handler respects holds
  between the states of the whole server: the contract is the locale \<open>server_steps\<close>, its theorem
  \<open>server_step\<close>, and the interpretations are the request counter once its lock is held for good, the
  types of the attributes, the users that tokens prove with the directory of them, what is posted into
  the queues of the connections, the absence of panics, and the indices that the connections own.  At the end,
  \<open>handler_steps\<close> for a single connection: what the work for it touches of others.
\<close>

section \<open>The server of \<open>main\<close>\<close>

definition runs_main :: "('q, 'u, 'o, 'c) server_setup \<Rightarrow> buf_ops \<Rightarrow> crypto_ops \<Rightarrow> bool" where
  "runs_main U B X \<longleftrightarrow>
     su_processor U = main_processor (su_tokio U) B X \<and> su_state U = online_state_server"

lemma runs_main_parts:
  "runs_main U B X \<Longrightarrow> su_processor U = main_processor (su_tokio U) B X"
  "runs_main U B X \<Longrightarrow> su_state U = online_state_server"
  by (simp_all add: runs_main_def)

lemma outcomes_connector_run:
  "outcomes (connector_run T key) w =
     (let r = next_ref w in
      [(w\<lparr>next_ref := r + 3,
          packet_chans := (packet_chans w)(r := mpsc_channel (packets T) 256),
          signal_chans := (signal_chans w)(r + 1 := mpsc_channel (signals T) 1),
          attr_maps := (attr_maps w)(r + 2 := Map.empty)\<rparr>,
        Done \<lparr>connection_id = key, handle = \<lparr>channel = r, shutdown = r + 1\<rparr>, attrs = r + 2\<rparr>)])"
  by (simp add: connector_run_def new_packet_chan_def new_signal_chan_def context_new_def new_attr_map_def
      handle_new_def bind_assoc Let_def eval_nat_numeral)

lemma job_log_grows: "sys_step U s t \<Longrightarrow> set (job_log s) \<subseteq> set (job_log t)"
  by (induction rule: sys_step.induct) auto

lemma link_ctx_update:
  "link_ctx l = link_ctx (ls ! i) \<Longrightarrow> link_ctx ` set (ls[i := l]) = link_ctx ` set ls"
  by (metis list_update_id map_update set_map)

lemma link_ctxs_grow: "sys_step U s t \<Longrightarrow> link_ctx ` set (links s) \<subseteq> link_ctx ` set (links t)"
  by (induction rule: sys_step.induct) (simp_all add: link_ctx_update subset_insertI)

section \<open>What all tasks and connections keep\<close>

definition tasks_keep ::
  "bool \<Rightarrow> (('q, 'u, 'o) world \<Rightarrow> bool) \<Rightarrow> (('q, 'u, 'o) world \<Rightarrow> ('q, 'u, 'o) world \<Rightarrow> bool) \<Rightarrow>
   ('q, 'u, 'o, job option) task list \<Rightarrow> bool" where
  "tasks_keep Z I R ps \<longleftrightarrow> (\<forall>p\<in>set ps. keeps Z I R only_reactor p)"

definition link_keeps ::
  "bool \<Rightarrow> (('q, 'u, 'o) world \<Rightarrow> bool) \<Rightarrow> (('q, 'u, 'o) world \<Rightarrow> ('q, 'u, 'o) world \<Rightarrow> bool) \<Rightarrow>
   ('q, 'u, 'o, 'c, 'a) conn_task \<Rightarrow> bool" where
  "link_keeps Z I R p \<longleftrightarrow> keeping Z (\<lambda>x. I (fst x)) (\<lambda>x y. R (fst x) (fst y)) p"

definition links_keep ::
  "bool \<Rightarrow> (('q, 'u, 'o) world \<Rightarrow> bool) \<Rightarrow> (('q, 'u, 'o) world \<Rightarrow> ('q, 'u, 'o) world \<Rightarrow> bool) \<Rightarrow>
   ('q, 'u, 'o, 'c) link list \<Rightarrow> bool" where
  "links_keep Z I R ls \<longleftrightarrow> (\<forall>l\<in>set ls. link_keeps Z I R (link_prog l))"

lemma link_keeps_Return [simp]: "link_keeps Z I R (Return a)"
  by (simp add: link_keeps_def)

lemma tasks_keep_simps [simp]:
  "tasks_keep Z I R []" "tasks_keep Z I R (ps @ qs) \<longleftrightarrow> tasks_keep Z I R ps \<and> tasks_keep Z I R qs"
  "tasks_keep Z I R (p # ps) \<longleftrightarrow> keeps Z I R only_reactor p \<and> tasks_keep Z I R ps"
  by (auto simp: tasks_keep_def)

lemma links_keep_simps [simp]:
  "links_keep Z I R []" "links_keep Z I R (ls @ ms) \<longleftrightarrow> links_keep Z I R ls \<and> links_keep Z I R ms"
  "links_keep Z I R (l # ls) \<longleftrightarrow> link_keeps Z I R (link_prog l) \<and> links_keep Z I R ls"
  by (auto simp: links_keep_def)

lemma keep_update:
  "tasks_keep Z I R ps \<Longrightarrow> keeps Z I R only_reactor p \<Longrightarrow> tasks_keep Z I R (ps[i := p])"
  "links_keep Z I R ls \<Longrightarrow> link_keeps Z I R (link_prog l) \<Longrightarrow> links_keep Z I R (ls[i := l])"
  using set_update_subset_insert [of ps i p] set_update_subset_insert [of ls i l]
  by (auto simp: tasks_keep_def links_keep_def)

lemma keep_nth:
  "tasks_keep Z I R ps \<Longrightarrow> i < length ps \<Longrightarrow> keeps Z I R only_reactor (ps ! i)"
  "links_keep Z I R ls \<Longrightarrow> i < length ls \<Longrightarrow> link_keeps Z I R (link_prog (ls ! i))"
  by (simp_all add: tasks_keep_def links_keep_def)

definition server_keeps ::
  "bool \<Rightarrow> (('q, 'u, 'o) world \<Rightarrow> bool) \<Rightarrow> (('q, 'u, 'o) world \<Rightarrow> ('q, 'u, 'o) world \<Rightarrow> bool) \<Rightarrow>
   ('q, 'u, 'o, 'c) system \<Rightarrow> bool" where
  "server_keeps Z I R s \<longleftrightarrow> I (sys_world s) \<and> tasks_keep Z I R (tasks s) \<and> links_keep Z I R (links s)"

lemma server_keeps_start [simp]: "server_keeps Z I R (sys_start w) \<longleftrightarrow> I w"
  by (simp add: server_keeps_def sys_start_def)

definition setup_sound :: "bool \<Rightarrow> ('q, 'u, 'o, 'c) server_setup \<Rightarrow> bool" where
  "setup_sound Z U \<longleftrightarrow> conn_sound Z (su_bytes U) (su_conn U) (su_ser U) (su_de U)"

lemma setup_sound_True [simp]: "setup_sound True U"
  by (simp add: setup_sound_def)

text \<open>
  The contract for the whole server: \<open>R\<close> allows the remaining steps as well and keeps \<open>I\<close>, the jobs that
  are to start are allowed, and the packets among the \<open>started\<close> jobs are sound.
\<close>

locale server_steps = handler_steps T Z I R good known known sends
  for T :: "('q, 'u, 'o) tokio" and Z :: bool and I :: "('q, 'u, 'o) world \<Rightarrow> bool"
    and R :: "('q, 'u, 'o) world \<Rightarrow> ('q, 'u, 'o) world \<Rightarrow> bool"
    and good :: "nat \<Rightarrow> u64 \<Rightarrow> bool" and known :: "conn_context \<Rightarrow> bool" and sends :: "nat \<Rightarrow> packet \<Rightarrow> bool" +
  fixes B :: buf_ops and X :: crypto_ops and started :: "job \<Rightarrow> bool"
  assumes kept: "I w \<Longrightarrow> R w w' \<Longrightarrow> I w'"
    and received: "started (Process_job ctx p) \<Longrightarrow> known ctx \<Longrightarrow> packet_sound Z good known sends B X ctx p"
    and pending: "I w \<Longrightarrow> j \<in> set (spawned w) \<Longrightarrow> job_allowed good known j"
    and accepting: "I w \<Longrightarrow> same_core (w\<lparr>attr_maps := attr_maps w', packet_chans := packet_chans w'\<rparr>) w' \<Longrightarrow>
           attr_maps w' = (attr_maps w)(r := Map.empty) \<Longrightarrow>
           packet_chans w' = (packet_chans w)(r' := mpsc_channel (packets T) 256) \<Longrightarrow> R w w'"
    and starting: "I w \<Longrightarrow> set js \<subseteq> set (spawned w) \<Longrightarrow> R w (w\<lparr>spawned := js\<rparr>)"
    and passing: "I w \<Longrightarrow> R w (w\<lparr>now := n\<rparr>)"
begin

lemma job_keeps:
  assumes "runs_main U B X" and "su_tokio U = T" and "started j" and "(\<exists>hb. j = Heartbeat_job hb) \<or> job_allowed good known j"
  shows "keeps Z I R only_reactor (start_job (su_tokio U) (su_processor U) (su_state U) j)"
  using assms(3,4) received unfolding runs_main_parts [OF assms(1)] assms(2)
  by (intro start_job_keeps) (auto simp: job_allowed_def)

lemma stage_keeps:
  assumes "runs_main U B X" and "su_tokio U = T" and "setup_sound Z U" and "known ctx"
  shows "link_keeps Z I R (stage_prog U ctx st)"
  using assms(3,4) unfolding stage_prog_def link_keeps_def setup_sound_def runs_main_parts [OF assms(1)] assms(2)
  by (intro connection_stage_keeps stack_keeps(1,2))

lemma server_step:
  assumes "runs_main U B X" and "su_tokio U = T" and "setup_sound Z U" and "sys_step U s t"
    and "\<forall>j\<in>set (job_log t). started j" and "\<forall>l\<in>set (links t). known (link_ctx l)" and "server_keeps Z I R s"
  shows "server_keeps Z I R t \<and> R (sys_world s) (sys_world t)"
proof -
  note stage = stage_keeps [OF assms(1-3)]
  have "R (sys_world s) (sys_world t) \<and> tasks_keep Z I R (tasks t) \<and> links_keep Z I R (links t)"
    using assms(4-7)
  proof (induction rule: sys_step.induct)
    case (step_accept w ctx key s c)
    then have "R (sys_world s) w"
      using assms(2)
      by (intro accepting [of "sys_world s" w "next_ref (sys_world s) + 2" "next_ref (sys_world s)"])
        (auto simp: outcomes_connector_run Let_def server_keeps_def same_core_def)
    then show ?case
      using step_accept(3,4) stage by (simp add: server_keeps_def)
  next
    case (step_link i s g w c p)
    have "link_keeps Z I R (Act g)" using step_link(1,2,6) keep_nth(2) unfolding server_keeps_def by metis
    from keeps_Act_step [OF this [unfolded link_keeps_def] _ step_link(3)] step_link(6)
    have "R (sys_world s) w" "link_keeps Z I R p" by (simp_all add: server_keeps_def link_keeps_def)
    then show ?case using step_link(6) by (simp add: server_keeps_def keep_update)
  next
    case (step_stage i s st)
    let ?l = "(links s ! i)\<lparr>link_prog := stage_prog U (link_ctx (links s ! i)) st\<rparr>"
    have "?l \<in> set ((links s)[i := ?l])" using step_stage(1) by (simp add: set_update_memI)
    then have "known (link_ctx ?l)" using step_stage(4) by auto
    then show ?case using step_stage(5) stage by (simp add: server_keeps_def keep_update idle_step)
  next
    case (step_link_dies i s h)
    have "links s ! i \<in> set (links s)" "(links s ! i)\<lparr>link_prog := Return None\<rparr> \<in>
        set ((links s)[i := (links s ! i)\<lparr>link_prog := Return None\<rparr>])"
      using step_link_dies(1) by (simp_all add: set_update_memI)
    then have "known (link_ctx (links s ! i))" using step_link_dies(5) by auto
    then show ?case using step_link_dies dropping assms(2) by (simp add: server_keeps_def keep_update)
  next
    case (step_task i s g w p)
    have "keeps Z I R only_reactor (Act g)" using step_task(1,2,6) keep_nth(1) unfolding server_keeps_def by metis
    from keeps_Act_step [OF this _ step_task(3)] step_task(6)
    have "R (sys_world s) w" "keeps Z I R only_reactor p" by (simp_all add: server_keeps_def)
    then show ?case using step_task(6) by (simp add: server_keeps_def keep_update)
  next
    case (step_again i s j)
    have "keeps Z I R only_reactor (Return (Some j))" using step_again(1,2,5) keep_nth(1) unfolding server_keeps_def by metis
    then have "\<exists>hb. j = Heartbeat_job hb" by (simp add: only_reactor_def)
    then show ?case using step_again job_keeps [OF assms(1,2)] by (simp add: server_keeps_def keep_update idle_step)
  next
    case (step_spawn s js j js')
    have "job_allowed good known j"
      using step_spawn(1,4) pending by (auto simp: server_keeps_def)
    moreover have "R (sys_world s) ((sys_world s)\<lparr>spawned := js @ js'\<rparr>)"
      using step_spawn(1,4) by (intro starting) (auto simp: server_keeps_def)
    ultimately show ?case
      using step_spawn job_keeps [OF assms(1,2)] by (simp add: server_keeps_def)
  next
    case (step_time s n)
    then show ?case by (simp add: server_keeps_def passing)
  next
    case (step_peer i s c)
    then have "link_keeps Z I R (link_prog (links s ! i))" using keep_nth(2) unfolding server_keeps_def by blast
    then show ?case using step_peer by (simp add: server_keeps_def keep_update idle_step)
  qed
  then show ?thesis using assms(7) kept unfolding server_keeps_def by blast
qed

text \<open>In everything that is reached \<open>I\<close> holds, and the states of a run are related by \<open>R\<close> one after the other.\<close>

lemma server_run:
  assumes "runs_main U B X" and "su_tokio U = T" and "setup_sound Z U" and "sys_reaches U s t"
    and "\<forall>j\<in>set (job_log t). started j" and "\<forall>l\<in>set (links t). known (link_ctx l)" and "server_keeps Z I R s"
  shows "server_keeps Z I R t \<and> R\<^sup>*\<^sup>* (sys_world s) (sys_world t)"
  using assms(4-6) unfolding sys_reaches_def
proof (induction rule: rtranclp_induct)
  case base
  then show ?case using assms(7) by simp
next
  case (step u v)
  have "\<forall>j\<in>set (job_log u). started j" "\<forall>l\<in>set (links u). known (link_ctx l)"
    using job_log_grows [OF step(2)] link_ctxs_grow [OF step(2)] step(4,5) by blast (use link_ctxs_grow [OF step(2)] step(5) in auto)
  then show ?case
    using server_step [OF assms(1-3) step(2,4,5)] step(3) by (meson rtranclp.rtrancl_into_rtrancl)
qed

lemmas server_invariant = conjunct1 [OF server_run]

end

section \<open>The request counter when its lock is held for good\<close>

interpretation stuck_server: server_steps T True counter_locked frozen "\<lambda>_ _. True" "\<lambda>_. True" "\<lambda>_ _. True" B X "\<lambda>_. True"
  for T B X
  by unfold_locales (auto simp: frozen_def same_core_def packet_sound_def login_sound_def job_allowed_def)

section \<open>The types of the attributes\<close>

definition attributes_typed :: "('q, 'u, 'o) world \<Rightarrow> bool" where
  "attributes_typed w \<longleftrightarrow> (\<forall>m key v. attr_maps w m key = Some v \<longrightarrow> attribute_typed key v)"

lemma attributes_typed_put [simp]:
  "attributes_typed w \<Longrightarrow> attribute_typed key v \<Longrightarrow> attributes_typed (put_attr ctx key v w)"
  by (simp add: attributes_typed_def)

lemma attributes_typed_cong: "attributes_typed w \<Longrightarrow> attr_maps w' = attr_maps w \<Longrightarrow> attributes_typed w'"
  by (simp add: attributes_typed_def)

interpretation typed_counter: counter_steps True attributes_typed "\<lambda>_. attributes_typed"
  by unfold_locales (auto elim: attributes_typed_cong)

interpretation typed_server: server_steps T True attributes_typed "\<lambda>_. attributes_typed" "\<lambda>_ _. True" "\<lambda>_. True" "\<lambda>_ _. True"
    B X "\<lambda>_. True" for T B X
  by unfold_locales
    (auto simp: same_core_def attributes_typed_def packet_sound_def login_sound_def job_allowed_def drop_receivers_def intro: typed_counter.counting typed_counter.counter_section
      split: if_splits)

section \<open>The users that tokens prove\<close>

text \<open>
  Among the jobs \<open>L\<close>, a login for the attributes \<open>m\<close> has a token of the user \<open>k\<close>.  All users that
  the server keeps are proven: those recorded in the attributes, those of the updates to come, and
  those in the directory.
\<close>

definition proven :: "buf_ops \<Rightarrow> crypto_ops \<Rightarrow> job set \<Rightarrow> nat \<Rightarrow> u64 \<Rightarrow> bool" where
  "proven B X L m k \<longleftrightarrow>
     (\<exists>ctx p. Process_job ctx p \<in> L \<and> attrs ctx = m \<and> login_packet p \<and> token_auth B X p = Ok k)"

definition users_proven :: "(nat \<Rightarrow> u64 \<Rightarrow> bool) \<Rightarrow> ('q, 'u, 'o) world \<Rightarrow> bool" where
  "users_proven good w \<longleftrightarrow>
     (\<forall>m k. attr_maps w m (str_bytes ''USER_ID'') = Some (Any_user_id k) \<longrightarrow> good m k) \<and>
     (\<forall>k ctx. Update_state_job k ctx \<in> set (spawned w) \<longrightarrow> good (attrs ctx) k) \<and>
     (\<forall>k ctx. online_contexts w k = Some ctx \<longrightarrow> good (attrs ctx) k)"

text \<open>A world in which nobody has logged in.\<close>

definition no_users :: "('q, 'u, 'o) world \<Rightarrow> bool" where
  "no_users w \<longleftrightarrow>
     (\<forall>m. attr_maps w m (str_bytes ''USER_ID'') = None) \<and> online_contexts w = Map.empty \<and>
     (\<forall>k ctx. Update_state_job k ctx \<notin> set (spawned w))"

lemma no_users_proven: "no_users w \<Longrightarrow> users_proven good w"
  by (simp add: no_users_def users_proven_def)

text \<open>One step of the directory of users: nothing, or a good user appears or moves to another connection.\<close>

definition publishes ::
  "(nat \<Rightarrow> u64 \<Rightarrow> bool) \<Rightarrow> (u64 \<rightharpoonup> conn_context) \<Rightarrow> (u64 \<rightharpoonup> conn_context) \<Rightarrow> bool" where
  "publishes good d d' \<longleftrightarrow> d' = d \<or> (\<exists>k ctx. good (attrs ctx) k \<and> d' = d(k \<mapsto> ctx))"

definition users_step ::
  "(nat \<Rightarrow> u64 \<Rightarrow> bool) \<Rightarrow> ('q, 'u, 'o) world \<Rightarrow> ('q, 'u, 'o) world \<Rightarrow> bool" where
  "users_step good w w' \<longleftrightarrow> users_proven good w' \<and> publishes good (online_contexts w) (online_contexts w')"

lemma users_step_same:
  "users_proven good w \<Longrightarrow> attr_maps w' = attr_maps w \<Longrightarrow> set (spawned w') \<subseteq> set (spawned w) \<Longrightarrow>
   online_contexts w' = online_contexts w \<Longrightarrow> users_step good w w'"
  by (auto simp: users_step_def users_proven_def publishes_def)

interpretation proven_counter: counter_steps True "users_proven good" "users_step good" for good
  by unfold_locales (auto intro: users_step_same)

interpretation proven_server: server_steps T True "users_proven (proven B X L)" "users_step (proven B X L)"
    "proven B X L" "\<lambda>_. True" "\<lambda>_ _. True" B X "\<lambda>j. j \<in> L" for T B X L
proof
  show "packet_sound True (proven B X L) (\<lambda>_. True) (\<lambda>_ _. True) B X ctx p" if "Process_job ctx p \<in> L" for ctx p
    using that by (auto simp: packet_sound_def login_sound_def proven_def)
qed (auto simp: same_core_def users_proven_def users_step_def publishes_def job_allowed_def drop_receivers_def
  intro: proven_counter.counting proven_counter.counter_section split: if_splits)

section \<open>The packets that are sent\<close>

text \<open>
  \<open>K\<close> are the contexts of connections, \<open>L\<close> the jobs.  A message is only in the queue of a connection on
  which a token proves its receiver, and only when it came in on a connection on which a token proves
  some user; any other packet answers one that was processed for the same connection.
\<close>

definition posted :: "buf_ops \<Rightarrow> crypto_ops \<Rightarrow> conn_context set \<Rightarrow> job set \<Rightarrow> nat \<Rightarrow> packet \<Rightarrow> bool" where
  "posted B X K L r q \<longleftrightarrow>
     (\<exists>rcv\<in>K. channel (handle rcv) = r \<and>
        ((\<exists>msg. payload q = Message msg \<and> proven B X L (attrs rcv) (msg_to msg) \<and>
            (\<exists>sdr\<in>K. \<exists>p k. Process_job sdr p \<in> L \<and> payload p = Message msg \<and> proven B X L (attrs sdr) k)) \<or>
         (\<exists>p. Process_job rcv p \<in> L \<and> answers (proven B X L) B X rcv p q)))"

lemma answersD:
  "answers good B X ctx p q \<Longrightarrow>
   request_id q = request_id p \<and>
   ((\<exists>msg k. payload p = Message msg \<and> good (attrs ctx) k \<and> payload q = MessageSrvAck) \<or>
    (\<exists>nonce. payload p = Ping nonce \<and> payload q = Pong nonce) \<or>
    (login_packet p \<and> (\<exists>e. token_auth B X p = Err e) \<and> payload q = Error 32 (str_bytes ''invalid token'')))"
  by (induction rule: answers.induct) (auto simp: rejection_packet gen_pong_def split: payload.splits if_splits)

text \<open>What is posted is a message or an answer.\<close>

lemma posted_message:
  assumes "posted B X K L r q" and "payload q = Message msg"
  shows "\<exists>rcv\<in>K. channel (handle rcv) = r \<and> proven B X L (attrs rcv) (msg_to msg) \<and>
    (\<exists>sdr\<in>K. \<exists>p k. Process_job sdr p \<in> L \<and> payload p = Message msg \<and> proven B X L (attrs sdr) k)"
proof -
  have "\<not> answers (proven B X L) B X rcv p q" for rcv p using assms(2) by (auto dest: answersD)
  then show ?thesis using assms unfolding posted_def by auto
qed

lemma posted_answer:
  assumes "posted B X K L r q" and "\<forall>msg. payload q \<noteq> Message msg"
  shows "\<exists>ctx\<in>K. \<exists>p. channel (handle ctx) = r \<and> Process_job ctx p \<in> L \<and> answers (proven B X L) B X ctx p q"
  using assms unfolding posted_def by blast

definition mail_posted ::
  "('q \<Rightarrow> packet mpsc_view) \<Rightarrow> buf_ops \<Rightarrow> crypto_ops \<Rightarrow> conn_context set \<Rightarrow> job set \<Rightarrow> ('q, 'u, 'o) world \<Rightarrow> bool" where
  "mail_posted pv B X K L w \<longleftrightarrow>
     users_proven (proven B X L) w \<and> job_ctx ` set (spawned w) \<subseteq> K \<and> ran (online_contexts w) \<subseteq> K \<and>
     (\<forall>r. \<forall>q\<in>set (queued (pv (packet_chans w r))). posted B X K L r q)"

lemma mail_posted_same:
  assumes "mail_posted pv B X K L w" and "attr_maps w' = attr_maps w" and "set (spawned w') \<subseteq> set (spawned w)"
    and "online_contexts w' = online_contexts w"
    and "\<And>r. set (queued (pv (packet_chans w' r))) \<subseteq> set (queued (pv (packet_chans w r)))"
  shows "mail_posted pv B X K L w'"
proof -
  have "users_proven (proven B X L) w'"
    using assms(1-4) by (auto simp: mail_posted_def users_proven_def)
  moreover have "job_ctx ` set (spawned w') \<subseteq> K" "ran (online_contexts w') \<subseteq> K"
    using assms(1,3,4) by (auto simp: mail_posted_def)
  moreover have "\<forall>r. \<forall>q\<in>set (queued (pv (packet_chans w' r))). posted B X K L r q"
    using assms(1,5) unfolding mail_posted_def by blast
  ultimately show ?thesis unfolding mail_posted_def by blast
qed

interpretation mail_counter: counter_steps True "mail_posted pv B X K L" "\<lambda>_. mail_posted pv B X K L" for pv B X K L
  by unfold_locales (auto intro: mail_posted_same)

lemma mpsc_queue:
  assumes "mpsc M view"
  shows "mpsc_send M x q = Some (ok, q') \<Longrightarrow> set (queued (view q')) \<subseteq> insert x (set (queued (view q)))"
    and "mpsc_recv M q = Some (got, q') \<Longrightarrow> set (queued (view q')) \<subseteq> set (queued (view q))"
proof -
  note laws = mpsc.send [OF assms] mpsc.send_gone [OF assms] mpsc.send_full [OF assms]
  show "mpsc_send M x q = Some (ok, q') \<Longrightarrow> set (queued (view q')) \<subseteq> insert x (set (queued (view q)))"
    using laws(1) [of q x] laws(2) [of q x] laws(3) [of q x]
    by (cases "receiver_gone (view q)"; cases "length (queued (view q)) < capacity (view q)") auto
  show "mpsc_recv M q = Some (got, q') \<Longrightarrow> set (queued (view q')) \<subseteq> set (queued (view q))"
    using mpsc.recv [OF assms, of q] mpsc.recv_empty [OF assms, of q]
    by (cases "queued (view q)") (auto split: if_splits)
qed

sublocale tokio_runtime \<subseteq> mail: server_steps T True "mail_posted pview B X K L" "\<lambda>_. mail_posted pview B X K L"
    "proven B X L" "\<lambda>ctx. ctx \<in> K" "posted B X K L" B X "\<lambda>j. j \<in> L" for B X K L
proof
  show "packet_sound True (proven B X L) (\<lambda>ctx. ctx \<in> K) (posted B X K L) B X ctx p" if "Process_job ctx p \<in> L" "ctx \<in> K" for ctx p
  proof -
    have "login_sound True (proven B X L) B X ctx p" using that(1) by (auto simp: login_sound_def proven_def)
    moreover have "message_sound (proven B X L) (\<lambda>ctx. ctx \<in> K) (posted B X K L) ctx p"
      using that unfolding message_sound_def posted_def by auto
    moreover have "answers_sound (proven B X L) (posted B X K L) B X ctx p"
      using that unfolding answers_sound_def posted_def by blast
    ultimately show ?thesis using that(2) by (simp add: packet_sound_def)
  qed
  show "mail_posted pview B X K L (w\<lparr>packet_chans := (packet_chans w)(r := q)\<rparr>)"
    if "mail_posted pview B X K L w" "posted B X K L r p" "mpsc_send (packets T) p (packet_chans w r) = Some (ok, q)" for w :: "('q, 'u, 'o) world" and r p ok q
    using that mpsc_queue(1) [OF pk.mpsc_axioms that(3)] by (auto simp: mail_posted_def users_proven_def)
  show "mail_posted pview B X K L (w\<lparr>packet_chans := (packet_chans w)(r := q)\<rparr>)"
    if "mail_posted pview B X K L w" "mpsc_recv (packets T) (packet_chans w r) = Some (got, q)" for w :: "('q, 'u, 'o) world" and r got q
    by (rule mail_posted_same [OF that(1)]) (use mpsc_queue(2) [OF pk.mpsc_axioms that(2)] in auto)
  show "mail_posted pview B X K L (drop_receivers T r x w)" if "mail_posted pview B X K L w" for w :: "('q, 'u, 'o) world" and r x
    by (rule mail_posted_same [OF that]) (auto simp: drop_receivers_def pk.drop_receiver)
  show "mail_posted pview B X K L w'"
    if "mail_posted pview B X K L w" "same_core (w\<lparr>attr_maps := attr_maps w', packet_chans := packet_chans w'\<rparr>) w'"
      "attr_maps w' = (attr_maps w)(r := Map.empty)" "packet_chans w' = (packet_chans w)(r' := mpsc_channel (packets T) 256)"
    for w w' :: "('q, 'u, 'o) world" and r r'
    using that pk.channel by (auto simp: mail_posted_def users_proven_def same_core_def split: if_splits)
  show "mail_posted pview B X K L (w\<lparr>spawned := js\<rparr>)"
    if "mail_posted pview B X K L w" "set js \<subseteq> set (spawned w)" for w :: "('q, 'u, 'o) world" and js
    by (rule mail_posted_same [OF that(1)]) (use that(2) in auto)
qed (auto simp: same_core_def mail_posted_def users_proven_def job_allowed_def ran_def
  intro: mail_counter.counting mail_counter.counter_section split: if_splits)

context tokio_runtime
begin

lemmas mail_invariant = mail.server_invariant

end

section \<open>Panics\<close>

text \<open>Where no login panics and the connections are sound, no step leads to a panic: there is no other restriction.\<close>

interpretation calm_counter: counter_steps False "\<lambda>_. True" "\<lambda>_ _. True"
  by unfold_locales simp_all

interpretation calm_server: server_steps T False "\<lambda>_. True" "\<lambda>_ _. True" "\<lambda>_ _. True" "\<lambda>_. True" "\<lambda>_ _. True" B X
    "\<lambda>j. \<forall>ctx p. j = Process_job ctx p \<and> login_packet p \<longrightarrow> token_auth B X p \<noteq> Panic" for T B X
  by unfold_locales (auto simp: packet_sound_def login_sound_def job_allowed_def intro: calm_counter.counting calm_counter.counter_section)

section \<open>The indices that the connections own\<close>

definition index_kept :: "('q, 'u, 'o) world \<Rightarrow> ('q, 'u, 'o) world \<Rightarrow> bool" where
  "index_kept w w' \<longleftrightarrow> next_ref w \<le> next_ref w'"

interpretation index_counter: counter_steps True "\<lambda>_. True" index_kept
  by unfold_locales (simp_all add: index_kept_def)

interpretation index_server: server_steps T True "\<lambda>_. True" index_kept "\<lambda>_ _. True" "\<lambda>_. True" "\<lambda>_ _. True" B X "\<lambda>_. True"
  for T B X
  by unfold_locales
    (auto simp: same_core_def index_kept_def packet_sound_def login_sound_def job_allowed_def drop_receivers_def intro: index_counter.counting index_counter.counter_section)

text \<open>The indices of a connection, and two connections that share none.\<close>

definition indices :: "conn_context \<Rightarrow> nat set" where
  "indices ctx = {channel (handle ctx), shutdown (handle ctx), attrs ctx}"

definition links_apart :: "nat \<Rightarrow> ('q, 'u, 'o, 'c) link list \<Rightarrow> bool" where
  "links_apart n ls \<longleftrightarrow>
     (\<forall>i<length ls. indices (link_ctx (ls ! i)) \<subseteq> {..<n}) \<and>
     (\<forall>i<length ls. \<forall>k<length ls. i \<noteq> k \<longrightarrow> indices (link_ctx (ls ! i)) \<inter> indices (link_ctx (ls ! k)) = {})"

lemma nth_update_ctx:
  "link_ctx l = link_ctx (ls ! i) \<Longrightarrow> i < length ls \<Longrightarrow> link_ctx (ls[i := l] ! k) = link_ctx (ls ! k)"
  by (cases "k = i") simp_all

lemma links_apart_update:
  "links_apart n ls \<Longrightarrow> link_ctx l = link_ctx (ls ! i) \<Longrightarrow> links_apart n (ls[i := l])"
  by (cases "i < length ls") (simp_all add: links_apart_def nth_update_ctx)

lemma links_apart_mono: "links_apart n ls \<Longrightarrow> n \<le> m \<Longrightarrow> links_apart m ls"
  unfolding links_apart_def by (meson lessThan_subset_iff subset_trans)

lemma links_apart_accept:
  assumes "links_apart n ls" and "indices (link_ctx l) \<subseteq> {n..<m}" and "n \<le> m"
  shows "links_apart m (ls @ [l])"
proof -
  have "indices (link_ctx (ls ! i)) \<inter> indices (link_ctx l) = {}" if "i < length ls" for i
    using assms(1,2) that unfolding links_apart_def by fastforce
  then show ?thesis
    using links_apart_mono [OF assms(1,3)] assms(2)
    by (fastforce simp: links_apart_def nth_append less_Suc_eq)
qed

lemma links_apart_step:
  assumes "runs_main U B X" and "sys_step U s t" and "server_keeps True (\<lambda>_. True) index_kept s"
    and "links_apart (next_ref (sys_world s)) (links s)"
  shows "links_apart (next_ref (sys_world t)) (links t)"
proof -
  have grows: "next_ref (sys_world s) \<le> next_ref (sys_world t)"
    using index_server.server_step [OF assms(1) refl _ assms(2) _ _ assms(3)] by (simp add: index_kept_def)
  show ?thesis
    using assms(2,4) grows
  proof (induction rule: sys_step.induct)
    case (step_accept w ctx key s c)
    then have "next_ref w = next_ref (sys_world s) + 3" "indices ctx \<subseteq> {next_ref (sys_world s)..<next_ref (sys_world s) + 3}"
      by (auto simp: outcomes_connector_run Let_def indices_def)
    then show ?case using step_accept(2) by (auto intro!: links_apart_accept)
  qed (auto intro!: links_apart_update elim: links_apart_mono)
qed

section \<open>What the work for one connection touches\<close>

text \<open>
  Seen from the other connections, the work for \<open>ctx\<close> writes no attributes and takes nothing from a queue:
  a packet can only be put behind those that are queued.
\<close>

definition others_kept ::
  "('q \<Rightarrow> packet mpsc_view) \<Rightarrow> conn_context \<Rightarrow> ('q, 'u, 'o) world \<Rightarrow> ('q, 'u, 'o) world \<Rightarrow> bool" where
  "others_kept pv ctx w w' \<longleftrightarrow>
     (\<forall>m. m \<noteq> attrs ctx \<longrightarrow> attr_maps w' m = attr_maps w m) \<and>
     (\<forall>r. r \<noteq> channel (handle ctx) \<longrightarrow>
        (\<exists>ps. queued (pv (packet_chans w' r)) = queued (pv (packet_chans w r)) @ ps))"

lemma mpsc_appends:
  assumes "mpsc M view" and "mpsc_send M x q = Some (ok, q')"
  shows "\<exists>ps. queued (view q') = queued (view q) @ ps"
  using mpsc.send [OF assms(1), of q x] mpsc.send_gone [OF assms(1), of q x] mpsc.send_full [OF assms(1), of q x] assms(2)
  by (cases "receiver_gone (view q)"; cases "length (queued (view q)) < capacity (view q)") auto

interpretation others_counter: counter_steps True "\<lambda>_. True" "others_kept pv ctx" for pv ctx
  by unfold_locales (simp_all add: others_kept_def)

sublocale tokio_runtime \<subseteq> apart: handler_steps T True "\<lambda>_. True" "others_kept pview ctx" "\<lambda>_ _. True" "\<lambda>_. True"
    "\<lambda>c. c = ctx" "\<lambda>_ _. True" for ctx
proof
  show "others_kept pview ctx w (w\<lparr>packet_chans := (packet_chans w)(r := q)\<rparr>)"
    if "mpsc_send (packets T) p (packet_chans w r) = Some (ok, q)" for w :: "('q, 'u, 'o) world" and r p ok q
    using mpsc_appends [OF pk.mpsc_axioms that] by (simp add: others_kept_def)
qed (auto simp: others_kept_def same_core_def drop_receivers_def pk.drop_receiver
  intro: others_counter.counting others_counter.counter_section)

context tokio_runtime
begin

lemma work_apart:
  assumes "runs_main U B X" and "su_tokio U = T"
  shows "job_ctx j = ctx \<Longrightarrow>
      keeps True (\<lambda>_. True) (others_kept pview ctx) only_reactor (start_job (su_tokio U) (su_processor U) (su_state U) j)"
    and "link_keeps True (\<lambda>_. True) (others_kept pview ctx) (stage_prog U ctx st)"
proof -
  have sound: "packet_sound True (\<lambda>_ _. True) (\<lambda>_. True) (\<lambda>_ _. True) B X ctx p" for ctx p
    by (simp add: packet_sound_def login_sound_def)
  show "keeps True (\<lambda>_. True) (others_kept pview ctx) only_reactor (start_job (su_tokio U) (su_processor U) (su_state U) j)"
    if "job_ctx j = ctx"
    unfolding runs_main_parts [OF assms(1)] assms(2) by (rule apart.start_job_keeps) (simp_all add: sound that)
  show "link_keeps True (\<lambda>_. True) (others_kept pview ctx) (stage_prog U ctx st)"
    unfolding stage_prog_def link_keeps_def runs_main_parts [OF assms(1)] assms(2)
    by (rule apart.connection_stage_keeps) (simp_all add: apart.stack_keeps)
qed

end

end
