(* ===== verification/Connection_Life.thy ===== *)
theory Connection_Life
  imports Server_Invariants Connection_Properties Heart_Beat_Properties State_Properties
begin

text \<open>
  The life of a connection in the running server: it is accepted and made ready, its queued packets
  are written, what it receives is given to the processor, it is closed or fails and ends.  And what
  holds of all connections at any time: the work for one does not touch another, and every attribute
  has the type it is read with.
\<close>

section \<open>Running one connection\<close>

text \<open>A stage of a connection that acts alone.\<close>

lemma stage_advances:
  assumes "i < length (links s)" and "link_prog (links s ! i) = Return (Some st)"
    and "advances (sys_world s, link_conn (links s ! i)) (stage_prog U (link_ctx (links s ! i)) st) (w, c) p"
  shows "sys_reaches U s (s\<lparr>sys_world := w, links := (links s)[i := (links s ! i)\<lparr>link_conn := c, link_prog := p\<rparr>]\<rparr>)"
proof -
  let ?s = "s\<lparr>links := (links s)[i := (links s ! i)\<lparr>link_prog := stage_prog U (link_ctx (links s ! i)) st\<rparr>]\<rparr>"
  have "sys_reaches U ?s (?s\<lparr>sys_world := fst (w, c),
      links := (links ?s)[i := (links ?s ! i)\<lparr>link_conn := snd (w, c), link_prog := p\<rparr>]\<rparr>)"
    by (rule link_advances [OF assms(3)]) (use assms(1) in simp_all)
  from sys_reaches_step [OF step_stage [OF assms(1,2)] this] show ?thesis
    using assms(1) by (cases s) simp
qed

lemma advances_outcome: "(x', Done a) \<in> set (outcomes p x) \<Longrightarrow> advances x p x' (Return a)"
  using outcomes_advances by fastforce

section \<open>The beginning\<close>

text \<open>The state after \<open>connected\<close> of the stack of \<open>main\<close>.\<close>

definition begun :: "('q, 'u, 'o) tokio \<Rightarrow> conn_context \<Rightarrow> ('q, 'u, 'o) world \<Rightarrow> ('q, 'u, 'o) world" where
  "begun T ctx w =
     (let m = next_ref w; r = Suc m;
          w1 = put_attr ctx (str_bytes ''SYNC_NOTIFY'') (Any_notify_map m)
                 (w\<lparr>next_ref := r, notify_maps := (notify_maps w)(m := Map.empty)\<rparr>);
          w2 = put_attr ctx (str_bytes ''HEART_BEAT_REACTOR_SHUTDOWN'') (Any_shutdown r)
                 (w1\<lparr>next_ref := Suc r, signal_chans := (signal_chans w)(r := mpsc_channel (signals T) 1)\<rparr>);
          w3 = put_attr ctx (str_bytes ''LAST_READ'') (Any_instant (now w)) w2
      in w3\<lparr>spawned := spawned w @ [Heartbeat_job \<lparr>interval = secs 10, hb_ctx = ctx, hb_shutdown = r\<rparr>]\<rparr>)"

lemma outcomes_connected:
  "outcomes (connected (main_processor T B X) ctx) w = [(begun T ctx w, Done ())]"
  by (simp add: main_processor_def connector_init_def connector_new_def Let_def sync_message_processor_def heart_beat_processor_def
      state_support_processor_def server_def sync_connected_def hb_connected_def ss_connected_def
      server_connected_def default_connected_def heartbeat_new_def new_notify_map_def new_signal_chan_def
      kick_read_def spawn_def bind_assoc begun_def)

text \<open>A connection that is ready: its attributes are recorded, its user is not known, and its reactor is to start.\<close>

definition ready :: "conn_context \<Rightarrow> nat \<Rightarrow> nat \<Rightarrow> ('q, 'u, 'o) world \<Rightarrow> bool" where
  "ready ctx m r w \<longleftrightarrow>
     registered ctx m w \<and> notify_maps w m = Map.empty \<and> last_read_at ctx (now w) w \<and> user_of ctx w = None \<and>
     attr_maps w (attrs ctx) (str_bytes ''HEART_BEAT_REACTOR_SHUTDOWN'') = Some (Any_shutdown r)"

lemma begun_ready:
  "attr_maps w (attrs ctx) = Map.empty \<Longrightarrow> ready ctx (next_ref w) (Suc (next_ref w)) (begun T ctx w)"
  by (simp add: ready_def begun_def Let_def registered_def last_read_at_def user_of_def str_bytes_def)

lemma begun_select:
  "now (begun T ctx w) = now w" "packet_chans (begun T ctx w) = packet_chans w"
  "r \<noteq> Suc (next_ref w) \<Longrightarrow> signal_chans (begun T ctx w) r = signal_chans w r"
  "counter_locked (begun T ctx w) = counter_locked w"
  "spawned (begun T ctx w) =
     spawned w @ [Heartbeat_job \<lparr>interval = secs 10, hb_ctx = ctx, hb_shutdown = Suc (next_ref w)\<rparr>]"
  by (simp_all add: begun_def Let_def)

lemma outcomes_stage_begin:
  assumes "runs_main U B X"
  shows "outcomes (stage_prog U ctx Begin) (w, c) = [((begun (su_tokio U) ctx w, c), Done (Some Loop))]"
  by (simp add: stage_prog_def connection_stage_def Let_def runs_main_parts(1) [OF assms] outcomes_bind
      outcomes_on_world outcomes_connected)

section \<open>Writing what is queued\<close>

text \<open>The packets are written one after the other, each successfully.\<close>

primrec writes :: "'c connection \<Rightarrow> ('i \<Rightarrow> serialize) \<Rightarrow> 'i list \<Rightarrow> 'c \<Rightarrow> 'c \<Rightarrow> bool" where
  "writes C ser [] c c' \<longleftrightarrow> c' = c"
| "writes C ser (p # ps) c c' \<longleftrightarrow> (\<exists>d. conn_write C ser p c = (Ok (), d) \<and> writes C ser ps d c')"

text \<open>One turn of the loop takes the packet at the head of the queue and writes it.\<close>

lemma loop_writes_head:
  assumes "mpsc_recv (packets T) (packet_chans w (channel (handle ctx))) = Some (Some p, q)"
    and "conn_write C ser p c = (Ok (), d)"
  shows "advances (w, c) (connection_stage T B C ser de P ctx Loop)
           (w\<lparr>packet_chans := (packet_chans w)(channel (handle ctx) := q)\<rparr>, d) (Return (Some Loop))"
  using assms
  by (intro advances_outcome)
    (simp add: connection_stage_def Let_def run_connection_def write_packet_def bind_assoc outcomes_Act del: outcomes.simps(3))

lemma queue_written:
  assumes "tokio_runtime (su_tokio U) pv sv ov"
  shows "i < length (links s) \<Longrightarrow> link_prog (links s ! i) = Return (Some Loop) \<Longrightarrow>
    queued (outbox pv (link_ctx (links s ! i)) (sys_world s)) = ps \<Longrightarrow>
    writes (su_conn U) (su_ser U) ps (link_conn (links s ! i)) c' \<Longrightarrow>
    \<exists>q. sys_reaches U s (s\<lparr>sys_world := (sys_world s)\<lparr>packet_chans :=
             (packet_chans (sys_world s))(channel (handle (link_ctx (links s ! i))) := q)\<rparr>,
           links := (links s)[i := (links s ! i)\<lparr>link_conn := c'\<rparr>]\<rparr>) \<and> queued (pv q) = []"
proof (induction ps arbitrary: s)
  case Nil
  have "s\<lparr>sys_world := (sys_world s)\<lparr>packet_chans := (packet_chans (sys_world s))
      (channel (handle (link_ctx (links s ! i))) := packet_chans (sys_world s) (channel (handle (link_ctx (links s ! i)))))\<rparr>,
      links := (links s)[i := (links s ! i)\<lparr>link_conn := c'\<rparr>]\<rparr> = s"
    using Nil(4) by (cases s) simp
  then show ?case using Nil(3) sys_reaches_refl [of U s] by (metis outbox_def)
next
  case (Cons p ps)
  let ?ctx = "link_ctx (links s ! i)" and ?w = "sys_world s"
  let ?r = "channel (handle ?ctx)"
  obtain q where q: "mpsc_recv (packets (su_tokio U)) (packet_chans ?w ?r) = Some (Some p, q)" "queued (pv q) = ps"
    using mpsc.recv [of "packets (su_tokio U)" pv "packet_chans ?w ?r" p ps] assms(1) Cons.prems(3)
    unfolding tokio_runtime_def outbox_def by force
  obtain d where d: "conn_write (su_conn U) (su_ser U) p (link_conn (links s ! i)) = (Ok (), d)"
    "writes (su_conn U) (su_ser U) ps d c'" using Cons.prems(4) by auto
  let ?s = "s\<lparr>sys_world := ?w\<lparr>packet_chans := (packet_chans ?w)(?r := q)\<rparr>,
      links := (links s)[i := (links s ! i)\<lparr>link_conn := d, link_prog := Return (Some Loop)\<rparr>]\<rparr>"
  have first: "sys_reaches U s ?s"
    by (rule stage_advances [OF Cons.prems(1,2)]) (unfold stage_prog_def, rule loop_writes_head [OF q(1) d(1)])
  have "\<exists>q'. sys_reaches U ?s (?s\<lparr>sys_world := (sys_world ?s)\<lparr>packet_chans :=
        (packet_chans (sys_world ?s))(channel (handle (link_ctx (links ?s ! i))) := q')\<rparr>,
      links := (links ?s)[i := (links ?s ! i)\<lparr>link_conn := c'\<rparr>]\<rparr>) \<and> queued (pv q') = []"
    by (rule Cons.IH) (use Cons.prems(1) q(2) d(2) in \<open>simp_all add: outbox_def\<close>)
  then obtain q' where rest: "queued (pv q') = []" "sys_reaches U ?s (?s\<lparr>sys_world := (sys_world ?s)\<lparr>packet_chans :=
        (packet_chans (sys_world ?s))(channel (handle (link_ctx (links ?s ! i))) := q')\<rparr>,
      links := (links ?s)[i := (links ?s ! i)\<lparr>link_conn := c'\<rparr>]\<rparr>)" by blast
  have "(links s ! i)\<lparr>link_conn := d, link_prog := Return (Some Loop), link_conn := c'\<rparr> = (links s ! i)\<lparr>link_conn := c'\<rparr>"
    using Cons.prems(2) by (cases "links s ! i") simp
  with sys_reaches_trans [OF first rest(2)] Cons.prems(1)
  have "sys_reaches U s (s\<lparr>sys_world := ?w\<lparr>packet_chans := (packet_chans ?w)(?r := q')\<rparr>,
      links := (links s)[i := (links s ! i)\<lparr>link_conn := c'\<rparr>]\<rparr>)" by simp
  then show ?case using rest(1) by blast
qed

section \<open>Reading packets\<close>

text \<open>A turn of the loop in which the socket was read but no packet completed, and one that yields a packet.\<close>

lemma loop_reads:
  assumes "next_once B C de c = Some (None, d)"
  shows "advances (w, c) (connection_stage T B C ser de P ctx Loop) (w, d) (Return (Some Loop))"
  using assms
  by (intro advances_outcome)
    (simp add: connection_stage_def Let_def run_connection_def outcomes_bind outcomes_Act del: outcomes.simps(3))

lemma loop_receives:
  assumes "next_once B C de c = Some (Some (Ok p), d)"
  shows "advances (w, c) (connection_stage T B C ser de P ctx Loop)
    (w\<lparr>spawned := spawned w @ [Process_job ctx p]\<rparr>, d) (Return (Some Loop))"
  using assms
  by (intro advances_outcome)
    (simp add: connection_stage_def Let_def run_connection_def spawn_def outcomes_bind outcomes_on_world outcomes_Act
      del: outcomes.simps(3))

lemma turns_read:
  "next_turns n (su_bytes U) (su_conn U) (su_de U) (link_conn (links s ! i)) = Some (r, c') \<Longrightarrow>
   i < length (links s) \<Longrightarrow> link_prog (links s ! i) = Return (Some Loop) \<Longrightarrow>
   \<exists>d. sys_reaches U s (s\<lparr>links := (links s)[i := (links s ! i)\<lparr>link_conn := d\<rparr>]\<rparr>) \<and>
     next_once (su_bytes U) (su_conn U) (su_de U) d = Some (Some r, c')"
proof (induction n arbitrary: s)
  case (Suc n)
  let ?l = "links s ! i"
  have idle: "?l\<lparr>link_conn := d, link_prog := Return (Some Loop)\<rparr> = ?l\<lparr>link_conn := d\<rparr>" for d
    using Suc.prems(3) by (cases ?l) simp
  obtain x d where one: "next_once (su_bytes U) (su_conn U) (su_de U) (link_conn ?l) = Some (x, d)"
    using Suc.prems(1) by (auto split: option.splits)
  show ?case
  proof (cases x)
    case None
    let ?s = "s\<lparr>links := (links s)[i := ?l\<lparr>link_conn := d\<rparr>]\<rparr>"
    have "sys_reaches U s (s\<lparr>sys_world := sys_world s, links := (links s)[i := ?l\<lparr>link_conn := d, link_prog := Return (Some Loop)\<rparr>]\<rparr>)"
      by (rule stage_advances [OF Suc.prems(2,3)]) (unfold stage_prog_def, rule loop_reads [OF one [unfolded None]])
    then have first: "sys_reaches U s ?s" unfolding idle by simp
    have "\<exists>d'. sys_reaches U ?s (?s\<lparr>links := (links ?s)[i := (links ?s ! i)\<lparr>link_conn := d'\<rparr>]\<rparr>) \<and>
        next_once (su_bytes U) (su_conn U) (su_de U) d' = Some (Some r, c')"
      by (rule Suc.IH) (use Suc.prems one None in simp_all)
    then show ?thesis using sys_reaches_trans [OF first] Suc.prems(2) by auto
  next
    case (Some r')
    have "s\<lparr>links := (links s)[i := ?l\<lparr>link_conn := link_conn ?l\<rparr>]\<rparr> = s" by (cases s) simp
    then show ?thesis using Some Suc.prems(1) one sys_reaches_refl [of U s]
      by (intro exI [of _ "link_conn ?l"]) simp
  qed
qed simp

text \<open>The last turn, which leaves the loop where it is or ends it.\<close>

lemma last_turn:
  assumes "next_turns n (su_bytes U) (su_conn U) (su_de U) (link_conn (links s ! i)) = Some (r, c')"
    and "i < length (links s)" and "link_prog (links s ! i) = Return (Some Loop)"
    and "\<And>d. next_once (su_bytes U) (su_conn U) (su_de U) d = Some (Some r, c') \<Longrightarrow>
      advances (sys_world s, d) (stage_prog U (link_ctx (links s ! i)) Loop) (w, c') (Return (Some st))"
  shows "sys_reaches U s (s\<lparr>sys_world := w,
    links := (links s)[i := (links s ! i)\<lparr>link_conn := c', link_prog := Return (Some st)\<rparr>]\<rparr>)"
proof -
  obtain d where d: "sys_reaches U s (s\<lparr>links := (links s)[i := (links s ! i)\<lparr>link_conn := d\<rparr>]\<rparr>)"
    "next_once (su_bytes U) (su_conn U) (su_de U) d = Some (Some r, c')"
    using turns_read [OF assms(1-3)] by blast
  let ?s = "s\<lparr>links := (links s)[i := (links s ! i)\<lparr>link_conn := d\<rparr>]\<rparr>"
  have "sys_reaches U ?s (?s\<lparr>sys_world := w,
      links := (links ?s)[i := (links ?s ! i)\<lparr>link_conn := c', link_prog := Return (Some st)\<rparr>]\<rparr>)"
    by (rule stage_advances) (use assms(2,3) assms(4) [OF d(2)] in simp_all)
  from sys_reaches_trans [OF d(1) this] show ?thesis using assms(2) by simp
qed

lemma turns_receive:
  assumes "next_turns n (su_bytes U) (su_conn U) (su_de U) (link_conn (links s ! i)) = Some (Ok p, c')"
    and "i < length (links s)" and "link_prog (links s ! i) = Return (Some Loop)"
  shows "sys_reaches U s (s\<lparr>sys_world := (sys_world s)\<lparr>spawned := spawned (sys_world s) @ [Process_job (link_ctx (links s ! i)) p]\<rparr>,
     links := (links s)[i := (links s ! i)\<lparr>link_conn := c'\<rparr>]\<rparr>)"
proof -
  have "(links s ! i)\<lparr>link_conn := c', link_prog := Return (Some Loop)\<rparr> = (links s ! i)\<lparr>link_conn := c'\<rparr>"
    using assms(3) by (cases "links s ! i") simp
  then show ?thesis
    using last_turn [OF assms, unfolded stage_prog_def, OF loop_receives] by simp
qed

lemma next_processed:
  assumes "conn_next (su_bytes U) (su_conn U) (su_de U) (link_conn (links s ! i)) = Some (Ok p, c')"
    and "i < length (links s)" and "link_prog (links s ! i) = Return (Some Loop)"
  shows "sys_reaches U s (s\<lparr>sys_world := (sys_world s)\<lparr>spawned := spawned (sys_world s) @ [Process_job (link_ctx (links s ! i)) p]\<rparr>,
     links := (links s)[i := (links s ! i)\<lparr>link_conn := c'\<rparr>]\<rparr>)"
  using next_turns_complete [OF assms(1)] turns_receive [OF _ assms(2,3)] by blast

section \<open>The end\<close>

lemma loop_fails:
  assumes "next_once B C de c = Some (Some (Err e), d)"
  shows "advances (w, c) (connection_stage T B C ser de P ctx Loop)
    (drop_receivers T (channel (handle ctx)) (shutdown (handle ctx)) w, d) (Return (Some End))"
  using assms
  by (intro advances_outcome)
    (simp add: connection_stage_def Let_def run_connection_def outcomes_bind outcomes_on_world outcomes_Act
      del: outcomes.simps(3))

lemma loop_shut_down:
  assumes "mpsc_recv (signals T) (signal_chans w (shutdown (handle ctx))) = Some (Some (), q)"
  shows "advances (w, c) (connection_stage T B C ser de P ctx Loop)
    (drop_receivers T (channel (handle ctx)) (shutdown (handle ctx))
       (w\<lparr>signal_chans := (signal_chans w)(shutdown (handle ctx) := q)\<rparr>), c) (Return (Some End))"
  using assms
  by (intro advances_outcome)
    (simp add: connection_stage_def Let_def run_connection_def outcomes_bind outcomes_on_world outcomes_Act
      del: outcomes.simps(3))

text \<open>The state after \<open>disconnected\<close> of the stack of \<open>main\<close>, which signals the reactor.\<close>

lemma outcomes_disconnected:
  assumes "attr_maps w (attrs ctx) (str_bytes ''HEART_BEAT_REACTOR_SHUTDOWN'') = Some (Any_shutdown r)"
    and "mpsc_send (signals T) () (signal_chans w r) = Some (True, q)"
  shows "outcomes (disconnected (main_processor T B X) ctx) w = [(w\<lparr>signal_chans := (signal_chans w)(r := q)\<rparr>, Done ())]"
  using assms
  by (simp add: main_processor_def connector_init_def connector_new_def Let_def sync_message_processor_def heart_beat_processor_def
      sync_disconnected_def hb_disconnected_def send_signal_def outcomes_await_bind)

lemma end_disconnects:
  assumes "runs_main U B X"
    and "attr_maps w (attrs ctx) (str_bytes ''HEART_BEAT_REACTOR_SHUTDOWN'') = Some (Any_shutdown r)"
    and "mpsc_send (signals (su_tokio U)) () (signal_chans w r) = Some (True, q)"
  shows "advances (w, c) (stage_prog U ctx End) (w\<lparr>signal_chans := (signal_chans w)(r := q)\<rparr>, c) (Return None)"
  by (rule advances_outcome)
    (simp add: stage_prog_def connection_stage_def Let_def runs_main_parts(1) [OF assms(1)] outcomes_bind
      outcomes_on_world outcomes_disconnected [OF assms(2,3)])

text \<open>
  A connection that has left its loop in the world \<open>v\<close>: the reactor is signalled, the receiving ends are gone, and
  the directory is as it was.
\<close>

definition ended :: "('q \<Rightarrow> packet mpsc_view) \<Rightarrow> ('u \<Rightarrow> unit mpsc_view) \<Rightarrow> conn_context \<Rightarrow> nat \<Rightarrow>
    ('q, 'u, 'o) world \<Rightarrow> ('q, 'u, 'o) world \<Rightarrow> bool" where
  "ended pv sv ctx r w w' \<longleftrightarrow>
     receiver_gone (outbox pv ctx w') \<and> receiver_gone (close_requests sv ctx w') \<and> queued (sv (signal_chans w' r)) \<noteq> [] \<and>
     online_state w' = online_state w \<and> online_contexts w' = online_contexts w \<and>
     attr_maps w' = attr_maps w \<and> now w' = now w"

lemma loop_left:
  assumes "runs_main U B X" and "tokio_runtime (su_tokio U) pv sv ov" and "i < length (links s)"
    and "attr_maps w (attrs ctx) (str_bytes ''HEART_BEAT_REACTOR_SHUTDOWN'') = Some (Any_shutdown r)"
    and "r \<noteq> shutdown (handle ctx)" and "accepts (sv (signal_chans w r))" and "ctx = link_ctx (links s ! i)"
    and "\<And>x. x \<noteq> shutdown (handle ctx) \<Longrightarrow> f x = signal_chans w x"
    and "sys_reaches U s (s\<lparr>sys_world := drop_receivers (su_tokio U) (channel (handle ctx)) (shutdown (handle ctx)) (w\<lparr>signal_chans := f\<rparr>),
      links := (links s)[i := (links s ! i)\<lparr>link_conn := c, link_prog := Return (Some End)\<rparr>]\<rparr>)"
  shows "\<exists>t. sys_reaches U s t \<and> link_prog (links t ! i) = Return None \<and> ended pv sv ctx r w (sys_world t)"
proof -
  let ?v = "drop_receivers (su_tokio U) (channel (handle ctx)) (shutdown (handle ctx)) (w\<lparr>signal_chans := f\<rparr>)"
  let ?s = "s\<lparr>sys_world := ?v, links := (links s)[i := (links s ! i)\<lparr>link_conn := c, link_prog := Return (Some End)\<rparr>]\<rparr>"
  have laws: "mpsc (packets (su_tokio U)) pv" "mpsc (signals (su_tokio U)) sv" using assms(2) by (simp_all add: tokio_runtime_def)
  obtain q where q: "mpsc_send (signals (su_tokio U)) () (signal_chans w r) = Some (True, q)"
    "queued (sv q) = queued (sv (signal_chans w r)) @ [()]"
    using mpsc.send [OF laws(2), of "signal_chans w r" "()"] assms(6) unfolding accepts_def by auto
  let ?u = "?v\<lparr>signal_chans := (signal_chans ?v)(r := q)\<rparr>"
  have fin: "advances (?v, c) (stage_prog U ctx End) (?u, c) (Return None)"
    by (rule end_disconnects [OF assms(1)]) (use assms(4,5,8) q(1) in \<open>simp_all add: drop_receivers_def\<close>)
  have "sys_reaches U ?s (?s\<lparr>sys_world := ?u, links := (links ?s)[i := (links ?s ! i)\<lparr>link_conn := c, link_prog := Return None\<rparr>]\<rparr>)"
    by (rule stage_advances) (use assms(3,7) fin in simp_all)
  from sys_reaches_trans [OF assms(9) this]
  have reached: "sys_reaches U s (?s\<lparr>sys_world := ?u, links := (links ?s)[i := (links ?s ! i)\<lparr>link_conn := c, link_prog := Return None\<rparr>]\<rparr>)" .
  have "ended pv sv ctx r w ?u"
    using assms(5) q(2) mpsc.drop_receiver [OF laws(1)] mpsc.drop_receiver [OF laws(2)]
    by (simp add: ended_def outbox_def close_requests_def drop_receivers_def)
  then show ?thesis using assms(3) by - (rule exI, intro conjI, rule reached, simp_all)
qed

lemma accept_ready:
  assumes "runs_main U B X" and "tokio_runtime (su_tokio U) pv sv ov"
  shows "\<exists>t ctx m r. sys_reaches U s t \<and>
           links t = links s @ [\<lparr>link_ctx = ctx, link_conn = c, link_prog = Return (Some Loop)\<rparr>] \<and>
           connection_id ctx = key \<and> ready ctx m r (sys_world t) \<and>
           outbox pv ctx (sys_world t) = \<lparr>queued = [], capacity = 256, receiver_gone = False, senders_gone = False\<rparr> \<and>
           close_requests sv ctx (sys_world t) =
             \<lparr>queued = [], capacity = 1, receiver_gone = False, senders_gone = False\<rparr> \<and>
           spawned (sys_world t) =
             spawned (sys_world s) @ [Heartbeat_job \<lparr>interval = secs 10, hb_ctx = ctx, hb_shutdown = r\<rparr>] \<and>
           counter_locked (sys_world t) = counter_locked (sys_world s)"
proof -
  let ?T = "su_tokio U" and ?w = "sys_world s" and ?n = "length (links s)"
  let ?i = "next_ref ?w"
  let ?ctx = "\<lparr>connection_id = key, handle = \<lparr>channel = ?i, shutdown = ?i + 1\<rparr>, attrs = ?i + 2\<rparr>"
  let ?v = "?w\<lparr>next_ref := ?i + 3, packet_chans := (packet_chans ?w)(?i := mpsc_channel (packets ?T) 256),
      signal_chans := (signal_chans ?w)(?i + 1 := mpsc_channel (signals ?T) 1),
      attr_maps := (attr_maps ?w)(?i + 2 := Map.empty)\<rparr>"
  let ?s = "s\<lparr>sys_world := ?v,
      links := links s @ [\<lparr>link_ctx = ?ctx, link_conn = c, link_prog = stage_prog U ?ctx Begin\<rparr>]\<rparr>"
  have "sys_step U s ?s" by (rule step_accept [where key = key]) (simp add: outcomes_connector_run Let_def)
  moreover have "advances (?v, c) (stage_prog U ?ctx Begin) (begun ?T ?ctx ?v, c) (Return (Some Loop))"
    by (rule advances_outcome) (simp add: outcomes_stage_begin [OF assms(1)])
  then have "sys_reaches U ?s (?s\<lparr>sys_world := fst (begun ?T ?ctx ?v, c), links := (links ?s)[?n := (links ?s ! ?n)
      \<lparr>link_conn := snd (begun ?T ?ctx ?v, c), link_prog := Return (Some Loop)\<rparr>]\<rparr>)"
    by (rule link_advances) simp_all
  ultimately have "sys_reaches U s (s\<lparr>sys_world := begun ?T ?ctx ?v,
      links := links s @ [\<lparr>link_ctx = ?ctx, link_conn = c, link_prog = Return (Some Loop)\<rparr>]\<rparr>)"
    using sys_reaches_step by fastforce
  moreover have "ready ?ctx (?i + 3) (Suc (?i + 3)) (begun ?T ?ctx ?v)"
    using begun_ready [of ?v ?ctx ?T] by simp
  moreover have "outbox pv ?ctx (begun ?T ?ctx ?v) = pv (mpsc_channel (packets ?T) 256)"
    "close_requests sv ?ctx (begun ?T ?ctx ?v) = sv (mpsc_channel (signals ?T) 1)"
    by (simp_all add: outbox_def close_requests_def begun_select)
  moreover have "pv (mpsc_channel (packets ?T) 256) = \<lparr>queued = [], capacity = 256, receiver_gone = False, senders_gone = False\<rparr>"
    "sv (mpsc_channel (signals ?T) 1) = \<lparr>queued = [], capacity = 1, receiver_gone = False, senders_gone = False\<rparr>"
    using assms(2) mpsc.channel unfolding tokio_runtime_def by blast+
  ultimately show ?thesis
    by (intro exI conjI) (assumption, simp, simp, simp, simp, simp, simp add: begun_select, simp add: begun_select)
qed

lemma links_always_apart:
  assumes "runs_main U B X" and "sys_reaches U (sys_start w) s"
  shows "links_apart (next_ref (sys_world s)) (links s)"
proof -
  have "server_keeps True (\<lambda>_. True) index_kept s \<and> links_apart (next_ref (sys_world s)) (links s)"
    by (rule sys_reaches_invariant [OF assms(2)])
      (use index_server.server_step [OF assms(1) refl setup_sound_True _ ballI [OF TrueI] ballI [OF TrueI]] links_apart_step [OF assms(1)] in
        \<open>auto simp: server_keeps_def sys_start_def links_apart_def\<close>)
  then show ?thesis by simp
qed

section \<open>Properties\<close>

text \<open>C21: an accepted connection is made ready.  From any state of the server a connection can be accepted and its
  task can come to its loop: it has its own empty channels, a fresh empty map of waiters, the time of the last
  read and no user, and its reactor is spawned.\<close>

theorem accepted_connection_ready:
  assumes "runs_main U B X" and "tokio_runtime (su_tokio U) pv sv ov"
  shows "\<exists>t ctx m r. sys_reaches U s t \<and>
           links t = links s @ [\<lparr>link_ctx = ctx, link_conn = c, link_prog = Return (Some Loop)\<rparr>] \<and>
           connection_id ctx = key \<and> ready ctx m r (sys_world t) \<and>
           outbox pv ctx (sys_world t) = \<lparr>queued = [], capacity = 256, receiver_gone = False, senders_gone = False\<rparr> \<and>
           close_requests sv ctx (sys_world t) =
             \<lparr>queued = [], capacity = 1, receiver_gone = False, senders_gone = False\<rparr> \<and>
           spawned (sys_world t) =
             spawned (sys_world s) @ [Heartbeat_job \<lparr>interval = secs 10, hb_ctx = ctx, hb_shutdown = r\<rparr>]"
  using accept_ready [OF assms, of s c key] by blast

text \<open>C18: queued packets are written in the order in which they were sent, and all of them: when the connection
  takes the writes, the task of the connection can empty the queue, with the effect of writing one packet
  after the other.  Nothing else of the server changes.\<close>

theorem queued_packets_written:
  assumes "tokio_runtime (su_tokio U) pv sv ov" and "i < length (links s)"
    and "link_prog (links s ! i) = Return (Some Loop)" and "ctx = link_ctx (links s ! i)"
    and "writes (su_conn U) (su_ser U) (queued (outbox pv ctx (sys_world s))) (link_conn (links s ! i)) c'"
  shows "\<exists>q. sys_reaches U s (s\<lparr>sys_world := (sys_world s)\<lparr>packet_chans :=
             (packet_chans (sys_world s))(channel (handle ctx) := q)\<rparr>,
           links := (links s)[i := (links s ! i)\<lparr>link_conn := c'\<rparr>]\<rparr>) \<and> queued (pv q) = []"
  unfolding assms(4) by (rule queue_written [OF assms(1-3) _ assms(5) [unfolded assms(4)]]) simp

text \<open>C20: a connection that is asked to close, or whose next fails, ends, and its user stays online.  The task leaves its
  loop, drops the receiving ends of both channels, so that every later send is refused, and signals its reactor, which
  stops in its next turn; but the middlewares below the heart beat are not told, and the state server keeps all
  users.  The end is one run of the server; in the state that it reaches, the reactor's turn cannot go otherwise.\<close>

theorem closed_connection_stays_online:
  assumes "runs_main U B X" and "tokio_runtime (su_tokio U) pv sv ov" and "i < length (links s)"
    and "link_prog (links s ! i) = Return (Some Loop)" and "ctx = link_ctx (links s ! i)" and "w = sys_world s"
    and "queued (close_requests sv ctx w) \<noteq> [] \<or>
      (\<exists>e c. conn_next (su_bytes U) (su_conn U) (su_de U) (link_conn (links s ! i)) = Some (Err e, c))"
    and "attr_maps w (attrs ctx) (str_bytes ''HEART_BEAT_REACTOR_SHUTDOWN'') = Some (Any_shutdown r)"
    and "r \<noteq> shutdown (handle ctx)" and "accepts (sv (signal_chans w r))"
  shows "\<exists>t. sys_reaches U s t \<and> link_prog (links t ! i) = Return None \<and>
           receiver_gone (outbox pv ctx (sys_world t)) \<and> receiver_gone (close_requests sv ctx (sys_world t)) \<and>
           queued (sv (signal_chans (sys_world t) r)) \<noteq> [] \<and>
           online_state (sys_world t) = online_state w \<and> online_contexts (sys_world t) = online_contexts w \<and>
           (\<forall>hb n. hb_ctx hb = ctx \<and> hb_shutdown hb = r \<and> 0 < interval hb \<and> last_read_at ctx n w \<longrightarrow>
              (\<exists>v. outcomes (heartbeat_run (su_tokio U) hb) (sys_world t) = [(v, Done False)]))"
proof -
  note left = loop_left [OF assms(1-3,8-10,5)]
  have "\<exists>t. sys_reaches U s t \<and> link_prog (links t ! i) = Return None \<and> ended pv sv ctx r w (sys_world t)"
    using assms(7)
  proof
    assume "queued (close_requests sv ctx w) \<noteq> []"
    then obtain us where "queued (sv (signal_chans w (shutdown (handle ctx)))) = () # us"
      by (cases "queued (sv (signal_chans w (shutdown (handle ctx))))") (auto simp: close_requests_def)
    then obtain q where q: "mpsc_recv (signals (su_tokio U)) (signal_chans w (shutdown (handle ctx))) = Some (Some (), q)"
      using mpsc.recv [of "signals (su_tokio U)" sv] assms(2) unfolding tokio_runtime_def by blast
    show ?thesis
      by (rule left, rule fun_upd_other, assumption, rule stage_advances [OF assms(3,4)])
        (unfold stage_prog_def assms(5,6) [symmetric], rule loop_shut_down [OF q])
  next
    assume "\<exists>e c. conn_next (su_bytes U) (su_conn U) (su_de U) (link_conn (links s ! i)) = Some (Err e, c)"
    then obtain e c n where n: "next_turns n (su_bytes U) (su_conn U) (su_de U) (link_conn (links s ! i)) = Some (Err e, c)"
      using next_turns_complete by metis
    show ?thesis
      by (rule left [where f = "signal_chans w"], rule refl, rule last_turn [OF n assms(3,4)])
        (use loop_fails in \<open>simp add: stage_prog_def assms(5,6)\<close>)
  qed
  then obtain t where t: "sys_reaches U s t" "link_prog (links t ! i) = Return None" "ended pv sv ctx r w (sys_world t)"
    by blast
  have "\<exists>v. outcomes (heartbeat_run (su_tokio U) hb) (sys_world t) = [(v, Done False)]"
    if "hb_ctx hb = ctx" "hb_shutdown hb = r" "0 < interval hb" "last_read_at ctx n w" for hb n
    by (rule signalled_reactor_stops [OF assms(2)]) (use that t(3) in \<open>simp_all add: ended_def last_read_at_def\<close>)
  with t show ?thesis unfolding ended_def by blast
qed

text \<open>What one connection sees of the work for another: its attributes stay, and its queue at most grows at the end.\<close>

definition untouched :: "('q \<Rightarrow> packet mpsc_view) \<Rightarrow> conn_context \<Rightarrow> ('q, 'u, 'o) world \<Rightarrow> ('q, 'u, 'o) world \<Rightarrow> bool" where
  "untouched pv ctx w w' \<longleftrightarrow>
     attr_maps w' (attrs ctx) = attr_maps w (attrs ctx) \<and>
     (\<exists>ps. queued (outbox pv ctx w') = queued (outbox pv ctx w) @ ps)"

text \<open>C10: connections are isolated.  Take any two connections of a state that the server reaches.  The whole work for
  the first, which is its own task in each of its stages and every job for its context, the processing of a packet
  by all middlewares and the server, the reactor and the update of the directory, never writes an attribute of the
  second and never takes or drops a packet from the second's queue: at every await point, whatever other tasks do in
  between, it leaves the second connection untouched but for packets put behind those in its queue.\<close>

theorem connections_isolated:
  assumes "runs_main U B X" and "tokio_runtime (su_tokio U) pv sv ov" and "sys_reaches U (sys_start w) s"
    and "i < length (links s)" and "k < length (links s)" and "i \<noteq> k"
    and "ctx = link_ctx (links s ! i)" and "other = link_ctx (links s ! k)" and "job_ctx job = ctx"
  shows "keeping True (\<lambda>_. True) (\<lambda>x y. untouched pv other (fst x) (fst y)) (stage_prog U ctx st) \<and>
         keeping True (\<lambda>_. True) (untouched pv other) (start_job (su_tokio U) (su_processor U) (su_state U) job)"
proof -
  have "indices ctx \<inter> indices other = {}"
    using links_always_apart [OF assms(1,3)] assms(4-8) by (simp add: links_apart_def)
  then have others: "untouched pv other v v'" if "others_kept pv ctx v v'" for v v' :: "('a, 'b, 'c) world"
    using that by (auto simp: others_kept_def untouched_def outbox_def indices_def)
  show ?thesis
  proof
    show "keeping True (\<lambda>_. True) (\<lambda>x y. untouched pv other (fst x) (fst y)) (stage_prog U ctx st)"
      by (rule keeps_weaken [OF tokio_runtime.work_apart(2) [OF assms(2,1) refl, of ctx st, unfolded link_keeps_def]])
        (simp_all add: others)
    show "keeping True (\<lambda>_. True) (untouched pv other) (start_job (su_tokio U) (su_processor U) (su_state U) job)"
      by (rule keeps_weaken [OF tokio_runtime.work_apart(1) [OF assms(2,1) refl assms(9)]]) (simp_all add: others)
  qed
qed

text \<open>An attribute that is read as of a type is there with that type, or not there at all.\<close>

definition read_typed :: "(any \<Rightarrow> 'v option) \<Rightarrow> rstring \<Rightarrow> ('q, 'u, 'o) world \<Rightarrow> bool" where
  "read_typed d key w \<longleftrightarrow>
     (\<forall>ctx. outcomes (ctx_attr d ctx key) w = [(w, Done None)] \<longrightarrow> attr_maps w (attrs ctx) key = None)"

lemma read_typed_iff:
  "read_typed d key w \<longleftrightarrow> (\<forall>m v. attr_maps w m key = Some v \<longrightarrow> d v \<noteq> None)"
proof -
  have "(\<forall>ctx :: conn_context. P (attrs ctx)) \<longleftrightarrow> (\<forall>m. P m)" for P
    by (metis conn_context.select_convs(3))
  moreover have "(Option.bind x d = None \<longrightarrow> x = None) \<longleftrightarrow> (\<forall>v. x = Some v \<longrightarrow> d v \<noteq> None)" for x
    by (cases x) auto
  ultimately show ?thesis by (simp only: read_typed_def ctx_attr_def outcomes_gets list.inject prod.inject ending.inject simp_thms)
qed

text \<open>C19: an attribute is always read with the type with which it was recorded.  In every state that the server
  reaches, attr yields nothing only when nothing was recorded under the key, for each of the five keys that the
  program uses: the downcast does not fail.\<close>

theorem attributes_well_typed:
  assumes "runs_main U B X" and "attr_maps w = (\<lambda>_. Map.empty)" and "sys_reaches U (sys_start w) s"
  shows "read_typed downcast_notify_map (str_bytes ''SYNC_NOTIFY'') (sys_world s) \<and>
         read_typed downcast_instant (str_bytes ''LAST_READ'') (sys_world s) \<and>
         read_typed downcast_shutdown (str_bytes ''HEART_BEAT_REACTOR_SHUTDOWN'') (sys_world s) \<and>
         read_typed downcast_user_id (str_bytes ''USER_ID'') (sys_world s) \<and>
         read_typed downcast_instant (str_bytes ''STATE_LAST_SYNC'') (sys_world s)"
proof -
  have "server_keeps True attributes_typed (\<lambda>_. attributes_typed) s"
    by (rule typed_server.server_invariant [OF assms(1) refl setup_sound_True assms(3) ballI [OF TrueI] ballI [OF TrueI]]) (simp add: attributes_typed_def assms(2))
  then show ?thesis
    by (simp add: server_keeps_def attributes_typed_def attribute_typed_def read_typed_iff)
qed

section \<open>A server with list channels\<close>

definition demo_setup ::
  "(packet mpsc_view, unit mpsc_view, packet oneshot_view, (bytes option list \<times> bytes) tcp_connection) server_setup" where
  "demo_setup =
     \<lparr>su_tokio = list_tokio, su_bytes = std_bytes, su_conn = tcp script,
      su_ser = (\<lambda>p. serialize_u64 std_bytes (request_id p)),
      su_de = and_then de_u64 (\<lambda>i d. (Ok (packet_new i Map.empty Logout), d)),
      su_processor = main_processor list_tokio std_bytes plain_crypto, su_state = online_state_server,
      su_peer = (\<lambda>_ _. True)\<rparr>"

lemma demo_setup_select [simp]:
  "su_tokio demo_setup = list_tokio" "su_conn demo_setup = tcp script"
  "su_ser demo_setup = (\<lambda>p. serialize_u64 std_bytes (request_id p))"
  "runs_main demo_setup std_bytes plain_crypto"
  by (simp_all add: demo_setup_def runs_main_def)

definition demo_socket :: "(bytes option list \<times> bytes) tcp_connection" where
  "demo_socket = \<lparr>stream = ([], []), buffer = []\<rparr>"

text \<open>The world of a server at its start, and the server when it has accepted a connection that is in its loop.\<close>

definition empty_world :: list_world where
  "empty_world = demo_world\<lparr>attr_maps := (\<lambda>_. Map.empty)\<rparr>"

definition looping_on :: "(bytes option list \<times> bytes) tcp_connection \<Rightarrow> list_world \<Rightarrow> (packet mpsc_view, unit mpsc_view, packet oneshot_view,
    (bytes option list \<times> bytes) tcp_connection) system" where
  "looping_on c w = \<lparr>sys_world = w, links = [\<lparr>link_ctx = demo_ctx, link_conn = c, link_prog = Return (Some Loop)\<rparr>],
     tasks = [], job_log = []\<rparr>"

lemma looping_select [simp]:
  "sys_world (looping_on c w) = w" "links (looping_on c w) = [\<lparr>link_ctx = demo_ctx, link_conn = c, link_prog = Return (Some Loop)\<rparr>]"
  by (simp_all add: looping_on_def)

abbreviation looping where "looping \<equiv> looping_on demo_socket"

theorem accepted_connection_ready_witness:
  "\<exists>t ctx m r. sys_reaches demo_setup (sys_start empty_world) t \<and>
     links t = [\<lparr>link_ctx = ctx, link_conn = demo_socket, link_prog = Return (Some Loop)\<rparr>] \<and> ready ctx m r (sys_world t)"
  using accepted_connection_ready [of demo_setup std_bytes plain_crypto id id id "sys_start empty_world" demo_socket "[]"]
    list_runtime.tokio_runtime_axioms
  by (auto simp: sys_start_def)

definition queue_world :: "packet list \<Rightarrow> list_world" where
  "queue_world ps = demo_world\<lparr>packet_chans :=
     (\<lambda>_. \<lparr>queued = ps, capacity = 256, receiver_gone = False, senders_gone = False\<rparr>)\<rparr>"

lemma demo_writes:
  "writes (tcp script) (\<lambda>p. serialize_u64 std_bytes (request_id p)) [packet_new 5 a x, packet_new 6 b y] demo_socket
     \<lparr>stream = ([], frame [5] @ frame [6]), buffer = []\<rparr>"
  using u64_payload
  by (simp add: conn_write_def and_then_def tcp_write_buf_def script_def demo_socket_def Let_def frame_def packet_new_def)

theorem queued_packets_written_witness:
  "\<exists>t. sys_reaches demo_setup (looping (queue_world [packet_new 5 Map.empty Logout, packet_new 6 Map.empty Logout])) t \<and>
     queued (outbox id demo_ctx (sys_world t)) = [] \<and>
     stream (link_conn (links t ! 0)) = ([], frame [5] @ frame [6])"
proof -
  let ?ps = "[packet_new 5 Map.empty Logout, packet_new 6 Map.empty Logout]"
  have "queued (outbox id demo_ctx (queue_world ?ps)) = ?ps" by (simp add: outbox_def queue_world_def)
  with queued_packets_written [of demo_setup id id id 0 "looping (queue_world ?ps)" demo_ctx
      "\<lparr>stream = ([], frame [5] @ frame [6]), buffer = []\<rparr>"] demo_writes list_runtime.tokio_runtime_axioms
  obtain q where "sys_reaches demo_setup (looping (queue_world ?ps)) ((looping (queue_world ?ps))\<lparr>sys_world :=
      (queue_world ?ps)\<lparr>packet_chans := (packet_chans (queue_world ?ps))(channel (handle demo_ctx) := q)\<rparr>,
      links := (links (looping (queue_world ?ps)))[0 := (links (looping (queue_world ?ps)) ! 0)
        \<lparr>link_conn := \<lparr>stream = ([], frame [5] @ frame [6]), buffer = []\<rparr>\<rparr>]\<rparr>)" "queued q = []"
    by (auto simp: id_def)
  then show ?thesis by (auto simp: outbox_def looping_on_def)
qed

definition closing_world :: list_world where
  "closing_world = beating_world\<lparr>attr_maps := (\<lambda>_. (attr_maps beating_world 2)(str_bytes ''SYNC_NOTIFY'' \<mapsto> Any_notify_map 3)),
     signal_chans := (\<lambda>_. mpsc_channel list_mpsc 1)(1 := \<lparr>queued = [()], capacity = 1, receiver_gone = False, senders_gone = False\<rparr>),
     online_contexts := [2 \<mapsto> demo_ctx]\<rparr>"

theorem closed_connection_stays_online_witness:
  "\<exists>t. sys_reaches demo_setup (looping closing_world) t \<and> link_prog (links t ! 0) = Return None \<and>
     receiver_gone (outbox id demo_ctx (sys_world t)) \<and> online_contexts (sys_world t) 2 = Some demo_ctx \<and>
     (\<exists>v. outcomes (heartbeat_run list_tokio demo_heartbeat) (sys_world t) = [(v, Done False)])"
proof -
  have facts: "queued (close_requests id demo_ctx closing_world) \<noteq> []" "5 \<noteq> shutdown (handle demo_ctx)"
    "accepts (id (signal_chans closing_world 5))" "online_contexts closing_world 2 = Some demo_ctx"
    "attr_maps closing_world (attrs demo_ctx) (str_bytes ''HEART_BEAT_REACTOR_SHUTDOWN'') = Some (Any_shutdown 5)"
    "last_read_at demo_ctx 0 closing_world"
    by (simp_all add: close_requests_def closing_world_def demo_ctx_def accepts_def beating_world_def str_bytes_def
        last_read_at_def list_mpsc.channel [simplified])
  have hb: "hb_ctx demo_heartbeat = demo_ctx" "hb_shutdown demo_heartbeat = 5" "0 < interval demo_heartbeat"
    by (simp_all add: demo_heartbeat_def secs_def)
  have tok: "tokio_runtime (su_tokio demo_setup) id id id" using list_runtime.tokio_runtime_axioms by simp
  have link: "0 < length (links (looping closing_world))" "link_prog (links (looping closing_world) ! 0) = Return (Some Loop)"
    "demo_ctx = link_ctx (links (looping closing_world) ! 0)" "closing_world = sys_world (looping closing_world)" by simp_all
  obtain t where t: "sys_reaches demo_setup (looping closing_world) t" "link_prog (links t ! 0) = Return None"
    "receiver_gone (outbox id demo_ctx (sys_world t))" "online_contexts (sys_world t) = online_contexts closing_world"
    "\<And>hb n. hb_ctx hb = demo_ctx \<and> hb_shutdown hb = 5 \<and> 0 < interval hb \<and> last_read_at demo_ctx n closing_world \<Longrightarrow>
       \<exists>v. outcomes (heartbeat_run list_tokio hb) (sys_world t) = [(v, Done False)]"
    using closed_connection_stays_online [OF demo_setup_select(4) tok link disjI1 [OF facts(1)] facts(5,2,3)]
    unfolding demo_setup_select(1) by blast
  then show ?thesis using facts(4,6) hb by metis
qed

text \<open>Two connections.\<close>

definition isolated_message :: message where
  "isolated_message = \<lparr>msg_from = 1, msg_to = 2, timestamp = 0, seq = 0, msg_type = [], content = []\<rparr>"

theorem connections_isolated_witness:
  "\<exists>t. sys_reaches demo_setup (sys_start empty_world) t \<and> length (links t) = 2 \<and>
     keeping True (\<lambda>_. True) (untouched id (link_ctx (links t ! 1)))
       (start_job list_tokio (main_processor list_tokio std_bytes plain_crypto) online_state_server
          (Process_job (link_ctx (links t ! 0)) (packet_new 5 Map.empty (Message isolated_message))))"
proof -
  have accept: "\<exists>w ctx. sys_step demo_setup s (s\<lparr>sys_world := w,
      links := links s @ [\<lparr>link_ctx = ctx, link_conn = demo_socket, link_prog = stage_prog demo_setup ctx Begin\<rparr>]\<rparr>)" for s
    using step_accept [of _ _ demo_setup "[]" s] by (fastforce simp: outcomes_connector_run Let_def)
  obtain t u where steps: "sys_step demo_setup (sys_start empty_world) t" "length (links t) = 1"
      "sys_step demo_setup t u" "length (links u) = 2"
    using accept [of "sys_start empty_world"] accept by (fastforce simp: sys_start_def)
  then have reached: "sys_reaches demo_setup (sys_start empty_world) u"
    by (blast intro: sys_reaches_step)
  have tok: "tokio_runtime (su_tokio demo_setup) id id id" using list_runtime.tokio_runtime_axioms by simp
  from connections_isolated [OF demo_setup_select(4) tok reached, of 0 1, OF _ _ _ refl refl,
      of "Process_job (link_ctx (links u ! 0)) (packet_new 5 Map.empty (Message isolated_message))"] steps(4)
  have "keeping True (\<lambda>_. True) (untouched id (link_ctx (links u ! 1)))
       (start_job (su_tokio demo_setup) (su_processor demo_setup) (su_state demo_setup)
          (Process_job (link_ctx (links u ! 0)) (packet_new 5 Map.empty (Message isolated_message))))" by simp
  then show ?thesis using reached steps(4) by (auto simp: demo_setup_def)
qed

theorem attributes_well_typed_witness:
  "\<exists>t ctx m r. sys_reaches demo_setup (sys_start empty_world) t \<and> ready ctx m r (sys_world t) \<and>
     read_typed downcast_notify_map (str_bytes ''SYNC_NOTIFY'') (sys_world t)"
proof -
  obtain t ctx m r where "sys_reaches demo_setup (sys_start empty_world) t" "ready ctx m r (sys_world t)"
    using accept_ready [of demo_setup std_bytes plain_crypto id id id "sys_start empty_world" demo_socket "[]"]
      list_runtime.tokio_runtime_axioms by auto
  then show ?thesis using attributes_well_typed [of demo_setup std_bytes plain_crypto empty_world] 
    by (auto simp: empty_world_def)
qed

end
