(* ===== verification/Server_Runs.thy ===== *)
theory Server_Runs
  imports Connection_Life Server_Properties
begin

text \<open>
  Runs of the server, put together from what the handlers do alone: a packet through the whole stack
  of processors, and a spawned job that starts and goes on undisturbed, as a relation between worlds
  (\<open>world_runs\<close>) that composes.  Also the whole way of a packet that \<open>next\<close> returns into its processing.
\<close>

section \<open>Packets through the whole stack\<close>

definition read_recorded :: "conn_context \<Rightarrow> ('q, 'u, 'o) world \<Rightarrow> ('q, 'u, 'o) world" where
  "read_recorded ctx w = put_attr ctx (str_bytes ''LAST_READ'') (Any_instant (now w)) w"

lemma read_recorded_select [simp]:
  "registered ctx m (read_recorded ctx' w) = registered ctx m w" "user_of ctx (read_recorded ctx' w) = user_of ctx w"
  "now (read_recorded ctx w) = now w" "packet_chans (read_recorded ctx w) = packet_chans w"
  "signal_chans (read_recorded ctx w) = signal_chans w"
  "notify_maps (read_recorded ctx w) = notify_maps w" "spawned (read_recorded ctx w) = spawned w"
  "online_contexts (read_recorded ctx w) = online_contexts w" "request_counter (read_recorded ctx w) = request_counter w"
  "counter_locked (read_recorded ctx w) = counter_locked w"
  by (simp_all add: read_recorded_def registered_def user_of_def str_bytes_def)

lemma notify_remove_none:
  "notify_maps w m i = None \<Longrightarrow> outcomes (notify_remove m i) w = [(w, Done None)]"
  by (simp add: notify_remove_def fun_upd_idem)

text \<open>A packet that is no response and no ping comes to the state support with the read recorded.\<close>

lemma to_state_support:
  assumes "registered ctx m w" and "notify_maps w m (request_id p) = None" and "\<not> ping p"
  shows "outcomes (process (main_processor T B X) ctx p) w =
           outcomes (process (inner_stack T B X) ctx p) (read_recorded ctx w)"
    and "advances w (process (main_processor T B X) ctx p) (read_recorded ctx w) (process (inner_stack T B X) ctx p)"
proof -
  note parts = main_process(1,2) sync_process_def hb_process_def kick_read_def bind_assoc packet_request_id_def Let_def
  have attr: "outcomes (ctx_attr downcast_notify_map ctx (str_bytes ''SYNC_NOTIFY'')) w = [(w, Done (Some m))]"
    using assms(1) by (simp add: ctx_attr_def registered_def)
  have put: "outcomes (ctx_put_attr ctx (str_bytes ''LAST_READ'') (Any_instant (now w))) w =
      [(read_recorded ctx w, Done (attr_maps w (attrs ctx) (str_bytes ''LAST_READ'')))]"
    by (simp add: ctx_put_attr_def read_recorded_def put_attr_def)
  show "advances w (process (main_processor T B X) ctx p) (read_recorded ctx w) (process (inner_stack T B X) ctx p)"
    unfolding parts using assms(3)
    by (auto intro!: advances_past [OF attr] advances_past [OF notify_remove_none [OF assms(2)]]
        advances_past [OF outcomes_gets] advances_past [OF put] advances_refl)
  show "outcomes (process (main_processor T B X) ctx p) w =
      outcomes (process (inner_stack T B X) ctx p) (read_recorded ctx w)"
    unfolding parts using assms(3) assms(1) [unfolded registered_def]
    by (simp add: outcomes_bind [of "notify_remove m i" for i] notify_remove_none [OF assms(2)] read_recorded_def)
qed

text \<open>The login of a user up to the application.\<close>

definition logged_in :: "u64 \<Rightarrow> conn_context \<Rightarrow> ('q, 'u, 'o) world \<Rightarrow> ('q, 'u, 'o) world" where
  "logged_in k ctx w =
     with_update_job k ctx (put_attr ctx (str_bytes ''USER_ID'') (Any_user_id k) (read_recorded ctx w))"

lemma login_advances:
  assumes "registered ctx m w" and "notify_maps w m (request_id p) = None"
    and "login_packet p" and "token_auth B X p = Ok k"
  shows "advances w (process (main_processor T B X) ctx p) (logged_in k ctx w) (server_process T ctx p)"
proof -
  let ?w = "read_recorded ctx w"
  let ?w' = "put_attr ctx (str_bytes ''USER_ID'') (Any_user_id k) ?w"
  have put: "outcomes (ctx_put_attr ctx (str_bytes ''USER_ID'') (Any_user_id k)) ?w =
      [(?w', Done (attr_maps ?w (attrs ctx) (str_bytes ''USER_ID'')))]"
    by (simp add: ctx_put_attr_def put_attr_def)
  have upd: "outcomes (update_state k ctx) ?w' = [(with_update_job k ctx ?w', Done ())]"
    by (simp add: update_state_def spawn_def with_update_job_def)
  have "advances ?w (process (inner_stack T B X) ctx p) (with_update_job k ctx ?w') (server_process T ctx p)"
    unfolding main_process(3) ss_process_def token_auth_server_def using assms(3,4)
    by (auto simp: main_process(4) intro!: advances_past [OF put] advances_past [OF upd] advances_refl)
  moreover have "\<not> ping p" using assms(3) packet_kind_disjoint(1) by blast
  ultimately show ?thesis
    using advances_trans [OF to_state_support(2) [OF assms(1,2)]] by (simp add: logged_in_def)
qed

text \<open>A packet of a known user comes to the application; besides the read, only an update may be spawned.\<close>

lemma known_user_outcomes:
  assumes "registered ctx m w" and "notify_maps w m (request_id p) = None"
    and "\<not> login_packet p" and "\<not> logout_packet p" and "\<not> ping p" and "user_of ctx w = Some k"
  shows "\<exists>js. outcomes (process (main_processor T B X) ctx p) w =
           outcomes (server_process T ctx p) ((read_recorded ctx w)\<lparr>spawned := js\<rparr>)"
proof -
  have "user_of ctx (read_recorded ctx w) = Some k" using assms(6) by simp
  from ss_process_other(2) [OF assms(3,4) this, of T "token_auth_server B X" "secs 30" "server T"]
  show ?thesis
    unfolding to_state_support(1) [OF assms(1,2,5)] main_process(3,4)
    by (auto simp: with_update_job_def split: option.split if_splits)
      (metis (no_types, lifting) world.surjective world.update_convs(12))+
qed

section \<open>Jobs that run undisturbed\<close>

text \<open>
  From the world \<open>w\<close>, whatever else exists, the server can come to \<open>w'\<close> by starting the jobs \<open>js\<close>,
  whose tasks are then \<open>ps\<close>.
\<close>

definition world_runs ::
  "('q, 'u, 'o, 'c) server_setup \<Rightarrow> ('q, 'u, 'o) world \<Rightarrow> ('q, 'u, 'o) world \<Rightarrow>
   ('q, 'u, 'o, job option) task list \<Rightarrow> job list \<Rightarrow> bool" where
  "world_runs U w w' ps js \<longleftrightarrow>
     (\<forall>s. sys_world s = w \<longrightarrow>
        sys_reaches U s (s\<lparr>sys_world := w', tasks := tasks s @ ps, job_log := job_log s @ js\<rparr>))"

lemma world_runsD:
  "world_runs U w w' ps js \<Longrightarrow> sys_world s = w \<Longrightarrow>
   sys_reaches U s (s\<lparr>sys_world := w', tasks := tasks s @ ps, job_log := job_log s @ js\<rparr>)"
  by (simp add: world_runs_def)

lemma world_runs_trans:
  assumes "world_runs U w w1 ps js" and "world_runs U w1 w2 qs ks"
  shows "world_runs U w w2 (ps @ qs) (js @ ks)"
  unfolding world_runs_def
proof (intro allI impI)
  fix s :: "('a, 'b, 'c, 'd) system" assume "sys_world s = w"
  then show "sys_reaches U s (s\<lparr>sys_world := w2, tasks := tasks s @ ps @ qs, job_log := job_log s @ js @ ks\<rparr>)"
    using sys_reaches_trans [OF world_runsD [OF assms(1)] world_runsD [OF assms(2)]] by simp
qed

text \<open>What is left of the task of a packet when \<open>p\<close> is left of its processing.\<close>

definition finishing :: "('q, 'u, 'o, unit) task \<Rightarrow> ('q, 'u, 'o, job option) task" where
  "finishing p = bind p (\<lambda>_. Return None)"

lemma finishing_Return [simp]: "finishing (Return a) = Return None"
  by (simp add: finishing_def)

lemma process_run:
  assumes "runs_main U B X" and "spawned w = js @ Process_job ctx p # js'"
    and "outcomes (process (main_processor (su_tokio U) B X) ctx p) (w\<lparr>spawned := js @ js'\<rparr>) = [(w', e)]"
  shows "world_runs U w w' [finishing (residual e)] [Process_job ctx p]"
proof -
  have "advances (w\<lparr>spawned := js @ js'\<rparr>) (process (main_processor (su_tokio U) B X) ctx p) w' (residual e)"
    by (rule outcomes_advances) (simp add: assms(3))
  then show ?thesis
    unfolding world_runs_def finishing_def
    using spawn_and_advance [of _ js "Process_job ctx p" js' U w'] assms(2)
    by (simp add: start_job_def runs_main_parts [OF assms(1)] advances_bind)
qed

lemma login_run:
  assumes "runs_main U B X" and "spawned w = js @ Process_job ctx p # js'" and "registered ctx m w"
    and "notify_maps w m (request_id p) = None" and "login_packet p" and "token_auth B X p = Ok k"
  shows "world_runs U w (logged_in k ctx (w\<lparr>spawned := js @ js'\<rparr>)) [finishing (server_process (su_tokio U) ctx p)]
           [Process_job ctx p]"
proof -
  have "advances (w\<lparr>spawned := js @ js'\<rparr>) (process (main_processor (su_tokio U) B X) ctx p)
      (logged_in k ctx (w\<lparr>spawned := js @ js'\<rparr>)) (server_process (su_tokio U) ctx p)"
    using assms(3-6) by (intro login_advances [of ctx m]) (simp_all add: registered_def)
  then show ?thesis
    unfolding world_runs_def finishing_def
    using spawn_and_advance [of _ js "Process_job ctx p" js' U "logged_in k ctx (w\<lparr>spawned := js @ js'\<rparr>)"] assms(2)
    by (simp add: start_job_def runs_main_parts [OF assms(1)] advances_bind)
qed

lemma rejection_run:
  assumes "runs_main U B X" and "tokio_runtime (su_tokio U) pv sv ov" and "spawned w = js @ Process_job ctx p # js'"
    and "registered ctx m w" and "notify_maps w m (request_id p) = None" and "login_packet p"
    and "token_auth B X p = Err e" and "accepts (outbox pv ctx w)"
  shows "\<exists>w'. world_runs U w w' [Return None] [Process_job ctx p] \<and>
           queued (outbox pv ctx w') = queued (outbox pv ctx w) @ [auth_error_into_packet e]"
proof -
  let ?v = "w\<lparr>spawned := js @ js'\<rparr>" and ?w = "read_recorded ctx (w\<lparr>spawned := js @ js'\<rparr>)"
  have box: "outbox pv ctx ?w = outbox pv ctx w" by (simp add: outbox_def)
  obtain q where q: "mpsc_send (packets (su_tokio U)) (auth_error_into_packet e) (packet_chans ?w (channel (handle ctx))) = Some (True, q)"
    "pv q = (outbox pv ctx w)\<lparr>queued := queued (outbox pv ctx w) @ [auth_error_into_packet e]\<rparr>"
    using tokio_runtime.sendable [OF assms(2), of ctx ?w "auth_error_into_packet e"] assms(8) unfolding box by metis
  let ?w' = "?w\<lparr>packet_chans := (packet_chans ?w)(channel (handle ctx) := q)\<rparr>"
  have known: "registered ctx m ?v" "notify_maps ?v m (request_id p) = None" "\<not> ping p"
    using assms(4-6) packet_kind_disjoint(1) by (simp_all add: registered_def)
  have "outcomes (process (main_processor (su_tokio U) B X) ctx p) ?v = [(?w', Done ())]"
    unfolding to_state_support(1) [OF known] main_process(3) ss_process_login(2) [OF assms(6,7)]
    by (simp add: tokio_runtime.outcomes_ctx_send [OF assms(2) q(1)])
  from process_run [OF assms(1,3) this] have "world_runs U w ?w' [Return None] [Process_job ctx p]" by simp
  then show ?thesis by (intro exI [of _ ?w'] conjI) (simp_all add: outbox_def q(2))
qed

text \<open>The update of the directory that a login spawns.\<close>

definition published :: "u64 \<Rightarrow> conn_context \<Rightarrow> ('q, 'u, 'o) world \<Rightarrow> ('q, 'u, 'o) world" where
  "published k ctx w = put_attr ctx (str_bytes ''STATE_LAST_SYNC'') (Any_instant (now w))
     (w\<lparr>online_contexts := (online_contexts w)(k \<mapsto> ctx), online_state := (online_state w)(k \<mapsto> ctx_id ctx)\<rparr>)"

lemma outcomes_update_state_task:
  "outcomes (update_state_task online_state_server k ctx) w = [(published k ctx w, Done ())]"
  by (simp add: update_state_task_def online_state_server_def oss_put_def oss_put_local_def published_def)

lemma publish_run:
  assumes "runs_main U B X" and "spawned w = js @ Update_state_job k ctx # js'"
  shows "world_runs U w (published k ctx (w\<lparr>spawned := js @ js'\<rparr>)) [Return None] [Update_state_job k ctx]"
proof -
  have "advances (w\<lparr>spawned := js @ js'\<rparr>) (bind (update_state_task online_state_server k ctx) (\<lambda>_. Return None))
      (published k ctx (w\<lparr>spawned := js @ js'\<rparr>)) (Return None)"
    by (rule advances_past [OF outcomes_update_state_task advances_refl])
  then show ?thesis
    unfolding world_runs_def
    using spawn_and_advance [of _ js "Update_state_job k ctx" js' U "published k ctx (w\<lparr>spawned := js @ js'\<rparr>)" "Return None"] assms(2)
    by (auto simp: start_job_def runs_main_parts [OF assms(1)])
qed

section \<open>A received packet\<close>

text \<open>C14: a packet that next returns can be processed.  When next, started on the state of the connection, would
  return a packet, and the processor, given the packet and the context, ends alone in a state or waits there, then
  there is a run of the server that reads the packet, in however many turns of the connection's loop, starts its
  processing and brings it to that state; the connection goes on in the very state in which next leaves it.\<close>

theorem received_packet_processed:
  assumes "conn_next (su_bytes U) (su_conn U) (su_de U) (link_conn (links s ! i)) = Some (Ok p, c')"
    and "i < length (links s)" and "link_prog (links s ! i) = Return (Some Loop)" and "ctx = link_ctx (links s ! i)"
    and "(w', e) \<in> set (outcomes (process (su_processor U) ctx p) (sys_world s))"
  shows "sys_reaches U s (s\<lparr>sys_world := w', links := (links s)[i := (links s ! i)\<lparr>link_conn := c'\<rparr>],
     tasks := tasks s @ [bind (residual e) (\<lambda>_. Return None)], job_log := job_log s @ [Process_job ctx p]\<rparr>)"
proof -
  let ?w = "sys_world s"
  let ?s = "s\<lparr>sys_world := ?w\<lparr>spawned := spawned ?w @ [Process_job ctx p]\<rparr>, links := (links s)[i := (links s ! i)\<lparr>link_conn := c'\<rparr>]\<rparr>"
  have "advances ?w (bind (process (su_processor U) ctx p) (\<lambda>_. Return None)) w' (bind (residual e) (\<lambda>_. Return None))"
    by (rule advances_bind, rule outcomes_advances, rule assms(5))
  then have "advances ((sys_world ?s)\<lparr>spawned := spawned ?w @ []\<rparr>)
      (start_job (su_tokio U) (su_processor U) (su_state U) (Process_job ctx p)) w' (bind (residual e) (\<lambda>_. Return None))"
    by (simp add: start_job_def)
  from spawn_and_advance [OF _ this] have "sys_reaches U ?s (?s\<lparr>sys_world := w',
      tasks := tasks s @ [bind (residual e) (\<lambda>_. Return None)], job_log := job_log s @ [Process_job ctx p]\<rparr>)" by simp
  from sys_reaches_trans [OF next_processed [OF assms(1-3), folded assms(4)] this] show ?thesis by (cases s) simp
qed

text \<open>The logout of a connection without a user, through the whole stack: the connection is asked to close.\<close>

lemma demo_logout:
  "\<exists>w'. outcomes (process (main_processor list_tokio std_bytes plain_crypto) demo_ctx (packet_new 5 Map.empty Logout)) demo_world
     = [(w', Done ())] \<and> queued (close_requests id demo_ctx w') = [()]"
proof -
  let ?p = "packet_new 5 Map.empty Logout" and ?w = "read_recorded demo_ctx demo_world"
  have kind: "\<not> ping ?p" "\<not> login_packet ?p" "logout_packet ?p" by (simp_all add: ping_def login_packet_def logout_packet_def)
  have box: "accepts (close_requests id demo_ctx ?w)" "queued (close_requests id demo_ctx ?w) = []"
    using demo_accepts(2) by (simp_all add: close_requests_def list_mpsc.channel [simplified])
  obtain q where q: "id q = (close_requests id demo_ctx ?w)\<lparr>queued := queued (close_requests id demo_ctx ?w) @ [()]\<rparr>"
    "outcomes (ctx_close list_tokio demo_ctx) ?w = [(?w\<lparr>signal_chans := (signal_chans ?w)(shutdown (handle demo_ctx) := q)\<rparr>, Done ())]"
    by (rule list_runtime.outcomes_ctx_close [OF box(1)])
  have "notify_maps demo_world 3 (request_id ?p) = None" by simp
  from to_state_support(1) [OF demo_registered this kind(1)] have
    "outcomes (process (main_processor list_tokio std_bytes plain_crypto) demo_ctx ?p) demo_world = outcomes (ctx_close list_tokio demo_ctx) ?w"
    unfolding main_process(3) by (rule trans) (rule ss_process_other(1) [OF kind(2) disjI1 [OF kind(3)]])
  with q box(2) show ?thesis
    by (intro exI [of _ "?w\<lparr>signal_chans := (signal_chans ?w)(shutdown (handle demo_ctx) := q)\<rparr>"])
      (simp add: close_requests_def)
qed

theorem received_packet_processed_witness:
  "\<exists>t. sys_reaches demo_setup (looping_on \<lparr>stream = ([Some (frame [5] @ [0, 0, 0, 9])], []), buffer = []\<rparr> demo_world) t \<and>
     job_log t = [Process_job demo_ctx (packet_new 5 Map.empty Logout)] \<and> tasks t = [Return None] \<and>
     queued (close_requests id demo_ctx (sys_world t)) = [()] \<and> buffer (link_conn (links t ! 0)) = [0, 0, 0, 9]"
proof -
  let ?c = "\<lparr>stream = ([Some (frame [5] @ [0, 0, 0, 9])], []), buffer = []\<rparr>" and ?p = "packet_new 5 Map.empty Logout"
  have "from_bytes (su_de demo_setup) [5] = Ok ?p"
    using from_bytes_u64_payload(1)
    by (auto simp: demo_setup_def from_bytes_def and_then_def split: prod.splits outcome.splits if_splits)
  then have next_packet: "conn_next (su_bytes demo_setup) (su_conn demo_setup) (su_de demo_setup)
      (link_conn (links (looping_on ?c demo_world) ! 0)) = Some (Ok ?p, \<lparr>stream = ([], []), buffer = [0, 0, 0, 9]\<rparr>)"
    using std.conn_next_completes [of "[5]" script "([Some (frame [5] @ [0, 0, 0, 9])], [])" "frame [5] @ [0, 0, 0, 9]"
        "([], [])" "[]" "[0, 0, 0, 9]" "su_de demo_setup"]
    by (simp add: script_def frame_def demo_setup_def)
  obtain w' where w': "outcomes (process (main_processor list_tokio std_bytes plain_crypto) demo_ctx ?p) demo_world = [(w', Done ())]"
    "queued (close_requests id demo_ctx w') = [()]" using demo_logout by blast
  have "(w', Done ()) \<in> set (outcomes (process (su_processor demo_setup) demo_ctx ?p) (sys_world (looping_on ?c demo_world)))"
    using w'(1) by (simp add: demo_setup_def)
  from received_packet_processed [OF next_packet _ _ _ this] have
    "sys_reaches demo_setup (looping_on ?c demo_world) ((looping_on ?c demo_world)\<lparr>sys_world := w',
      links := [\<lparr>link_ctx = demo_ctx, link_conn = \<lparr>stream = ([], []), buffer = [0, 0, 0, 9]\<rparr>, link_prog = Return (Some Loop)\<rparr>],
      tasks := [Return None], job_log := [Process_job demo_ctx ?p]\<rparr>)"
    by (simp add: looping_on_def)
  note reached = this
  show ?thesis by (rule exI, rule conjI, rule reached) (simp add: w'(2))
qed

end
