(* ===== verification/Delivery.thy ===== *)
theory Delivery
  imports Server_Runs
begin

text \<open>
  A message on its whole way through the running server: read from the sender's connection, processed
  by the stack, written to the receiver's connection, answered there, and acknowledged to the sender.
  The steps of the two connections and of their tasks are those of the scheduler.
\<close>

section \<open>Two connections\<close>

text \<open>Two connections of the server that are in their loops, with their contexts and states.\<close>

definition talking ::
  "('q, 'u, 'o, 'c) system \<Rightarrow> nat \<Rightarrow> conn_context \<Rightarrow> 'c \<Rightarrow> nat \<Rightarrow> conn_context \<Rightarrow> 'c \<Rightarrow> bool" where
  "talking s i a c j b d \<longleftrightarrow> i \<noteq> j \<and> i < length (links s) \<and> j < length (links s) \<and>
     links s ! i = \<lparr>link_ctx = a, link_conn = c, link_prog = Return (Some Loop)\<rparr> \<and>
     links s ! j = \<lparr>link_ctx = b, link_conn = d, link_prog = Return (Some Loop)\<rparr>"

lemma talking_flip: "talking s i a c j b d \<Longrightarrow> talking s j b d i a c"
  by (auto simp: talking_def)

text \<open>
  What one connection can do while the other is left alone: empty its queue, read a packet and have it
  processed, and find that its peer has acted.  Programs of tasks leave both alone.
\<close>

definition becomes ::
  "('q, 'u, 'o, 'c) server_setup \<Rightarrow> ('q, 'u, 'o, 'c) system \<Rightarrow> ('q, 'u, 'o, 'c) system \<Rightarrow> ('q, 'u, 'o) world \<Rightarrow>
   ('q, 'u, 'o, job option) task list \<Rightarrow> bool" where
  "becomes U s t w ts \<longleftrightarrow> sys_reaches U s t \<and> sys_world t = w \<and> tasks t = ts"

lemma becomes_start: "becomes U s s (sys_world s) (tasks s)"
  by (simp add: becomes_def)

lemma becomes_runs:
  assumes "becomes U z s w ts" and "world_runs U w w' ps js"
  shows "\<exists>t. becomes U z t w' (ts @ ps) \<and> links t = links s"
  using world_runsD [OF assms(2), of s] assms(1) sys_reaches_trans
  by (intro exI [of _ "s\<lparr>sys_world := w', tasks := tasks s @ ps, job_log := job_log s @ js\<rparr>"]) (force simp: becomes_def)

lemma becomes_resumes:
  assumes "becomes U z s w ts" and "n < length ts" and "advances w (ts ! n) w' p'"
  shows "\<exists>t. becomes U z t w' (ts[n := p']) \<and> links t = links s"
  using task_advances [OF assms(3), of n s U] assms(1,2) sys_reaches_trans
  by (intro exI [of _ "s\<lparr>sys_world := w', tasks := (tasks s)[n := p']\<rparr>"]) (force simp: becomes_def)

lemma becomes_on:
  assumes "becomes U z s w ts" and "sys_reaches U s u" and "sys_world u = w'" and "tasks u = ts'" and "talking u i a c j b d"
  shows "\<exists>t. becomes U z t w' ts' \<and> talking t i a c j b d"
  using assms by (auto simp: becomes_def intro: sys_reaches_trans)

lemma talking_writes:
  assumes "becomes U z s w ts" and "talking s i a c j b d" and "tokio_runtime (su_tokio U) pv sv ov"
    and "writes (su_conn U) (su_ser U) (queued (outbox pv a w)) c c'"
  shows "\<exists>t q. becomes U z t (w\<lparr>packet_chans := (packet_chans w)(channel (handle a) := q)\<rparr>) ts \<and>
           talking t i a c' j b d \<and> queued (pv q) = []"
proof -
  have "link_prog (links s ! i) = Return (Some Loop)" "i < length (links s)" "link_ctx (links s ! i) = a" "link_conn (links s ! i) = c"
    using assms(2) by (simp_all add: talking_def)
  from queue_written [OF assms(3) this(2,1) refl] this assms(1,4) obtain q where q: "queued (pv q) = []"
    "sys_reaches U s (s\<lparr>sys_world := w\<lparr>packet_chans := (packet_chans w)(channel (handle a) := q)\<rparr>,
       links := (links s)[i := (links s ! i)\<lparr>link_conn := c'\<rparr>]\<rparr>)" by (auto simp: becomes_def)
  have "\<exists>t. becomes U z t (w\<lparr>packet_chans := (packet_chans w)(channel (handle a) := q)\<rparr>) ts \<and> talking t i a c' j b d"
    by (rule becomes_on [OF assms(1) q(2)]) (use assms(1,2) in \<open>simp_all add: talking_def becomes_def\<close>)
  then show ?thesis using q(1) by blast
qed

lemma talking_receives:
  assumes "becomes U z s w ts" and "talking s i a c j b d" and "conn_next (su_bytes U) (su_conn U) (su_de U) c = Some (Ok p, c')"
  shows "\<exists>t. becomes U z t (w\<lparr>spawned := spawned w @ [Process_job a p]\<rparr>) ts \<and> talking t i a c' j b d"
proof -
  from next_processed [of U s i p c'] assms(1-3) have
    r: "sys_reaches U s (s\<lparr>sys_world := w\<lparr>spawned := spawned w @ [Process_job a p]\<rparr>,
       links := (links s)[i := (links s ! i)\<lparr>link_conn := c'\<rparr>]\<rparr>)" by (simp add: talking_def becomes_def)
  show ?thesis
    by (rule becomes_on [OF assms(1) r]) (use assms(1,2) in \<open>simp_all add: talking_def becomes_def\<close>)
qed

lemma talking_peer:
  assumes "becomes U z s w ts" and "talking s i a c j b d" and "su_peer U c c'"
  shows "\<exists>t. becomes U z t w ts \<and> talking t i a c' j b d"
proof -
  have r: "sys_reaches U s (s\<lparr>links := (links s)[i := (links s ! i)\<lparr>link_conn := c'\<rparr>]\<rparr>)"
    by (rule sys_reaches_step [OF step_peer sys_reaches_refl]) (use assms in \<open>simp_all add: talking_def\<close>)
  show ?thesis
    by (rule becomes_on [OF assms(1) r]) (use assms(1,2) in \<open>simp_all add: talking_def becomes_def\<close>)
qed

lemma talking_time:
  assumes "becomes U z s w ts" and "talking s i a c j b d" and "now w \<le> n"
  shows "\<exists>t. becomes U z t (w\<lparr>now := n\<rparr>) ts \<and> talking t i a c j b d"
proof -
  have r: "sys_reaches U s (s\<lparr>sys_world := (sys_world s)\<lparr>now := n\<rparr>\<rparr>)"
    by (rule sys_reaches_step [OF step_time sys_reaches_refl]) (use assms in \<open>simp add: becomes_def\<close>)
  show ?thesis
    by (rule becomes_on [OF assms(1) r]) (use assms(1,2) in \<open>simp_all add: talking_def becomes_def\<close>)
qed

lemma talking_runs:
  assumes "becomes U z s w ts" and "talking s i a c j b d" and "world_runs U w w' ps js"
  shows "\<exists>t. becomes U z t w' (ts @ ps) \<and> talking t i a c j b d"
proof -
  have r: "sys_reaches U s (s\<lparr>sys_world := w', tasks := tasks s @ ps, job_log := job_log s @ js\<rparr>)"
    by (rule world_runsD [OF assms(3)]) (use assms(1) in \<open>simp add: becomes_def\<close>)
  show ?thesis
    by (rule becomes_on [OF assms(1) r]) (use assms(1,2) in \<open>simp_all add: talking_def becomes_def\<close>)
qed

lemma talking_resumes:
  assumes "becomes U z s w ts" and "talking s i a c j b d" and "n < length ts" and "advances w (ts ! n) w' p'"
  shows "\<exists>t. becomes U z t w' (ts[n := p']) \<and> talking t i a c j b d"
proof -
  have r: "sys_reaches U s (s\<lparr>sys_world := w', tasks := (tasks s)[n := p']\<rparr>)"
    by (rule task_advances [OF assms(4)]) (use assms(1,3) in \<open>simp_all add: becomes_def\<close>)
  show ?thesis
    by (rule becomes_on [OF assms(1) r]) (use assms(1,2) in \<open>simp_all add: talking_def becomes_def\<close>)
qed

section \<open>The stages of a message\<close>

text \<open>A connection on which a user is known and from which a request of this id may come.\<close>

definition known_on :: "conn_context \<Rightarrow> u64 \<Rightarrow> ('q, 'u, 'o) world \<Rightarrow> bool" where
  "known_on ctx i w \<longleftrightarrow> (\<exists>m k. registered ctx m w \<and> notify_maps w m i = None \<and> user_of ctx w = Some k)"

lemma message_is_sent:
  assumes "runs_main U B X" and "tokio_runtime (su_tokio U) pv sv ov" and "known_on sdr (request_id p) w"
    and "payload p = Message msg" and "reachable pv rcv (msg_to msg) m c w"
  shows "\<exists>w1 r. world_runs U (w\<lparr>spawned := spawned w @ [Process_job sdr p]\<rparr>) w1
             [finishing (message_waiting (su_tokio U) sdr p (now w + secs 3) r)] [Process_job sdr p] \<and> now w1 = now w \<and>
           queued (outbox pv rcv w1) = queued (outbox pv rcv w) @ [packet_new c Map.empty (Message msg)] \<and>
           ov (oneshot_chans w1 r) = Waiting \<and> notify_maps w1 m c = Some r \<and> registered rcv m w1 \<and>
           (\<forall>x. x \<noteq> channel (handle rcv) \<longrightarrow> packet_chans w1 x = packet_chans w x)"
proof -
  let ?T = "su_tokio U"
  have kind: "\<not> login_packet p" "\<not> logout_packet p" "\<not> ping p"
    using assms(4) by (simp_all add: login_packet_def logout_packet_def ping_def)
  obtain js where js: "outcomes (process (main_processor ?T B X) sdr p) w =
      outcomes (server_process ?T sdr p) ((read_recorded sdr w)\<lparr>spawned := js\<rparr>)"
    using known_user_outcomes [OF _ _ kind] assms(3) unfolding known_on_def by blast
  let ?w = "(read_recorded sdr w)\<lparr>spawned := js\<rparr>"
  have reach: "reachable pv rcv (msg_to msg) m c ?w"
    using assms(5) by (auto simp: reachable_def registered_def outbox_def read_recorded_def put_attr_def str_bytes_def)
  obtain w1 where w1: "outcomes (server_process ?T sdr p) ?w =
      [(w1, Blocked (message_waiting ?T sdr p (now ?w + secs 3) (next_ref ?w)))]"
    "queued (outbox pv rcv w1) = queued (outbox pv rcv ?w) @ [packet_new c Map.empty (Message msg)]"
    "ov (oneshot_chans w1 (next_ref ?w)) = Waiting" "notify_maps w1 m c = Some (next_ref ?w)"
    "registered rcv m w1" "now w1 = now ?w" "\<And>r. r \<noteq> channel (handle rcv) \<Longrightarrow> packet_chans w1 r = packet_chans ?w r"
    using tokio_runtime.message_waits [OF assms(2) reach assms(4), where sdr = sdr] by metis
  let ?d = "now ?w + secs 3" and ?r = "next_ref ?w"
  have "world_runs U (w\<lparr>spawned := spawned w @ [Process_job sdr p]\<rparr>) w1
      [finishing (message_waiting ?T sdr p ?d ?r)] [Process_job sdr p]"
    using process_run [OF assms(1), of _ "spawned w" sdr p "[]" w1 "Blocked (message_waiting ?T sdr p ?d ?r)"] js w1(1) by simp
  then show ?thesis using w1(2-7) by (intro exI [of _ w1] exI [of _ ?r]) (simp add: outbox_def)
qed

lemma reply_is_handed:
  assumes "runs_main U B X" and "tokio_runtime (su_tokio U) pv sv ov"
    and "registered rcv m w" and "notify_maps w m (request_id reply) = Some r"
  shows "world_runs U (w\<lparr>spawned := spawned w @ [Process_job rcv reply]\<rparr>)
           (tokio_runtime.answered (su_tokio U) m r reply w) [Return None] [Process_job rcv reply]"
  using process_run [OF assms(1), of _ "spawned w" rcv reply "[]" "tokio_runtime.answered (su_tokio U) m r reply w" "Done ()"]
    tokio_runtime.sync_process_registered [OF assms(2-4)]
  by (simp add: main_process(1))

text \<open>The waiting task goes on: it puts the acknowledgement into the queue of its sender and ends.\<close>

lemma acknowledgement_is_queued:
  assumes "tokio_runtime (su_tokio U) pv sv ov" and "ov (oneshot_chans w r) = Waiting" and "accepts (outbox pv sdr w)"
  shows "\<exists>w1. advances (tokio_runtime.answered (su_tokio U) m r reply w)
             (finishing (message_waiting (su_tokio U) sdr p d r)) w1 (Return None) \<and>
           queued (outbox pv sdr w1) = queued (outbox pv sdr w) @ [packet_new (request_id p) Map.empty MessageSrvAck] \<and>
           (\<forall>x. x \<noteq> channel (handle sdr) \<longrightarrow> packet_chans w1 x = packet_chans w x)"
  using tokio_runtime.message_resumes [OF assms, of p d m reply]
  unfolding finishing_def
  by (force intro: advances_past [OF _ advances_refl] simp: outbox_def)

lemma silence_is_acknowledged:
  assumes "tokio_runtime (su_tokio U) pv sv ov" and "ov (oneshot_chans w r) = Waiting" and "accepts (outbox pv sdr w)"
    and "d \<le> now w"
  shows "\<exists>w1. advances w (finishing (message_waiting (su_tokio U) sdr p d r)) w1 (Return None) \<and> now w1 = now w \<and>
           queued (outbox pv sdr w1) = queued (outbox pv sdr w) @ [packet_new (request_id p) Map.empty MessageSrvAck] \<and>
           (\<forall>x. x \<noteq> channel (handle sdr) \<longrightarrow> packet_chans w1 x = packet_chans w x)"
  using tokio_runtime.message_gives_up [OF assms(1,2,4,3), of p]
  unfolding finishing_def
  by (force intro: advances_past [OF _ advances_refl] simp: outbox_def)

section \<open>Properties\<close>

text \<open>C2: a message is delivered and acknowledged by the running server.  Two connections are in their loops; the user
  of one is known, the other is that of the receiver of the message that the first yields next.  Then the
  server can go on, whatever its other connections and tasks are, so that the message is written to the
  receiver's connection under the next request id, and, when the peer answers it with a packet of that id, the
  acknowledgement under the id of the message is written to the sender's connection; both queues are empty then
  and both tasks have ended.\<close>

theorem message_delivered_by_server:
  assumes "runs_main U B X" and "tokio_runtime (su_tokio U) pv sv ov" and "talking s i sdr c j rcv d" and "w = sys_world s"
    and "conn_next (su_bytes U) (su_conn U) (su_de U) c = Some (Ok p, c1)" and "payload p = Message msg"
    and "known_on sdr (request_id p) w" and "accepts (outbox pv sdr w)"
    and "reachable pv rcv (msg_to msg) m n w" and "channel (handle sdr) \<noteq> channel (handle rcv)"
    and "writes (su_conn U) (su_ser U) (queued (outbox pv rcv w) @ [packet_new n Map.empty (Message msg)]) d d1"
    and "su_peer U d1 d2" and "conn_next (su_bytes U) (su_conn U) (su_de U) d2 = Some (Ok reply, d3)" and "request_id reply = n"
    and "writes (su_conn U) (su_ser U) (queued (outbox pv sdr w) @ [packet_new (request_id p) Map.empty MessageSrvAck]) c1 c2"
  shows "\<exists>t. sys_reaches U s t \<and> talking t i sdr c2 j rcv d3 \<and> tasks t = tasks s @ [Return None, Return None] \<and>
           queued (outbox pv sdr (sys_world t)) = [] \<and> queued (outbox pv rcv (sys_world t)) = []"
proof -
  let ?T = "su_tokio U" and ?a = "channel (handle sdr)" and ?b = "channel (handle rcv)" and ?n = "length (tasks s)"
  obtain s1 where s1: "becomes U s s1 (w\<lparr>spawned := spawned w @ [Process_job sdr p]\<rparr>) (tasks s)" "talking s1 i sdr c1 j rcv d"
    using talking_receives [OF becomes_start assms(3,5)] assms(4) by blast
  obtain w1 r where w1: "world_runs U (w\<lparr>spawned := spawned w @ [Process_job sdr p]\<rparr>) w1
      [finishing (message_waiting ?T sdr p (now w + secs 3) r)] [Process_job sdr p]"
    "queued (outbox pv rcv w1) = queued (outbox pv rcv w) @ [packet_new n Map.empty (Message msg)]"
    "ov (oneshot_chans w1 r) = Waiting" "notify_maps w1 m n = Some r" "registered rcv m w1"
    "packet_chans w1 ?a = packet_chans w ?a"
    using message_is_sent [OF assms(1,2,7,6,9)] assms(10) by blast
  let ?wait = "finishing (message_waiting ?T sdr p (now w + secs 3) r)"
  obtain s2 where s2: "becomes U s s2 w1 (tasks s @ [?wait])" "talking s2 i sdr c1 j rcv d"
    using talking_runs [OF s1 w1(1)] by blast
  have "writes (su_conn U) (su_ser U) (queued (outbox pv rcv w1)) d d1" using assms(11) w1(2) by simp
  then obtain s3 q where s3: "becomes U s s3 (w1\<lparr>packet_chans := (packet_chans w1)(?b := q)\<rparr>) (tasks s @ [?wait])"
    "talking s3 j rcv d1 i sdr c1" "queued (pv q) = []"
    using talking_writes [OF s2(1) talking_flip [OF s2(2)] assms(2)] by blast
  let ?w3 = "w1\<lparr>packet_chans := (packet_chans w1)(?b := q)\<rparr>"
  obtain s4 where s4: "becomes U s s4 ?w3 (tasks s @ [?wait])" "talking s4 j rcv d2 i sdr c1"
    using talking_peer [OF s3(1,2) assms(12)] by blast
  obtain s5 where s5: "becomes U s s5 (?w3\<lparr>spawned := spawned ?w3 @ [Process_job rcv reply]\<rparr>) (tasks s @ [?wait])"
    "talking s5 j rcv d3 i sdr c1"
    using talking_receives [OF s4 assms(13)] by blast
  let ?w5 = "tokio_runtime.answered ?T m r reply ?w3"
  have "registered rcv m ?w3" "notify_maps ?w3 m (request_id reply) = Some r"
    using w1(4,5) assms(14) by (simp_all add: registered_def)
  from talking_runs [OF s5 reply_is_handed [OF assms(1,2) this]]
  obtain s6 where s6: "becomes U s s6 ?w5 ((tasks s @ [?wait]) @ [Return None])" "talking s6 j rcv d3 i sdr c1" by blast
  have box: "outbox pv sdr ?w3 = outbox pv sdr w" using w1(6) assms(10) by (simp add: outbox_def)
  have "ov (oneshot_chans ?w3 r) = Waiting" "accepts (outbox pv sdr ?w3)" using w1(3) assms(8) box by simp_all
  from acknowledgement_is_queued [OF assms(2) this] obtain w6 where w6: "advances ?w5 ?wait w6 (Return None)"
    "queued (outbox pv sdr w6) = queued (outbox pv sdr ?w3) @ [packet_new (request_id p) Map.empty MessageSrvAck]"
    "packet_chans w6 ?b = packet_chans ?w3 ?b" using assms(10) by metis
  have "advances ?w5 (((tasks s @ [?wait]) @ [Return None]) ! ?n) w6 (Return None)" using w6(1) by (simp add: nth_append)
  from talking_resumes [OF s6(1) talking_flip [OF s6(2)] _ this] obtain s7 where
    s7: "becomes U s s7 w6 (tasks s @ [Return None, Return None])" "talking s7 i sdr c1 j rcv d3" by auto
  have "writes (su_conn U) (su_ser U) (queued (outbox pv sdr w6)) c1 c2" using assms(15) w6(2) box by simp
  from talking_writes [OF s7 assms(2) this] obtain s8 x where
    "becomes U s s8 (w6\<lparr>packet_chans := (packet_chans w6)(?a := x)\<rparr>) (tasks s @ [Return None, Return None])"
    "talking s8 i sdr c2 j rcv d3" "queued (pv x) = []" by blast
  then show ?thesis
    using w6(3) s3(3) assms(10) by (intro exI [of _ s8]) (auto simp: becomes_def outbox_def)
qed

text \<open>C39: a message that nobody receives is acknowledged.  When the receiver's connection writes nothing for three
  seconds, the server can write the acknowledgement of the message to the sender, as for a message that was
  delivered, although the message is still in the queue of the receiver's connection.\<close>

theorem unreceived_message_acknowledged:
  assumes "runs_main U B X" and "tokio_runtime (su_tokio U) pv sv ov" and "talking s i sdr c j rcv d" and "w = sys_world s"
    and "conn_next (su_bytes U) (su_conn U) (su_de U) c = Some (Ok p, c1)" and "payload p = Message msg"
    and "known_on sdr (request_id p) w" and "accepts (outbox pv sdr w)"
    and "reachable pv rcv (msg_to msg) m n w" and "channel (handle sdr) \<noteq> channel (handle rcv)"
    and "writes (su_conn U) (su_ser U) (queued (outbox pv sdr w) @ [packet_new (request_id p) Map.empty MessageSrvAck]) c1 c2"
  shows "\<exists>t. sys_reaches U s t \<and> talking t i sdr c2 j rcv d \<and> tasks t = tasks s @ [Return None] \<and>
           now (sys_world t) = now w + secs 3 \<and>
           queued (outbox pv rcv (sys_world t)) = queued (outbox pv rcv w) @ [packet_new n Map.empty (Message msg)]"
proof -
  let ?T = "su_tokio U" and ?a = "channel (handle sdr)" and ?b = "channel (handle rcv)" and ?d = "now w + secs 3"
  obtain s1 where s1: "becomes U s s1 (w\<lparr>spawned := spawned w @ [Process_job sdr p]\<rparr>) (tasks s)" "talking s1 i sdr c1 j rcv d"
    using talking_receives [OF becomes_start assms(3,5)] assms(4) by blast
  obtain w1 r where w1: "world_runs U (w\<lparr>spawned := spawned w @ [Process_job sdr p]\<rparr>) w1
      [finishing (message_waiting ?T sdr p ?d r)] [Process_job sdr p]" "now w1 = now w"
    "queued (outbox pv rcv w1) = queued (outbox pv rcv w) @ [packet_new n Map.empty (Message msg)]"
    "ov (oneshot_chans w1 r) = Waiting" "packet_chans w1 ?a = packet_chans w ?a"
    using message_is_sent [OF assms(1,2,7,6,9)] assms(10) by blast
  let ?wait = "finishing (message_waiting ?T sdr p ?d r)" and ?w2 = "w1\<lparr>now := ?d\<rparr>"
  obtain s2 where s2: "becomes U s s2 w1 (tasks s @ [?wait])" "talking s2 i sdr c1 j rcv d"
    using talking_runs [OF s1 w1(1)] by blast
  have "now w1 \<le> ?d" using w1(2) by simp
  from talking_time [OF s2 this] obtain s3 where s3: "becomes U s s3 ?w2 (tasks s @ [?wait])" "talking s3 i sdr c1 j rcv d" by blast
  have box: "outbox pv sdr ?w2 = outbox pv sdr w" using w1(5) by (simp add: outbox_def)
  have "ov (oneshot_chans ?w2 r) = Waiting" "accepts (outbox pv sdr ?w2)" "?d \<le> now ?w2" using w1(4) assms(8) box by simp_all
  from silence_is_acknowledged [OF assms(2) this] obtain w3 where w3: "advances ?w2 ?wait w3 (Return None)" "now w3 = ?d"
    "queued (outbox pv sdr w3) = queued (outbox pv sdr ?w2) @ [packet_new (request_id p) Map.empty MessageSrvAck]"
    "packet_chans w3 ?b = packet_chans ?w2 ?b" using assms(10) by (metis world.select_convs(1) world.surjective world.update_convs(1))
  have "advances ?w2 ((tasks s @ [?wait]) ! length (tasks s)) w3 (Return None)" using w3(1) by simp
  from talking_resumes [OF s3 _ this] obtain s4 where
    s4: "becomes U s s4 w3 (tasks s @ [Return None])" "talking s4 i sdr c1 j rcv d" by auto
  have "writes (su_conn U) (su_ser U) (queued (outbox pv sdr w3)) c1 c2" using assms(11) w3(3) box by simp
  from talking_writes [OF s4 assms(2) this] obtain s5 x where
    "becomes U s s5 (w3\<lparr>packet_chans := (packet_chans w3)(?a := x)\<rparr>) (tasks s @ [Return None])"
    "talking s5 i sdr c2 j rcv d" by blast
  then show ?thesis
    using w3(2,4) w1(3) assms(10) by (intro exI [of _ s5]) (auto simp: becomes_def outbox_def)
qed

text \<open>
  A server in which user 1 writes to user 2: the packet with id 5 is the message, every other packet that is
  read is an acknowledgement.
\<close>

definition chat_de :: "packet de_m" where
  "chat_de = and_then de_u64 (\<lambda>i d. (Ok (packet_new i Map.empty (if i = 5 then Message demo_message else MessageCliAck)), d))"

lemma chat_from_bytes:
  "from_bytes chat_de [5] = Ok (packet_new 5 Map.empty (Message demo_message))"
  "from_bytes chat_de [6] = Ok (packet_new 6 Map.empty MessageCliAck)"
  using from_bytes_u64_payload
  by (auto simp: chat_de_def from_bytes_def and_then_def split: prod.splits outcome.splits if_splits)

definition on_socket :: "bytes option list \<Rightarrow> bytes \<Rightarrow> bytes \<Rightarrow> (bytes option list \<times> bytes) tcp_connection" where
  "on_socket rs sent buf = \<lparr>stream = (rs, sent), buffer = buf\<rparr>"

lemma chunk_next:
  assumes "from_bytes de bs = Ok p" and "length bs < 2 ^ 32" and "buf @ c = frame bs @ rest" and "4 \<le> length rest" and "c \<noteq> []"
  shows "conn_next std_bytes (tcp script) de (on_socket (Some c # rs) sent buf) = Some (Ok p, on_socket rs sent rest)"
  using std.conn_next_completes [of bs script "(Some c # rs, sent)" c "(rs, sent)" buf rest de] assms
  by (simp add: script_def on_socket_def)

lemma socket_next:
  assumes "length bs < 2 ^ 32" and "from_bytes de bs = Ok p"
  shows "conn_next std_bytes (tcp script) de (on_socket [Some (frame bs @ [0, 0, 0, 9])] sent []) =
           Some (Ok p, on_socket [] sent [0, 0, 0, 9])"
  by (rule chunk_next [OF assms(2,1)]) simp_all

lemma chat_writes:
  assumes "request_id p = 5 \<and> k = 5 \<or> request_id p = 6 \<and> k = 6"
  shows "writes (tcp script) (\<lambda>p. serialize_u64 std_bytes (request_id p)) [p] (on_socket rs [] buf) (on_socket rs (frame [k]) buf)"
  using u64_payload assms
  by (auto simp: conn_write_def and_then_def tcp_write_buf_def script_def on_socket_def Let_def frame_def)

definition talk_world :: list_world where
  "talk_world = chat_world\<lparr>request_counter := [ctx_id demo_ctx \<mapsto> 6],
     attr_maps := (attr_maps chat_world)(12 := [str_bytes ''SYNC_NOTIFY'' \<mapsto> Any_notify_map 3, str_bytes ''USER_ID'' \<mapsto> Any_user_id 1])\<rparr>"

lemma talk_world_facts:
  "known_on demo_sender 5 talk_world" "reachable id demo_ctx (msg_to demo_message) 3 6 talk_world"
  "accepts (outbox id c talk_world)" "queued (outbox id c talk_world) = []"
  using chat_world_facts(1) chat_world_facts(2,3) [of c]
  by (auto simp: known_on_def registered_def user_of_def reachable_def outbox_def talk_world_def chat_world_def demo_world_def
      demo_sender_def demo_ctx_def str_bytes_def)

definition talk_server ::
  "(packet mpsc_view, unit mpsc_view, packet oneshot_view, (bytes option list \<times> bytes) tcp_connection) system" where
  "talk_server = \<lparr>sys_world = talk_world,
     links = [\<lparr>link_ctx = demo_sender, link_conn = on_socket [Some (frame [5] @ [0, 0, 0, 9])] [] [], link_prog = Return (Some Loop)\<rparr>,
              \<lparr>link_ctx = demo_ctx, link_conn = on_socket [] [] [], link_prog = Return (Some Loop)\<rparr>],
     tasks = [], job_log = []\<rparr>"

abbreviation talk_setup where "talk_setup \<equiv> demo_setup\<lparr>su_de := chat_de\<rparr>"

abbreviation talk_message where "talk_message \<equiv> packet_new 5 Map.empty (Message demo_message)"

lemma talk_setup_facts:
  "runs_main talk_setup std_bytes plain_crypto" "tokio_runtime (su_tokio talk_setup) id id id" "su_peer talk_setup c d"
  using demo_setup_select(4) list_runtime.tokio_runtime_axioms by (simp_all add: runs_main_def demo_setup_def)

lemma talk_server_facts:
  "talking talk_server 0 demo_sender (on_socket [Some (frame [5] @ [0, 0, 0, 9])] [] []) 1 demo_ctx (on_socket [] [] [])"
  "talk_world = sys_world talk_server" "payload talk_message = Message demo_message"
  "known_on demo_sender (request_id talk_message) talk_world"
  using talk_world_facts(1) by (simp_all add: talking_def talk_server_def)

lemma talk_nexts:
  "conn_next (su_bytes talk_setup) (su_conn talk_setup) (su_de talk_setup) (on_socket [Some (frame [5] @ [0, 0, 0, 9])] [] []) =
     Some (Ok talk_message, on_socket [] [] [0, 0, 0, 9])"
  "conn_next (su_bytes talk_setup) (su_conn talk_setup) (su_de talk_setup) (on_socket [Some (frame [6] @ [0, 0, 0, 9])] (frame [6]) []) =
     Some (Ok (packet_new 6 Map.empty MessageCliAck), on_socket [] (frame [6]) [0, 0, 0, 9])"
  using socket_next [OF _ chat_from_bytes(1), of "[]"] socket_next [OF _ chat_from_bytes(2), of "frame [6]"]
  by (simp_all add: demo_setup_def)

lemma talk_writes:
  "writes (su_conn talk_setup) (su_ser talk_setup)
     (queued (outbox id demo_ctx talk_world) @ [packet_new 6 Map.empty (Message demo_message)])
     (on_socket [] [] []) (on_socket [] (frame [6]) [])"
  "writes (su_conn talk_setup) (su_ser talk_setup)
     (queued (outbox id demo_sender talk_world) @ [packet_new (request_id talk_message) Map.empty MessageSrvAck])
     (on_socket [] [] [0, 0, 0, 9]) (on_socket [] (frame [5]) [0, 0, 0, 9])"
  using chat_writes [of "packet_new 6 Map.empty (Message demo_message)" 6 "[]" "[]"]
    chat_writes [of "packet_new 5 Map.empty MessageSrvAck" 5 "[]" "[0, 0, 0, 9]"]
  by (simp_all add: talk_world_facts(4) del: writes.simps)

theorem message_delivered_by_server_witness:
  "\<exists>t. sys_reaches talk_setup talk_server t \<and>
     talking t 0 demo_sender (on_socket [] (frame [5]) [0, 0, 0, 9]) 1 demo_ctx (on_socket [] (frame [6]) [0, 0, 0, 9])"
proof -
  have "request_id (packet_new 6 Map.empty MessageCliAck) = 6" by simp
  from message_delivered_by_server [OF talk_setup_facts(1,2) talk_server_facts(1,2) talk_nexts(1) talk_server_facts(3,4)
      talk_world_facts(3,2) demo_channels(1) talk_writes(1) talk_setup_facts(3) talk_nexts(2) this talk_writes(2)]
  show ?thesis by blast
qed

theorem unreceived_message_acknowledged_witness:
  "\<exists>t. sys_reaches talk_setup talk_server t \<and> now (sys_world t) = now talk_world + secs 3 \<and>
     talking t 0 demo_sender (on_socket [] (frame [5]) [0, 0, 0, 9]) 1 demo_ctx (on_socket [] [] []) \<and>
     queued (outbox id demo_ctx (sys_world t)) = [packet_new 6 Map.empty (Message demo_message)]"
  using unreceived_message_acknowledged [OF talk_setup_facts(1,2) talk_server_facts(1,2) talk_nexts(1) talk_server_facts(3,4)
      talk_world_facts(3,2) demo_channels(1) talk_writes(2)] talk_world_facts(4)
  by auto

text \<open>A login through the whole stack, up to the directory.\<close>

lemma login_reaches:
  assumes "runs_main U B X" and "i < length (links s)" and "link_prog (links s ! i) = Return (Some Loop)"
    and "ctx = link_ctx (links s ! i)" and "w = sys_world s"
    and "conn_next (su_bytes U) (su_conn U) (su_de U) (link_conn (links s ! i)) = Some (Ok p, c)"
    and "login_packet p" and "token_auth B X p = Ok k" and "registered ctx m w"
    and "notify_maps w m (request_id p) = None" and "notify_maps w m (- 1) \<noteq> Some (next_ref w)"
    and "\<not> counter_locked w" and "accepts (outbox pv ctx w)"
  shows "\<exists>t. sys_reaches U s t \<and> user_of ctx (sys_world t) = Some k \<and> reachable pv ctx k m (- 1) (sys_world t) \<and>
           links t = (links s)[i := (links s ! i)\<lparr>link_conn := c\<rparr>] \<and> notify_maps (sys_world t) = notify_maps w"
proof -
  let ?T = "su_tokio U" and ?n = "length (tasks s)"
  let ?w1 = "w\<lparr>spawned := spawned w @ [Process_job ctx p]\<rparr>" and ?w2 = "logged_in k ctx (w\<lparr>spawned := spawned w\<rparr>)"
  let ?w3 = "with_counter ctx (- 1) ?w2"
  let ?w4 = "published k ctx (?w3\<lparr>spawned := spawned w\<rparr>)"
  from next_processed [OF assms(6,2,3)]
  have s1: "becomes U s (s\<lparr>sys_world := ?w1, links := (links s)[i := (links s ! i)\<lparr>link_conn := c\<rparr>]\<rparr>) ?w1 (tasks s)"
    by (simp add: becomes_def assms(4,5))
  have "world_runs U ?w1 ?w2 [finishing (server_process ?T ctx p)] [Process_job ctx p]"
    using login_run [OF assms(1), of ?w1 "spawned w" ctx p "[]" m k] assms(7-10) by (simp add: registered_def)
  from becomes_runs [OF s1 this] obtain s2 where
    s2: "becomes U s s2 ?w2 (tasks s @ [finishing (server_process ?T ctx p)])" "links s2 = (links s)[i := (links s ! i)\<lparr>link_conn := c\<rparr>]" by auto
  have "outcomes (server_process ?T ctx p) ?w2 = [(?w3, Done ())]"
    by (rule server_login [OF _ assms(7)]) (use assms(12) in \<open>simp add: logged_in_def with_update_job_def\<close>)
  then have "advances ?w2 ((tasks s @ [finishing (server_process ?T ctx p)]) ! ?n) ?w3 (Return None)"
    unfolding finishing_def nth_append_length by (rule advances_past [OF _ advances_refl])
  from becomes_resumes [OF s2(1) _ this] obtain s3 where s3: "becomes U s s3 ?w3 (tasks s @ [Return None])" "links s3 = links s2" by auto
  have "world_runs U ?w3 ?w4 [Return None] [Update_state_job k ctx]"
    using publish_run [OF assms(1), of ?w3 "spawned w" k ctx "[]"]
    by (simp add: logged_in_def with_update_job_def with_counter_def)
  from becomes_runs [OF s3(1) this] obtain s4 where "sys_reaches U s s4" "sys_world s4 = ?w4" "links s4 = links s3"
    unfolding becomes_def by blast
  moreover have "user_of ctx ?w4 = Some k" "reachable pv ctx k m (- 1) ?w4"
    using assms(9-13)
    by (auto simp: user_of_def reachable_def registered_def outbox_def published_def logged_in_def with_update_job_def
        with_counter_def read_recorded_def put_attr_def str_bytes_def)
  moreover have "notify_maps ?w4 = notify_maps w"
    by (simp add: published_def logged_in_def with_update_job_def)
  ultimately show ?thesis using s2(2) s3(2) by metis
qed

text \<open>C11: a login can make its user reachable.  When a connection in its loop yields a login packet whose token
  authenticates the user, there is a run of the server after which the user of the connection is recorded, the
  directory names the connection for the user, and a message to the user is sent under the greatest request id.
  Not every run leads there: when a message to the user comes between the publishing and the start of the request
  ids, the login never gets to it.\<close>

theorem login_makes_reachable:
  assumes "runs_main U B X" and "i < length (links s)" and "link_prog (links s ! i) = Return (Some Loop)"
    and "ctx = link_ctx (links s ! i)" and "w = sys_world s"
    and "conn_next (su_bytes U) (su_conn U) (su_de U) (link_conn (links s ! i)) = Some (Ok p, c)"
    and "login_packet p" and "token_auth B X p = Ok k" and "registered ctx m w"
    and "notify_maps w m (request_id p) = None" and "notify_maps w m (- 1) \<noteq> Some (next_ref w)"
    and "\<not> counter_locked w" and "accepts (outbox pv ctx w)"
  shows "\<exists>t. sys_reaches U s t \<and> user_of ctx (sys_world t) = Some k \<and> reachable pv ctx k m (- 1) (sys_world t)"
  using login_reaches [OF assms] by blast

text \<open>The login of user 2 with a token that the test crypto accepts, and a message to that user from user 1.\<close>

definition token_login :: packet where
  "token_login = packet_new 1 Map.empty (Login (to_be_bytes (2 :: u64)) [] [] 0)"

lemma token_login_facts [simp]:
  "login_packet token_login" "token_auth std_bytes plain_crypto token_login = Ok 2"
  using std.get_u64 [of 2 "[]"]
  by (simp_all add: token_login_def login_packet_def token_auth_def parse_token_def decrypt_def plain_crypto_def)

definition login_de :: "packet de_m" where
  "login_de = and_then de_u64 (\<lambda>_ d. (Ok token_login, d))"

theorem login_makes_reachable_witness:
  "\<exists>t. sys_reaches (demo_setup\<lparr>su_de := login_de\<rparr>) (looping_on (on_socket [Some (frame [5] @ [0, 0, 0, 9])] [] []) demo_world) t \<and>
     user_of demo_ctx (sys_world t) = Some 2 \<and> reachable id demo_ctx 2 3 (- 1) (sys_world t)"
proof -
  let ?U = "demo_setup\<lparr>su_de := login_de\<rparr>" and ?s = "looping_on (on_socket [Some (frame [5] @ [0, 0, 0, 9])] [] []) demo_world"
  have main: "runs_main ?U std_bytes plain_crypto" using demo_setup_select(4) by (simp add: runs_main_def)
  have "from_bytes login_de [5] = Ok token_login"
    using from_bytes_u64_payload(1)
    by (auto simp: login_de_def from_bytes_def and_then_def split: prod.splits outcome.splits if_splits)
  then have "conn_next (su_bytes ?U) (su_conn ?U) (su_de ?U) (link_conn (links ?s ! 0)) =
      Some (Ok token_login, on_socket [] [] [0, 0, 0, 9])"
    using socket_next [of "[5]" login_de token_login "[]"] by (simp add: demo_setup_def)
  then show ?thesis
    using login_makes_reachable [OF main, of 0 ?s demo_ctx demo_world token_login _ 2 3 id] by simp
qed

end
