(* ===== verification/System_Properties.thy ===== *)
theory System_Properties
  imports Delivery Serde_Properties
begin

text \<open>
  Properties of the running server over every interleaving of its connections and tasks: the user
  of a connection is always one that a token proves, the directory refines the publishing of proven
  users, every packet in the queue of a connection is a message to its user or an answer to a packet
  of its own, and nothing panics but for short tokens.  Also the two orders of steps that do harm: the one
  after which the maps of the directory disagree, and that of a login and a message in which the
  request counter is locked for good.
\<close>

section \<open>A server whose request counter is locked for good\<close>

text \<open>
  The lock of the request counter is held, and no task and no connection that exists is the one
  that holds it.
\<close>

definition stuck :: "('q, 'u, 'o, 'c) system \<Rightarrow> bool" where
  "stuck s \<longleftrightarrow> server_keeps True counter_locked frozen s"

lemma stuck_for_ever:
  assumes "runs_main U B X" and "stuck s" and "sys_reaches U s t"
  shows "counter_locked (sys_world t) \<and> request_counter (sys_world t) = request_counter (sys_world s)"
proof -
  have run: "server_keeps True counter_locked frozen t \<and> frozen\<^sup>*\<^sup>* (sys_world s) (sys_world t)"
    by (rule stuck_server.server_run [OF assms(1) refl setup_sound_True assms(3) ballI [OF TrueI] ballI [OF TrueI] assms(2) [unfolded stuck_def]])
  then have "counter_locked (sys_world t)" by (simp add: server_keeps_def)
  moreover have "frozen\<^sup>*\<^sup>* w w' \<Longrightarrow> request_counter w' = request_counter w" for w w' :: "('a, 'b, 'c) world"
    by (induction rule: rtranclp_induct) (simp_all add: frozen_def)
  ultimately show ?thesis using run by blast
qed

section \<open>A message to a user whose login is not finished\<close>

lemma message_locks_out:
  assumes "payload p = Message msg" and "online_contexts w (msg_to msg) = Some rcv"
    and "request_counter w (ctx_id rcv) = None" and "\<not> counter_locked w"
  shows "\<exists>f. outcomes (server_process T ctx p) w = [(w\<lparr>counter_locked := True\<rparr>, Blocked (bind lock_counter f))]"
  using assms
  by (simp add: server_process_def process_message_def server_send_def gen_request_id_def counter_get_def
      outcomes_bind [of "get_context k" for k] get_context_def oss_get_context_def bind_assoc outcomes_lock_bind)
    blast

text \<open>The two packets whose order decides: the login of the receiver and a message to the receiver.\<close>

definition login_and_message ::
  "buf_ops \<Rightarrow> crypto_ops \<Rightarrow> conn_context \<Rightarrow> packet \<Rightarrow> conn_context \<Rightarrow> packet \<Rightarrow> u64 \<Rightarrow> ('q, 'u, 'o) world \<Rightarrow> bool" where
  "login_and_message B X rcv login sdr p k w \<longleftrightarrow>
     login_packet login \<and> token_auth B X login = Ok k \<and> (\<exists>msg. payload p = Message msg \<and> msg_to msg = k) \<and>
     (\<exists>m. registered rcv m w \<and> notify_maps w m (request_id login) = None) \<and>
     (\<exists>m. registered sdr m w \<and> notify_maps w m (request_id p) = None) \<and>
     user_of sdr w \<noteq> None \<and> attrs sdr \<noteq> attrs rcv \<and>
     request_counter w (ctx_id rcv) = None \<and> \<not> counter_locked w"

lemma race:
  assumes "runs_main U B X" and "tasks_keep True counter_locked frozen (tasks s)" and "links_keep True counter_locked frozen (links s)"
    and "login_and_message B X rcv login sdr p k (sys_world s)"
    and "spawned (sys_world s) = Process_job rcv login # Process_job sdr p # js"
  shows "\<exists>t. sys_reaches U s t \<and> stuck t \<and> request_counter (sys_world t) = request_counter (sys_world s)"
proof -
  let ?T = "su_tokio U" and ?w = "sys_world s"
  obtain msg mr ms u where ok: "login_packet login" "token_auth B X login = Ok k" "payload p = Message msg"
      "msg_to msg = k" "registered rcv mr ?w" "notify_maps ?w mr (request_id login) = None"
      "registered sdr ms ?w" "notify_maps ?w ms (request_id p) = None" "user_of sdr ?w = Some u"
      "attrs sdr \<noteq> attrs rcv" "request_counter ?w (ctx_id rcv) = None" "\<not> counter_locked ?w"
    using assms(4) unfolding login_and_message_def by blast
  have P: "su_processor U = main_processor ?T B X" "su_state U = online_state_server"
    using assms(1) by (simp_all add: runs_main_def)
  have kinds: "\<not> login_packet p" "\<not> logout_packet p" "\<not> ping p"
    using ok(3) by (simp_all add: login_packet_def logout_packet_def ping_def)
  let ?w1 = "logged_in k rcv (?w\<lparr>spawned := Process_job sdr p # js\<rparr>)" and ?q1 = "finishing (server_process ?T rcv login)"
  have "world_runs U ?w ?w1 [?q1] [Process_job rcv login]"
    using login_run [OF assms(1), of ?w "[]" rcv login "Process_job sdr p # js" mr k] ok assms(5) by (simp add: registered_def)
  moreover
  let ?v = "?w1\<lparr>spawned := Process_job sdr p # js\<rparr>"
  let ?w2 = "published k rcv ?v"
  have "world_runs U ?w1 ?w2 [Return None] [Update_state_job k rcv]"
    using publish_run [OF assms(1), of ?w1 "Process_job sdr p # js" k rcv "[]"] by (simp add: logged_in_def with_update_job_def)
  ultimately have before: "world_runs U ?w ?w2 [?q1, Return None] [Process_job rcv login, Update_state_job k rcv]"
    using world_runs_trans by fastforce
  let ?w3 = "?w2\<lparr>spawned := js\<rparr>"
  have w3: "registered sdr ms ?w3" "notify_maps ?w3 ms (request_id p) = None" "user_of sdr ?w3 = Some u"
    using ok by (simp_all add: published_def logged_in_def with_update_job_def read_recorded_def registered_def user_of_def)
  obtain ks where known: "outcomes (process (main_processor ?T B X) sdr p) ?w3 =
      outcomes (server_process ?T sdr p) ((read_recorded sdr ?w3)\<lparr>spawned := ks\<rparr>)"
    using known_user_outcomes [OF w3(1,2) kinds w3(3)] by blast
  let ?w4 = "(read_recorded sdr ?w3)\<lparr>spawned := ks, counter_locked := True\<rparr>"
  have "\<exists>f. outcomes (server_process ?T sdr p) ((read_recorded sdr ?w3)\<lparr>spawned := ks\<rparr>) =
      [(?w4, Blocked (bind lock_counter f))]"
    using message_locks_out [OF ok(3), of "(read_recorded sdr ?w3)\<lparr>spawned := ks\<rparr>" rcv ?T sdr] ok(4,11,12)
    by (simp add: published_def logged_in_def with_update_job_def read_recorded_def)
  then obtain f where "outcomes (process (main_processor ?T B X) sdr p) ?w3 = [(?w4, Blocked (bind lock_counter f))]"
    using known by auto
  then have "world_runs U ?w2 ?w4 [finishing (bind lock_counter f)] [Process_job sdr p]"
    using process_run [OF assms(1), of ?w2 "[]" sdr p js ?w4] by (simp add: published_def logged_in_def with_update_job_def)
  from world_runs_trans [OF before this] have run: "world_runs U ?w ?w4 [?q1, Return None, finishing (bind lock_counter f)]
      [Process_job rcv login, Update_state_job k rcv, Process_job sdr p]" by simp
  have "keeps True counter_locked frozen only_reactor ?q1" "keeps True counter_locked frozen only_reactor (finishing (bind lock_counter f))"
    unfolding finishing_def by (auto intro!: keeping_bind locked.server_process_keeps [where B = B and X = X] locked_out)
  then have "stuck (s\<lparr>sys_world := ?w4, tasks := tasks s @ [?q1, Return None, finishing (bind lock_counter f)],
      job_log := job_log s @ [Process_job rcv login, Update_state_job k rcv, Process_job sdr p]\<rparr>)"
    using assms(2,3) by (simp add: stuck_def server_keeps_def)
  moreover have "request_counter ?w4 = request_counter ?w"
    by (simp add: published_def logged_in_def with_update_job_def read_recorded_def)
  ultimately show ?thesis by - (rule exI, intro conjI, rule world_runsD [OF run refl], simp_all)
qed

section \<open>The connections of the messages\<close>

text \<open>A start from which nothing is known: no user, no job and no queued packet.\<close>

definition blank :: "('q \<Rightarrow> packet mpsc_view) \<Rightarrow> ('q, 'u, 'o) world \<Rightarrow> bool" where
  "blank pv w \<longleftrightarrow> no_users w \<and> spawned w = [] \<and> (\<forall>r. queued (pv (packet_chans w r)) = [])"

lemma blank_mail_posted: "blank pv w \<Longrightarrow> mail_posted pv B X K L w"
  by (auto simp: blank_def mail_posted_def no_users_proven) (simp add: no_users_def)

text \<open>In a run, mail is posted as it should be and packets are processed only for connections.\<close>

lemma mail_run:
  assumes "runs_main U B X" and "tokio_runtime (su_tokio U) pv sv ov" and "blank pv w" and "sys_reaches U (sys_start w) t"
    and "set (job_log t) \<subseteq> L" and "link_ctx ` set (links t) \<subseteq> K"
  shows "mail_posted pv B X K L (sys_world t) \<and> (\<forall>ctx p. Process_job ctx p \<in> set (job_log t) \<longrightarrow> ctx \<in> K)"
  using assms(4-6) unfolding sys_reaches_def
proof (induction rule: rtranclp_induct)
  case base
  then show ?case using blank_mail_posted [OF assms(3)] by (simp add: sys_start_def)
next
  case (step u v)
  have sub: "set (job_log u) \<subseteq> L" "link_ctx ` set (links u) \<subseteq> K"
    using job_log_grows [OF step(2)] link_ctxs_grow [OF step(2)] step(4,5) by auto
  have keep: "server_keeps True (mail_posted pv B X K L) (\<lambda>_. mail_posted pv B X K L) x"
    if "sys_reaches U (sys_start w) x" "set (job_log x) \<subseteq> L" "link_ctx ` set (links x) \<subseteq> K" for x
    by (rule tokio_runtime.mail_invariant [OF assms(2,1) refl setup_sound_True that(1)])
      (use that(2,3) blank_mail_posted [OF assms(3)] in auto)
  have "sys_reaches U (sys_start w) u" "sys_reaches U (sys_start w) v"
    using step(1,2) unfolding sys_reaches_def by auto
  then have mail: "mail_posted pv B X K L (sys_world v)" "tasks_keep True (mail_posted pv B X K L) (\<lambda>_. mail_posted pv B X K L) (tasks u)"
    using keep [of v] keep [of u] step(4,5) sub by (simp_all add: server_keeps_def)
  have "mail_posted pv B X K L (sys_world u)" "\<forall>ctx p. Process_job ctx p \<in> set (job_log u) \<longrightarrow> ctx \<in> K"
    using step(3) sub by blast+
  with step(2) mail(2) have "\<forall>ctx p. Process_job ctx p \<in> set (job_log v) \<longrightarrow> ctx \<in> K"
  proof (induction rule: sys_step.induct)
    case (step_again i s j)
    have "keeps True (mail_posted pv B X K L) (\<lambda>_. mail_posted pv B X K L) only_reactor (tasks s ! i)"
      by (rule keep_nth(1)) (use step_again in simp_all)
    then show ?case using step_again by (auto simp: only_reactor_def)
  qed (auto simp: mail_posted_def)
  with mail(1) show ?case by blast
qed

lemma queued_posted:
  assumes "runs_main U B X" and "tokio_runtime (su_tokio U) pv sv ov" and "blank pv w" and "sys_reaches U (sys_start w) s"
    and "q \<in> set (queued (pv (packet_chans (sys_world s) r)))"
  shows "posted B X (link_ctx ` set (links s)) (set (job_log s)) r q"
    and "\<forall>ctx p. Process_job ctx p \<in> set (job_log s) \<longrightarrow> ctx \<in> link_ctx ` set (links s)"
  using mail_run [OF assms(1-4), of "set (job_log s)" "link_ctx ` set (links s)"] assms(5)
  by (simp_all add: mail_posted_def)

text \<open>A token proves a user on the very connection.\<close>

lemma proven_on_link:
  assumes "runs_main U B X" and "sys_reaches U (sys_start w) s" and "ctx \<in> link_ctx ` set (links s)"
    and "\<forall>ctx p. Process_job ctx p \<in> set (job_log s) \<longrightarrow> ctx \<in> link_ctx ` set (links s)"
    and "proven B X (set (job_log s)) (attrs ctx) k"
  shows "\<exists>login. Process_job ctx login \<in> set (job_log s) \<and> login_packet login \<and> token_auth B X login = Ok k"
proof -
  obtain ctx' login where l: "Process_job ctx' login \<in> set (job_log s)" "attrs ctx' = attrs ctx" "login_packet login"
    "token_auth B X login = Ok k" using assms(5) unfolding proven_def by blast
  have "\<exists>i<length (links s). link_ctx (links s ! i) = x" if "x \<in> link_ctx ` set (links s)" for x
    using that by (metis imageE in_set_conv_nth)
  then obtain i j where ij: "i < length (links s)" "ctx = link_ctx (links s ! i)" "j < length (links s)" "ctx' = link_ctx (links s ! j)"
    using assms(3,4) l(1) by metis
  have "i = j" using links_always_apart [OF assms(1,2)] ij l(2) by (auto simp: links_apart_def indices_def)
  then show ?thesis using l ij by auto
qed

section \<open>Properties\<close>

text \<open>Reading from and writing to TCP does not panic by itself: what \<open>next\<close> consumes was in the buffer.\<close>

lemma tcp_sound:
  assumes "\<forall>p. to_bytes (ser p) \<noteq> Panic" and "\<forall>bs. from_bytes de bs \<noteq> Panic"
  shows "conn_sound Z B (tcp S) ser de"
proof -
  have "fst (conn_write (tcp S) ser p c) \<noteq> Panic" for p c
    using assms(1)
    by (auto simp: conn_write_def and_then_def tcp_write_buf_def from_serde_def Let_def
        split: outcome.splits prod.splits)
  moreover have "next_once B (tcp S) de c \<noteq> Some (Some Panic, d)" for c d
    using assms(2)
    by (auto simp: next_once_def and_then_def tcp_read_buf_def tcp_advance_def from_serde_def Let_def
        split: outcome.splits prod.splits option.splits if_splits)
  ultimately show ?thesis by (simp add: conn_sound_def)
qed

text \<open>C3: a user is who a token says.  In every state that the server reaches from a start without users, whatever the
  interleaving, when a user is recorded for a connection, or the directory names a connection for a user, then a
  login packet was processed for that connection whose token authenticates that very user.  In particular a
  message to a user goes only to connections on which the user has logged in.\<close>

theorem user_has_proven_identity:
  assumes "runs_main U B X" and "no_users w" and "sys_reaches U (sys_start w) s"
    and "user_of ctx (sys_world s) = Some k \<or> online_contexts (sys_world s) k = Some ctx"
  shows "\<exists>ctx' p. Process_job ctx' p \<in> set (job_log s) \<and> attrs ctx' = attrs ctx \<and> login_packet p \<and>
           token_auth B X p = Ok k"
proof -
  let ?good = "proven B X (set (job_log s))"
  have "server_keeps True (users_proven ?good) (users_step ?good) (sys_start w)"
    by (simp add: no_users_proven [OF assms(2)])
  from proven_server.server_invariant [OF assms(1) refl setup_sound_True assms(3) _ ballI [OF TrueI] this] have "users_proven ?good (sys_world s)"
    by (simp add: server_keeps_def)
  then show ?thesis
    using assms(4) by (auto simp: users_proven_def proven_def user_of_def bind_eq_Some_conv elim!: downcast_user_id.elims)
qed

text \<open>C7: the directory of users refines its specification.  The abstract directory is a map from users to
  connections with one operation: publish a connection for a user whom a login on that connection proves.  In
  every run of the server, the directory is at each step a state that the abstract directory reaches from the
  empty one; in particular a user who is online stays online for ever.\<close>

theorem directory_refines_publishing:
  assumes "runs_main U B X" and "no_users w" and "sys_reaches U (sys_start w) s" and "sys_reaches U s t"
  shows "(publishes (proven B X (set (job_log s))))\<^sup>*\<^sup>* Map.empty (online_contexts (sys_world s)) \<and>
         (publishes (proven B X (set (job_log t))))\<^sup>*\<^sup>* (online_contexts (sys_world s)) (online_contexts (sys_world t)) \<and>
         dom (online_contexts (sys_world s)) \<subseteq> dom (online_contexts (sys_world t))"
proof -
  have publishing: "(publishes good)\<^sup>*\<^sup>* (online_contexts x) (online_contexts y)" if "(users_step good)\<^sup>*\<^sup>* x y"
    for good and x y :: "('a, 'b, 'c) world"
    using that by (induction rule: rtranclp_induct) (auto simp: users_step_def intro: rtranclp.rtrancl_into_rtrancl)
  have grows: "dom d \<subseteq> dom d'" if "(publishes good)\<^sup>*\<^sup>* d d'" for good d d'
    using that by (induction rule: rtranclp_induct) (auto simp: publishes_def)
  have start: "server_keeps True (users_proven good) (users_step good) (sys_start w)" for good
    by (simp add: no_users_proven [OF assms(2)])
  let ?s = "proven B X (set (job_log s))" and ?t = "proven B X (set (job_log t))"
  have "(users_step ?s)\<^sup>*\<^sup>* w (sys_world s)"
    using proven_server.server_run [OF assms(1) refl setup_sound_True assms(3) _ ballI [OF TrueI] start, of "set (job_log s)"]
    by (simp add: sys_start_def)
  from publishing [OF this] have 1: "(publishes ?s)\<^sup>*\<^sup>* Map.empty (online_contexts (sys_world s))"
    using assms(2) by (simp add: no_users_def)
  have "set (job_log s) \<subseteq> set (job_log t)"
    using assms(4) unfolding sys_reaches_def by (induction rule: rtranclp_induct) (use job_log_grows in blast)+
  then have "server_keeps True (users_proven ?t) (users_step ?t) s"
    using proven_server.server_invariant [OF assms(1) refl setup_sound_True assms(3) _ ballI [OF TrueI] start, of "set (job_log t)"] by blast
  then have "(users_step ?t)\<^sup>*\<^sup>* (sys_world s) (sys_world t)"
    using proven_server.server_run [OF assms(1) refl setup_sound_True assms(4) _ ballI [OF TrueI], of "set (job_log t)"] by blast
  from publishing [OF this] 1 grows [OF publishing [OF this]] show ?thesis by blast
qed

text \<open>C8: the server does not panic.  It runs on TCP connections whose packets are serialized and deserialized without
  panics.  When none of the logins that were processed has a token that makes the authentication panic, which
  only a token of fewer than eight bytes does, no task and no connection of the server has panicked, in any state
  that it reaches.\<close>

theorem only_short_tokens_panic:
  assumes "runs_main U B X" and "su_conn U = tcp S" and "\<forall>p. to_bytes (su_ser U p) \<noteq> Panic"
    and "\<forall>bs. from_bytes (su_de U) bs \<noteq> Panic" and "sys_reaches U (sys_start w) s"
    and "\<forall>ctx p. Process_job ctx p \<in> set (job_log s) \<and> login_packet p \<longrightarrow> token_auth B X p \<noteq> Panic"
  shows "Panicked \<notin> set (tasks s) \<and> (\<forall>l\<in>set (links s). link_prog l \<noteq> Panicked)"
proof -
  have "setup_sound False U"
    unfolding setup_sound_def assms(2) by (rule tcp_sound [OF assms(3,4)])
  then have "server_keeps False (\<lambda>_. True) (\<lambda>_ _. True) s"
    by (rule calm_server.server_invariant [OF assms(1) refl _ assms(5)]) (use assms(6) in auto)
  then show ?thesis by (auto simp: server_keeps_def tasks_keep_def links_keep_def link_keeps_def)
qed

text \<open>C4: a message goes only to connections of its receiver.  When the server starts with nothing known, then in
  every state that it reaches, every message in the queue of a connection is there for a connection of the
  server on which the user to whom it is addressed has logged in with a valid token, and it came in on a
  connection on which some user has logged in with a valid token.  No message is made up or misdirected.\<close>

theorem messages_only_to_receiver:
  assumes "runs_main U B X" and "tokio_runtime (su_tokio U) pv sv ov" and "blank pv w" and "sys_reaches U (sys_start w) s"
    and "q \<in> set (queued (pv (packet_chans (sys_world s) r)))" and "payload q = Message msg"
  shows "(\<exists>l\<in>set (links s). channel (handle (link_ctx l)) = r \<and> (\<exists>login. Process_job (link_ctx l) login \<in> set (job_log s) \<and>
             login_packet login \<and> token_auth B X login = Ok (msg_to msg))) \<and>
         (\<exists>l\<in>set (links s). (\<exists>p. Process_job (link_ctx l) p \<in> set (job_log s) \<and> payload p = Message msg) \<and>
            (\<exists>k login. Process_job (link_ctx l) login \<in> set (job_log s) \<and> login_packet login \<and> token_auth B X login = Ok k))"
proof -
  let ?L = "set (job_log s)" and ?K = "link_ctx ` set (links s)"
  note run = queued_posted [OF assms(1-5)]
  from posted_message [OF run(1) assms(6)] obtain rcv sdr p k where posted: "rcv \<in> ?K" "channel (handle rcv) = r" "proven B X ?L (attrs rcv) (msg_to msg)"
    "sdr \<in> ?K" "Process_job sdr p \<in> ?L" "payload p = Message msg" "proven B X ?L (attrs sdr) k" by blast
  from proven_on_link [OF assms(1,4) posted(1) run(2) posted(3)] proven_on_link [OF assms(1,4) posted(4) run(2) posted(7)]
    posted(1,2,4-6) show ?thesis by blast
qed

text \<open>C5: what else the server writes are answers.  When the server starts with nothing known, then in every state
  that it reaches, a packet in the queue of a connection that is no message answers a packet, of the same
  request id, that came in on that very connection: it is the acknowledgement of a message from a user who has
  logged in there, the pong of a ping with its nonce, or the error of a login whose token was rejected.  No
  acknowledgement is made up or goes to somebody else, and the server never writes a login, a logout or a ping.\<close>

theorem answers_have_cause:
  assumes "runs_main U B X" and "tokio_runtime (su_tokio U) pv sv ov" and "blank pv w" and "sys_reaches U (sys_start w) s"
    and "q \<in> set (queued (pv (packet_chans (sys_world s) r)))" and "\<forall>msg. payload q \<noteq> Message msg"
  shows "\<exists>l\<in>set (links s). \<exists>p. channel (handle (link_ctx l)) = r \<and> Process_job (link_ctx l) p \<in> set (job_log s) \<and>
           request_id q = request_id p \<and>
           ((\<exists>msg k login. payload p = Message msg \<and> payload q = MessageSrvAck \<and>
               Process_job (link_ctx l) login \<in> set (job_log s) \<and> login_packet login \<and> token_auth B X login = Ok k) \<or>
            (\<exists>nonce. payload p = Ping nonce \<and> payload q = Pong nonce) \<or>
            (login_packet p \<and> (\<exists>e. token_auth B X p = Err e) \<and> payload q = Error 32 (str_bytes ''invalid token'')))"
proof -
  let ?L = "set (job_log s)" and ?K = "link_ctx ` set (links s)"
  note run = queued_posted [OF assms(1-5)]
  from posted_answer [OF run(1) assms(6)] obtain ctx p where
    p: "ctx \<in> ?K" "channel (handle ctx) = r" "Process_job ctx p \<in> ?L" "answers (proven B X ?L) B X ctx p q" by blast
  have login: "\<exists>login. Process_job ctx login \<in> ?L \<and> login_packet login \<and> token_auth B X login = Ok k"
    if "proven B X ?L (attrs ctx) k" for k
    by (rule proven_on_link [OF assms(1,4) p(1) run(2) that])
  from answersD [OF p(4)] have "request_id q = request_id p"
    and "(\<exists>msg k. payload p = Message msg \<and> proven B X ?L (attrs ctx) k \<and> payload q = MessageSrvAck) \<or>
      (\<exists>nonce. payload p = Ping nonce \<and> payload q = Pong nonce) \<or>
      (login_packet p \<and> (\<exists>e. token_auth B X p = Err e) \<and> payload q = Error 32 (str_bytes ''invalid token''))" by simp_all
  from this(2) have cause: "(\<exists>msg k login. payload p = Message msg \<and> payload q = MessageSrvAck \<and>
        Process_job ctx login \<in> ?L \<and> login_packet login \<and> token_auth B X login = Ok k) \<or>
      (\<exists>nonce. payload p = Ping nonce \<and> payload q = Pong nonce) \<or>
      (login_packet p \<and> (\<exists>e. token_auth B X p = Err e) \<and> payload q = Error 32 (str_bytes ''invalid token''))"
    by (rule disj_forward) (use login in blast, assumption)
  obtain l where l: "l \<in> set (links s)" "ctx = link_ctx l" using p(1) by auto
  show ?thesis
    by (rule bexI [OF _ l(1)], rule exI [of _ p], intro conjI)
      (rule p(2) [unfolded l(2)], rule p(3) [unfolded l(2)], fact, rule cause [unfolded l(2)])
qed

text \<open>C30: the two maps of the directory can come to disagree.  When two connections of a user, with different ids, are
  to be published, there is an order of the steps of the two tasks after which both have ended, without an error,
  and the directory names the second connection's context but the first connection's id for the user.  Nothing
  that either task still does mends it: only a later update for the user does.\<close>

theorem directory_maps_disagree:
  assumes "runs_main U B X" and "spawned (sys_world s) = Update_state_job k a # Update_state_job k b # js"
    and "ctx_id a \<noteq> ctx_id b"
  shows "\<exists>t. sys_reaches U s t \<and> tasks t = tasks s @ [Return None, Return None] \<and> spawned (sys_world t) = js \<and>
           online_contexts (sys_world t) k = Some b \<and> online_state (sys_world t) k = Some (ctx_id a) \<and>
           online_state (sys_world t) k \<noteq> Some (ctx_id b)"
proof -
  let ?w = "sys_world s"
  let ?w1 = "?w\<lparr>spawned := Update_state_job k b # js, online_contexts := (online_contexts ?w)(k \<mapsto> a)\<rparr>"
  let ?q = "bind (oss_put k (ctx_id a)) (\<lambda>_. bind (gets now) (\<lambda>t.
      bind (ctx_put_attr a (str_bytes ''STATE_LAST_SYNC'') (Any_instant t)) (\<lambda>_. Return None)))
      :: ('a, 'b, 'c, job option) task"
  let ?s1 = "s\<lparr>sys_world := ?w1, tasks := tasks s @ [?q], job_log := job_log s @ [Update_state_job k a]\<rparr>"
  let ?w2 = "published k b (?w1\<lparr>spawned := js\<rparr>)"
  let ?s2 = "?s1\<lparr>sys_world := ?w2, tasks := tasks ?s1 @ [Return None], job_log := job_log ?s1 @ [Update_state_job k b]\<rparr>"
  have start: "start_job (su_tokio U) (su_processor U) (su_state U) (Update_state_job k a) =
      bind (oss_put_local k a) (\<lambda>_. ?q)"
    by (simp add: start_job_def runs_main_parts [OF assms(1)] update_state_task_def online_state_server_def bind_assoc)
  have "advances (?w\<lparr>spawned := Update_state_job k b # js\<rparr>) (bind (oss_put_local k a) (\<lambda>_. ?q)) ?w1 ?q"
    by (rule advances_past [OF _ advances_refl]) (simp add: oss_put_local_def)
  then have "sys_reaches U s ?s1"
    using spawn_and_advance [of s "[]" "Update_state_job k a" "Update_state_job k b # js" U ?w1 ?q] assms(2)
    by (simp add: start)
  moreover have "world_runs U ?w1 ?w2 [Return None] [Update_state_job k b]"
    using publish_run [OF assms(1), of ?w1 "[]" k b js] by simp
  then have "sys_reaches U ?s1 ?s2" by (rule world_runsD) simp
  moreover obtain w3 where w3: "outcomes ?q ?w2 = [(w3, Done None)]" "online_contexts w3 k = Some b"
      "online_state w3 k = Some (ctx_id a)" "spawned w3 = js"
    by (simp add: oss_put_def published_def)
  then have "advances ?w2 ?q w3 (Return None)" by (intro advances_outcome) simp
  then have "sys_reaches U ?s2 (?s2\<lparr>sys_world := w3, tasks := (tasks ?s2)[length (tasks s) := Return None]\<rparr>)"
    by (rule task_advances) (simp_all add: nth_append)
  ultimately have reached: "sys_reaches U s (?s2\<lparr>sys_world := w3, tasks := (tasks ?s2)[length (tasks s) := Return None]\<rparr>)"
    using sys_reaches_trans by blast
  show ?thesis using w3 assms(3) by - (rule exI, intro conjI, rule reached, simp_all)
qed

text \<open>C12: a message to a user whose login is not finished stops the request ids for good.  The server is given two
  packets, the login of a user and a message to that user from another connection.  There is an order of its
  steps after which, in every state that it can reach, the lock of the request counter is held, so that no
  request id is issued and no counter is set: no message can be sent any more.\<close>

theorem login_race_deadlocks:
  assumes "runs_main U B X" and "tasks s = []" and "\<forall>l\<in>set (links s). \<exists>st. link_prog l = Return st"
    and "login_and_message B X rcv login sdr p k (sys_world s)"
    and "spawned (sys_world s) = Process_job rcv login # Process_job sdr p # js"
  shows "\<exists>t. sys_reaches U s t \<and> (\<forall>u. sys_reaches U t u \<longrightarrow>
           request_counter (sys_world u) = request_counter (sys_world s) \<and>
           (\<forall>ctx. \<exists>q. outcomes (gen_request_id ctx) (sys_world u) = [(sys_world u, Blocked q)]))"
proof -
  have "tasks_keep True counter_locked frozen (tasks s)" "links_keep True counter_locked frozen (links s)"
    using assms(2,3) by (auto simp: links_keep_def)
  from race [OF assms(1) this assms(4,5)] obtain t where
    t: "sys_reaches U s t" "stuck t" "request_counter (sys_world t) = request_counter (sys_world s)" by blast
  have "outcomes (gen_request_id ctx) w = [(w, Blocked (gen_request_id ctx))]" if "counter_locked w"
    for ctx and w :: "('a, 'b, 'c) world"
    using that by (simp add: gen_request_id_def outcomes_lock_bind)
  with stuck_for_ever [OF assms(1) t(2)] t(1,3) show ?thesis by metis
qed

section \<open>A login and a message\<close>

definition race_world :: list_world where
  "race_world = demo_world\<lparr>
     attr_maps := (attr_maps demo_world)(12 := [str_bytes ''SYNC_NOTIFY'' \<mapsto> Any_notify_map 3, str_bytes ''USER_ID'' \<mapsto> Any_user_id 1]),
     spawned := [Process_job demo_ctx token_login, Process_job demo_sender (packet_new 5 Map.empty (Message demo_message))]\<rparr>"

theorem login_race_deadlocks_witness:
  "\<exists>t. sys_reaches demo_setup (sys_start race_world) t \<and> (\<forall>u. sys_reaches demo_setup t u \<longrightarrow>
     (\<exists>q. outcomes (gen_request_id demo_ctx) (sys_world u) = [(sys_world u, Blocked q)]))"
proof -
  have "login_and_message std_bytes plain_crypto demo_ctx token_login demo_sender
      (packet_new 5 Map.empty (Message demo_message)) 2 race_world"
    by (auto simp: login_and_message_def race_world_def registered_def user_of_def demo_world_def demo_ctx_def
        demo_sender_def demo_message_def packet_new_def str_bytes_def)
  then show ?thesis
    using login_race_deadlocks [of demo_setup std_bytes plain_crypto "sys_start race_world" demo_ctx token_login demo_sender
        "packet_new 5 Map.empty (Message demo_message)" 2 "[]"]
    by (auto simp: sys_start_def race_world_def)
qed

text \<open>A server in which user 2 logs in: before, when the user is recorded, and when the user is online.\<close>

definition login_world :: list_world where
  "login_world = demo_world\<lparr>spawned := [Process_job demo_ctx token_login]\<rparr>"

definition logged_world :: list_world where
  "logged_world = logged_in 2 demo_ctx (demo_world\<lparr>spawned := []\<rparr>)"

definition online_world :: list_world where
  "online_world = published 2 demo_ctx (logged_world\<lparr>spawned := []\<rparr>)"

lemma login_world_facts [simp]:
  "no_users login_world" "user_of demo_ctx logged_world = Some 2" "online_contexts online_world = [2 \<mapsto> demo_ctx]"
  "online_contexts logged_world = Map.empty"
  by (simp_all add: no_users_def login_world_def logged_world_def online_world_def published_def logged_in_def
      with_update_job_def user_of_def demo_world_def str_bytes_def read_recorded_def)

lemma demo_runs:
  "world_runs demo_setup login_world logged_world [finishing (server_process list_tokio demo_ctx token_login)]
     [Process_job demo_ctx token_login]"
  "world_runs demo_setup logged_world online_world [Return None] [Update_state_job 2 demo_ctx]"
proof -
  show "world_runs demo_setup login_world logged_world [finishing (server_process list_tokio demo_ctx token_login)]
      [Process_job demo_ctx token_login]"
    using login_run [OF demo_setup_select(4), of login_world "[]" demo_ctx token_login "[]" 3 2]
    by (simp add: login_world_def logged_world_def registered_def demo_world_def)
  show "world_runs demo_setup logged_world online_world [Return None] [Update_state_job 2 demo_ctx]"
    using publish_run [OF demo_setup_select(4), of logged_world "[]" 2 demo_ctx "[]"]
    by (simp add: online_world_def logged_world_def logged_in_def with_update_job_def)
qed

definition logged_server ::
  "(packet mpsc_view, unit mpsc_view, packet oneshot_view, (bytes option list \<times> bytes) tcp_connection) system" where
  "logged_server = (sys_start login_world)\<lparr>sys_world := logged_world,
     tasks := [finishing (server_process list_tokio demo_ctx token_login)], job_log := [Process_job demo_ctx token_login]\<rparr>"

definition online_server ::
  "(packet mpsc_view, unit mpsc_view, packet oneshot_view, (bytes option list \<times> bytes) tcp_connection) system" where
  "online_server = logged_server\<lparr>sys_world := online_world, tasks := tasks logged_server @ [Return None],
     job_log := [Process_job demo_ctx token_login, Update_state_job 2 demo_ctx]\<rparr>"

lemma demo_server_runs:
  "sys_reaches demo_setup (sys_start login_world) logged_server" "sys_reaches demo_setup logged_server online_server"
  using world_runsD [OF demo_runs(1), of "sys_start login_world"] world_runsD [OF demo_runs(2), of logged_server]
  by (simp_all add: logged_server_def online_server_def sys_start_def)

lemma demo_server_select [simp]:
  "sys_world logged_server = logged_world" "job_log logged_server = [Process_job demo_ctx token_login]"
  "sys_world online_server = online_world"
  "job_log online_server = [Process_job demo_ctx token_login, Update_state_job 2 demo_ctx]"
  "tasks online_server = [finishing (server_process list_tokio demo_ctx token_login), Return None]"
  by (simp_all add: logged_server_def online_server_def)

theorem user_has_proven_identity_witness:
  "sys_reaches demo_setup (sys_start login_world) logged_server \<and> user_of demo_ctx (sys_world logged_server) = Some 2 \<and>
   (\<exists>ctx p. Process_job ctx p \<in> set (job_log logged_server) \<and> attrs ctx = attrs demo_ctx \<and> login_packet p \<and>
      token_auth std_bytes plain_crypto p = Ok 2)"
  using user_has_proven_identity [OF demo_setup_select(4) login_world_facts(1) demo_server_runs(1), of demo_ctx 2]
    demo_server_runs(1) by simp

theorem directory_refines_publishing_witness:
  "(publishes (proven std_bytes plain_crypto (set (job_log online_server))))\<^sup>*\<^sup>* Map.empty [2 \<mapsto> demo_ctx]"
  using directory_refines_publishing [OF demo_setup_select(4) login_world_facts(1) demo_server_runs] by simp

lemma demo_no_panic: "to_bytes (su_ser demo_setup p) \<noteq> Panic" "from_bytes (su_de demo_setup) bs \<noteq> Panic"
proof -
  show "to_bytes (su_ser demo_setup p) \<noteq> Panic"
    using to_bytes_encodes(1) [OF std.integer_encodes(4), of "request_id p"] by simp
  have "reads_safely (su_de demo_setup)"
    unfolding demo_setup_def deserialize_u64_def server_setup.simps
    by (intro reads_safely_and_then parse_unsigned_safe reads_safely_return) simp_all
  then show "from_bytes (su_de demo_setup) bs \<noteq> Panic" by (rule from_bytes_safe)
qed

theorem only_short_tokens_panic_witness:
  "sys_reaches demo_setup (sys_start login_world) online_server \<and> Panicked \<notin> set (tasks online_server)"
proof -
  have run: "sys_reaches demo_setup (sys_start login_world) online_server"
    by (rule sys_reaches_trans [OF demo_server_runs])
  have "Panicked \<notin> set (tasks online_server) \<and> (\<forall>l\<in>set (links online_server). link_prog l \<noteq> Panicked)"
    by (rule only_short_tokens_panic [OF demo_setup_select(4,2) _ _ run]) (use demo_no_panic in auto)
  with run show ?thesis by simp
qed

theorem directory_maps_disagree_witness:
  "\<exists>t. sys_reaches demo_setup (sys_start (demo_world\<lparr>spawned := [Update_state_job 2 demo_sender, Update_state_job 2 demo_ctx]\<rparr>)) t \<and>
     online_contexts (sys_world t) 2 = Some demo_ctx \<and> online_state (sys_world t) 2 = Some (str_bytes ''10.0.0.2:4712'')"
proof -
  have "ctx_id demo_sender \<noteq> ctx_id demo_ctx" by (simp add: ctx_id_def demo_sender_def demo_ctx_def str_bytes_def)
  from directory_maps_disagree [OF demo_setup_select(4) _ this,
      of "sys_start (demo_world\<lparr>spawned := [Update_state_job 2 demo_sender, Update_state_job 2 demo_ctx]\<rparr>)" 2 "[]"]
  show ?thesis by (auto simp: sys_start_def ctx_id_def demo_sender_def)
qed

lemma blank_empty: "blank id empty_world"
  by (simp add: blank_def no_users_def empty_world_def demo_world_def list_mpsc.channel [simplified])

text \<open>A user who logs in on the first connection of a server and writes to himself.\<close>

definition self_de :: "packet de_m" where
  "self_de = and_then de_u64 (\<lambda>i d.
     (Ok (if i = 5 then token_login else packet_new i Map.empty (Message demo_message)), d))"

lemma self_from_bytes:
  "from_bytes self_de [5] = Ok token_login" "from_bytes self_de [6] = Ok (packet_new 6 Map.empty (Message demo_message))"
  using from_bytes_u64_payload
  by (auto simp: self_de_def from_bytes_def and_then_def split: prod.splits outcome.splits if_splits)

lemma self_nexts:
  "conn_next std_bytes (tcp script) self_de (on_socket [Some (frame [5] @ [0, 0, 0, 1]), Some [6, 0, 0, 0, 9]] [] []) =
     Some (Ok token_login, on_socket [Some [6, 0, 0, 0, 9]] [] [0, 0, 0, 1])"
  "conn_next std_bytes (tcp script) self_de (on_socket [Some [6, 0, 0, 0, 9]] [] [0, 0, 0, 1]) =
     Some (Ok (packet_new 6 Map.empty (Message demo_message)), on_socket [] [] [0, 0, 0, 9])"
  by (rule chunk_next [OF self_from_bytes(1)]; simp)
    (rule chunk_next [OF self_from_bytes(2)]; simp add: frame_def to_be_bytes_def byte_of_def)

lemma self_message_queued:
  "\<exists>t (ctx :: conn_context). sys_reaches (demo_setup\<lparr>su_de := self_de\<rparr>) (sys_start empty_world) t \<and>
     packet_new (- 1) Map.empty (Message demo_message) \<in> set (queued (id (packet_chans (sys_world t) (channel (handle ctx)))))"
proof -
  let ?U = "demo_setup\<lparr>su_de := self_de\<rparr>" and ?p = "packet_new 6 Map.empty (Message demo_message)"
  let ?c = "on_socket [Some (frame [5] @ [0, 0, 0, 1]), Some [6, 0, 0, 0, 9]] [] []"
  have main: "runs_main ?U std_bytes plain_crypto" using demo_setup_select(4) by (simp add: runs_main_def)
  have tok: "tokio_runtime (su_tokio ?U) id id id" using list_runtime.tokio_runtime_axioms by simp
  have parts: "su_bytes ?U = std_bytes" "su_conn ?U = tcp script" "su_de ?U = self_de" by (simp_all add: demo_setup_def)
  obtain t1 ctx m r where t1: "sys_reaches ?U (sys_start empty_world) t1"
    "links t1 = [\<lparr>link_ctx = ctx, link_conn = ?c, link_prog = Return (Some Loop)\<rparr>]" "ready ctx m r (sys_world t1)"
    "outbox id ctx (sys_world t1) = \<lparr>queued = [], capacity = 256, receiver_gone = False, senders_gone = False\<rparr>"
    "\<not> counter_locked (sys_world t1)"
    using accept_ready [OF main tok, of "sys_start empty_world" ?c "[]"] by (auto simp: sys_start_def empty_world_def)
  have free: "accepts (outbox id ctx (sys_world t1))" "registered ctx m (sys_world t1)"
    "notify_maps (sys_world t1) m j = None" for j using t1(3,4) by (simp_all add: accepts_def ready_def)
  have "\<exists>t. sys_reaches ?U t1 t \<and> user_of ctx (sys_world t) = Some 2 \<and> reachable id ctx 2 m (- 1) (sys_world t) \<and>
      links t = (links t1)[0 := (links t1 ! 0)\<lparr>link_conn := on_socket [Some [6, 0, 0, 0, 9]] [] [0, 0, 0, 1]\<rparr>] \<and>
      notify_maps (sys_world t) = notify_maps (sys_world t1)"
    by (rule login_reaches [OF main, where p = token_login]) (use t1(2,5) free self_nexts(1) in \<open>simp_all add: parts\<close>)
  then obtain t2 where t2: "sys_reaches ?U t1 t2" "user_of ctx (sys_world t2) = Some 2" "reachable id ctx 2 m (- 1) (sys_world t2)"
    "links t2 = [\<lparr>link_ctx = ctx, link_conn = on_socket [Some [6, 0, 0, 0, 9]] [] [0, 0, 0, 1], link_prog = Return (Some Loop)\<rparr>]"
    "notify_maps (sys_world t2) = notify_maps (sys_world t1)" using t1(2) by auto
  let ?w = "sys_world t2"
  let ?t3 = "t2\<lparr>sys_world := ?w\<lparr>spawned := spawned ?w @ [Process_job ctx ?p]\<rparr>,
      links := [\<lparr>link_ctx = ctx, link_conn = on_socket [] [] [0, 0, 0, 9], link_prog = Return (Some Loop)\<rparr>]\<rparr>"
  have t3: "sys_reaches ?U t2 ?t3"
    using next_processed [of ?U t2 0 ?p "on_socket [] [] [0, 0, 0, 9]"] t2(4) self_nexts(2) by (simp add: parts)
  have "known_on ctx (request_id ?p) ?w" "payload ?p = Message demo_message" "reachable id ctx (msg_to demo_message) m (- 1) ?w"
    using t2(2,3,5) free(3) unfolding known_on_def reachable_def by auto
  from message_is_sent [OF main tok this] obtain w1 ps where
    w1: "world_runs ?U (?w\<lparr>spawned := spawned ?w @ [Process_job ctx ?p]\<rparr>) w1 ps [Process_job ctx ?p]"
    "queued (outbox id ctx w1) = queued (outbox id ctx ?w) @ [packet_new (- 1) Map.empty (Message demo_message)]" by blast
  from world_runsD [OF w1(1), of ?t3] have
    "sys_reaches ?U ?t3 (?t3\<lparr>sys_world := w1, tasks := tasks ?t3 @ ps, job_log := job_log ?t3 @ [Process_job ctx ?p]\<rparr>)" by simp
  note reached = sys_reaches_trans [OF sys_reaches_trans [OF sys_reaches_trans [OF t1(1) t2(1)] t3] this]
  show ?thesis
    by (rule exI, rule exI [of _ ctx], rule conjI, rule reached) (use w1(2) in \<open>simp add: outbox_def\<close>)
qed

text \<open>A login that a server without keys rejects.\<close>

abbreviation reject_setup where
  "reject_setup \<equiv> demo_setup\<lparr>su_de := self_de, su_processor := main_processor list_tokio std_bytes no_crypto\<rparr>"

lemma rejection_queued:
  "\<exists>t (ctx :: conn_context). sys_reaches reject_setup (sys_start empty_world) t \<and>
     packet_new 1 Map.empty (Error 32 (str_bytes ''invalid token'')) \<in>
       set (queued (id (packet_chans (sys_world t) (channel (handle ctx)))))"
proof -
  let ?U = reject_setup and ?c = "on_socket [Some (frame [5] @ [0, 0, 0, 1]), Some [6, 0, 0, 0, 9]] [] []"
  have main: "runs_main ?U std_bytes no_crypto" using demo_setup_select(4) by (simp add: runs_main_def demo_setup_def)
  have tok: "tokio_runtime (su_tokio ?U) id id id" using list_runtime.tokio_runtime_axioms by simp
  have parts: "su_bytes ?U = std_bytes" "su_conn ?U = tcp script" "su_de ?U = self_de" by (simp_all add: demo_setup_def)
  obtain t1 ctx m r where t1: "sys_reaches ?U (sys_start empty_world) t1"
    "links t1 = [\<lparr>link_ctx = ctx, link_conn = ?c, link_prog = Return (Some Loop)\<rparr>]" "ready ctx m r (sys_world t1)"
    "outbox id ctx (sys_world t1) = \<lparr>queued = [], capacity = 256, receiver_gone = False, senders_gone = False\<rparr>"
    using accept_ready [OF main tok, of "sys_start empty_world" ?c "[]"] by (auto simp: sys_start_def)
  let ?w = "(sys_world t1)\<lparr>spawned := spawned (sys_world t1) @ [Process_job ctx token_login]\<rparr>"
  let ?t2 = "t1\<lparr>sys_world := ?w, links := [\<lparr>link_ctx = ctx, link_conn = on_socket [Some [6, 0, 0, 0, 9]] [] [0, 0, 0, 1],
      link_prog = Return (Some Loop)\<rparr>]\<rparr>"
  have t2: "sys_reaches ?U t1 ?t2"
    using next_processed [of ?U t1 0 token_login "on_socket [Some [6, 0, 0, 0, 9]] [] [0, 0, 0, 1]"] t1(2) self_nexts(1)
    by (simp add: parts)
  have rej: "login_packet token_login" "token_auth std_bytes no_crypto token_login = Err (InvalidToken 1)"
    by (simp_all add: token_login_def login_packet_def token_auth_def parse_token_def no_crypto_def packet_request_id_def)
  have free: "registered ctx m ?w" "notify_maps ?w m (request_id token_login) = None" "accepts (outbox id ctx ?w)"
    "queued (outbox id ctx ?w) = []"
    using t1(3,4) by (simp_all add: ready_def accepts_def registered_def outbox_def)
  obtain w' where w': "world_runs ?U ?w w' [Return None] [Process_job ctx token_login]"
    "queued (outbox id ctx w') = [auth_error_into_packet (InvalidToken 1)]"
    using rejection_run [OF main tok _ free(1,2) rej free(3), of "spawned (sys_world t1)" "[]"] free(4) by auto
  note reached = sys_reaches_trans [OF sys_reaches_trans [OF t1(1) t2] world_runsD [OF w'(1), of ?t2, simplified]]
  show ?thesis
    by (rule exI, rule exI [of _ ctx], rule conjI, rule reached) (use w'(2) in \<open>simp add: outbox_def auth_error_into_packet_def\<close>)
qed

theorem answers_have_cause_witness:
  "\<exists>t. sys_reaches reject_setup (sys_start empty_world) t \<and>
     (\<exists>l\<in>set (links t). queued (packet_chans (sys_world t) (channel (handle (link_ctx l)))) \<noteq> [] \<and>
        (\<exists>p e. Process_job (link_ctx l) p \<in> set (job_log t) \<and> request_id p = 1 \<and> token_auth std_bytes no_crypto p = Err e))"
proof -
  let ?q = "packet_new 1 Map.empty (Error 32 (str_bytes ''invalid token''))"
  obtain t and ctx :: conn_context where t: "sys_reaches reject_setup (sys_start empty_world) t"
    "?q \<in> set (queued (id (packet_chans (sys_world t) (channel (handle ctx)))))"
    using rejection_queued by blast
  have main: "runs_main reject_setup std_bytes no_crypto" using demo_setup_select(4) by (simp add: runs_main_def demo_setup_def)
  have tok: "tokio_runtime (su_tokio reject_setup) id id id" using list_runtime.tokio_runtime_axioms by simp
  have mail: "\<forall>msg. payload ?q \<noteq> Message msg" by simp
  obtain l p e where l: "l \<in> set (links t)" "channel (handle (link_ctx l)) = channel (handle ctx)"
    "Process_job (link_ctx l) p \<in> set (job_log t)" "request_id p = 1" "token_auth std_bytes no_crypto p = Err e"
    using answers_have_cause [OF main tok blank_empty t mail] by auto
  show ?thesis
    by (rule exI, rule conjI, rule t(1), rule bexI [OF _ l(1)], rule conjI) (use t(2) l in auto)
qed

theorem messages_only_to_receiver_witness:
  "\<exists>t. sys_reaches (demo_setup\<lparr>su_de := self_de\<rparr>) (sys_start empty_world) t \<and>
     (\<exists>l\<in>set (links t). queued (packet_chans (sys_world t) (channel (handle (link_ctx l)))) \<noteq> [] \<and>
        (\<exists>login. Process_job (link_ctx l) login \<in> set (job_log t) \<and> login_packet login \<and>
           token_auth std_bytes plain_crypto login = Ok 2))"
proof -
  let ?U = "demo_setup\<lparr>su_de := self_de\<rparr>" and ?q = "packet_new (- 1) Map.empty (Message demo_message)"
  obtain t and ctx :: conn_context where t: "sys_reaches ?U (sys_start empty_world) t"
    "?q \<in> set (queued (id (packet_chans (sys_world t) (channel (handle ctx)))))"
    using self_message_queued by blast
  have main: "runs_main ?U std_bytes plain_crypto" using demo_setup_select(4) by (simp add: runs_main_def)
  have tok: "tokio_runtime (su_tokio ?U) id id id" using list_runtime.tokio_runtime_axioms by simp
  have mail: "payload ?q = Message demo_message" by (simp add: packet_new_def)
  obtain l login where l: "l \<in> set (links t)" "channel (handle (link_ctx l)) = channel (handle ctx)"
    "Process_job (link_ctx l) login \<in> set (job_log t)" "login_packet login"
    "token_auth std_bytes plain_crypto login = Ok (msg_to demo_message)"
    using messages_only_to_receiver [OF main tok blank_empty t mail] by blast
  show ?thesis
    by (rule exI, rule conjI, rule t(1), rule bexI [OF _ l(1)], rule conjI) (use t(2) l in auto)
qed

end
