(* ===== verification/Client.thy ===== *)
theory Client
  imports Connection World
begin

text \<open>
  The test client, \<open>im/src/client.rs\<close>: its event loop sends what the owner of the client puts into
  the channel, acknowledges the messages it receives, and ends when the owner is gone.  The
  channel of payloads is tokio's and the connection is a parameter.
\<close>

record ('p, 'c) client_world =
  payload_chan :: 'p
  id_generator :: u64
  send_counter :: u64
  rev_counter :: u64
  client_conn :: 'c
  client_now :: nat

type_synonym ('p, 'c, 'a) client_task = "(('p, 'c) client_world, 'a) prog"

definition login_payload :: "rstring \<Rightarrow> payload" where
  "login_payload token = Login token (str_bytes ''1'') (str_bytes ''rust'') 32"

definition message_payload :: "u64 \<Rightarrow> u64 \<Rightarrow> payload" where
  "message_payload from_user to_user =
     Message \<lparr>msg_from = from_user, msg_to = to_user, timestamp = 32, seq = 1,
              msg_type = str_bytes ''text'', content = str_bytes ''hello''\<rparr>"

text \<open>\<open>unwrap\<close> on the result of a send panics when the receiver is gone.\<close>

definition client_send :: "(payload, 'p) mpsc_ops \<Rightarrow> payload \<Rightarrow> ('p, 'c, unit) client_task" where
  "client_send M data =
     bind (await (\<lambda>w. case mpsc_send M data (payload_chan w) of
             None \<Rightarrow> []
           | Some (ok, q) \<Rightarrow> [(w\<lparr>payload_chan := q\<rparr>, ok)])) (\<lambda>ok.
     if ok then Return () else Panicked)"

text \<open>\<open>fetch_add\<close> yields the value before the addition, which wraps around.\<close>

definition fetch_add_id :: "('p, 'c, u64) client_task" where
  "fetch_add_id = atomic (\<lambda>w. (w\<lparr>id_generator := id_generator w + 1\<rparr>, id_generator w))"

definition write_unwrap ::
  "'c connection \<Rightarrow> (packet \<Rightarrow> serialize) \<Rightarrow> packet \<Rightarrow> ('p, 'c, unit) client_task" where
  "write_unwrap C ser p =
     bind (atomic (\<lambda>w. let (r, c) = conn_write C ser p (client_conn w) in (w\<lparr>client_conn := c\<rparr>, r))) (\<lambda>r.
     case r of Ok _ \<Rightarrow> Return () | _ \<Rightarrow> Panicked)"

text \<open>What the event loop does with a packet that it received; \<open>assert_eq!\<close> panics.\<close>

definition client_receive ::
  "'c connection \<Rightarrow> (packet \<Rightarrow> serialize) \<Rightarrow> u64 \<Rightarrow> packet \<Rightarrow> ('p, 'c, unit) client_task" where
  "client_receive C ser ident p =
     (case payload p of
        Message m \<Rightarrow>
          (if ident \<noteq> msg_to m then Panicked
           else write_unwrap C ser (packet_new (request_id p) Map.empty MessageCliAck))
      | MessageSrvAck \<Rightarrow> Return ()
      | _ \<Rightarrow> Return ())"

text \<open>One turn of the event loop; the result says whether the loop goes on.\<close>

definition event_loop ::
  "(payload, 'p) mpsc_ops \<Rightarrow> buf_ops \<Rightarrow> 'c connection \<Rightarrow> (packet \<Rightarrow> serialize) \<Rightarrow> packet de_m \<Rightarrow>
   u64 \<Rightarrow> ('p, 'c, bool) client_task" where
  "event_loop M B C ser de ident = Act (\<lambda>w.
     (case mpsc_recv M (payload_chan w) of
        None \<Rightarrow> []
      | Some (send_data, q) \<Rightarrow>
          [(w\<lparr>payload_chan := q\<rparr>,
            case send_data of
              None \<Rightarrow> Return False
            | Some data \<Rightarrow>
                bind fetch_add_id (\<lambda>i.
                bind (modify (\<lambda>w. w\<lparr>send_counter := send_counter w + 1\<rparr>)) (\<lambda>_.
                bind (write_unwrap C ser (packet_new i Map.empty data)) (\<lambda>_. Return True))))]) @
     (case next_once B C de (client_conn w) of
        None \<Rightarrow> []
      | Some (maybe_packet, c) \<Rightarrow>
          [(w\<lparr>client_conn := c\<rparr>,
            case maybe_packet of
              None \<Rightarrow> Return True
            | Some (Ok p) \<Rightarrow> bind (client_receive C ser ident p) (\<lambda>_. Return True)
            | Some _ \<Rightarrow> Panicked)]))"

text \<open>
  \<open>Client::new\<close>, given the result of \<open>connect\<close>, on which \<open>unwrap\<close> panics: the state, a turn of the event loop
  that is spawned, and what \<open>new\<close> goes on with, which is to send the login.
\<close>

definition client_new ::
  "(payload, 'p) mpsc_ops \<Rightarrow> buf_ops \<Rightarrow> 's tcp_stream \<Rightarrow> (packet \<Rightarrow> serialize) \<Rightarrow> packet de_m \<Rightarrow> u64 \<Rightarrow> rstring \<Rightarrow> 's option \<Rightarrow>
   (('p, 's tcp_connection) client_world \<times> ('p, 's tcp_connection, bool) client_task \<times>
    ('p, 's tcp_connection, unit) client_task, unit) outcome" where
  "client_new M B S ser de ident token connected =
     (case connected of
        None \<Rightarrow> Panic
      | Some socket \<Rightarrow>
          Ok (\<lparr>payload_chan = mpsc_channel M 1, id_generator = 1, send_counter = 0, rev_counter = 0,
               client_conn = tcp_connection_new socket, client_now = 0\<rparr>,
              event_loop M B (tcp S) ser de ident,
              client_send M (login_payload token)))"

text \<open>\<open>sleep\<close> waits until the time has passed.\<close>

definition client_sleep :: "nat \<Rightarrow> ('p, 'c, unit) client_task" where
  "client_sleep d =
     bind (gets client_now) (\<lambda>t. await (\<lambda>w. if t + d \<le> client_now w then [(w, ())] else []))"

text \<open>
  The loop of \<open>auto_client\<close>, for the random numbers that it draws, one in each turn.  \<open>%\<close> panics on zero; the
  addition cannot overflow, since the remainder is less than the divisor.
\<close>

fun auto_client :: "(payload, 'p) mpsc_ops \<Rightarrow> u64 \<Rightarrow> u64 \<Rightarrow> u64 list \<Rightarrow> ('p, 'c, unit) client_task" where
  "auto_client M ident max_user_id [] = Return ()"
| "auto_client M ident max_user_id (random # randoms) =
     (if max_user_id = 0 then Panicked
      else
        let to_account = random mod max_user_id + 1 in
        bind (client_send M (message_payload ident to_account)) (\<lambda>_.
        bind (client_sleep (secs 1)) (\<lambda>_.
        auto_client M ident max_user_id randoms)))"

end
