(* ===== verification/Client_Properties.thy ===== *)
theory Client_Properties
  imports Client Server_Properties Connection_Life
begin

text \<open>
  The test client and the server together: how the client numbers what it sends, how it answers a
  message, and the whole way of a message from one connection to the client of another and back.
\<close>

section \<open>What the client does with a packet\<close>

lemma client_acknowledges:
  assumes "payload p = Message msg" and "ident = msg_to msg"
    and "conn_write C ser (packet_new (request_id p) Map.empty MessageCliAck) (client_conn v) = (Ok (), d)"
  shows "outcomes (client_receive C ser ident p) v = [(v\<lparr>client_conn := d\<rparr>, Done ())]"
  using assms by (simp add: client_receive_def write_unwrap_def bind_assoc)

text \<open>The packets that the client makes of payloads, numbered from \<open>n\<close> on.\<close>

primrec numbered :: "u64 \<Rightarrow> payload list \<Rightarrow> packet list" where
  "numbered n [] = []"
| "numbered n (d # ds) = packet_new n Map.empty d # numbered (n + 1) ds"

lemma request_ids_numbered: "map request_id (numbered n ds) = map (\<lambda>i. n + of_nat i) [0..<length ds]"
proof (induction ds arbitrary: n)
  case (Cons d ds)
  have "map (\<lambda>i. n + 1 + of_nat i) [0..<length ds] = map (\<lambda>i. n + of_nat i) [Suc 0..<Suc (length ds)]"
    unfolding map_Suc_upt [symmetric] by (simp add: ac_simps)
  then show ?case using Cons by (simp add: upt_conv_Cons del: upt_Suc)
qed simp

lemma numbered_distinct: "length ds \<le> 2 ^ 64 \<Longrightarrow> distinct (map request_id (numbered n ds))"
  unfolding request_ids_numbered
  by (auto simp: distinct_map inj_on_def unat_of_nat dest!: arg_cong [of "of_nat _ :: u64" _ unat])

text \<open>Turns of the event loop, each of which goes on with the loop.\<close>

inductive loops ::
  "(payload, 'p) mpsc_ops \<Rightarrow> buf_ops \<Rightarrow> 'c connection \<Rightarrow> (packet \<Rightarrow> serialize) \<Rightarrow> packet de_m \<Rightarrow> u64 \<Rightarrow>
   ('p, 'c) client_world \<Rightarrow> ('p, 'c) client_world \<Rightarrow> bool"
  for M :: "(payload, 'p) mpsc_ops" and B :: buf_ops and C :: "'c connection" and ser :: "packet \<Rightarrow> serialize"
    and de :: "packet de_m" and ident :: u64 where
  loops_refl: "loops M B C ser de ident v v"
| loops_turn: "(u, Done True) \<in> set (outcomes (event_loop M B C ser de ident) v) \<Longrightarrow>
    loops M B C ser de ident u v' \<Longrightarrow> loops M B C ser de ident v v'"

lemma event_loop_sends:
  assumes "mpsc_recv M (payload_chan v) = Some (Some data, q)"
    and "conn_write C ser (packet_new (id_generator v) Map.empty data) (client_conn v) = (Ok (), d)"
  shows "(v\<lparr>payload_chan := q, id_generator := id_generator v + 1, send_counter := send_counter v + 1, client_conn := d\<rparr>,
          Done True) \<in> set (outcomes (event_loop M B C ser de ident) v)"
  using assms
  by (simp add: event_loop_def outcomes_Act fetch_add_id_def write_unwrap_def bind_assoc del: outcomes.simps(3))

lemma client_sends_all:
  assumes "mpsc M view"
  shows "queued (view (payload_chan v)) = ds \<Longrightarrow> writes C ser (numbered (id_generator v) ds) (client_conn v) c' \<Longrightarrow>
    \<exists>v'. loops M B C ser de ident v v' \<and> client_conn v' = c' \<and> queued (view (payload_chan v')) = [] \<and>
      id_generator v' = id_generator v + of_nat (length ds)"
proof (induction ds arbitrary: v)
  case Nil
  then show ?case using loops_refl by fastforce
next
  case (Cons data ds)
  obtain q where q: "mpsc_recv M (payload_chan v) = Some (Some data, q)" "queued (view q) = ds"
    using mpsc.recv [OF assms Cons.prems(1)] by force
  obtain d where d: "conn_write C ser (packet_new (id_generator v) Map.empty data) (client_conn v) = (Ok (), d)"
    "writes C ser (numbered (id_generator v + 1) ds) d c'" using Cons.prems(2) by auto
  let ?u = "v\<lparr>payload_chan := q, id_generator := id_generator v + 1, send_counter := send_counter v + 1, client_conn := d\<rparr>"
  obtain v' where "loops M B C ser de ident ?u v'" "client_conn v' = c'" "queued (view (payload_chan v')) = []"
    "id_generator v' = id_generator v + 1 + of_nat (length ds)"
    using Cons.IH [of ?u] q(2) d(2) by auto
  then show ?case using loops_turn [OF event_loop_sends [OF q(1) d(1)]] by (intro exI [of _ v']) (simp add: ac_simps)
qed

section \<open>Properties\<close>

text \<open>C13: the whole way of a message.  A message to a user who is online is queued for the receiver's connection; the
  client of the receiver answers the packet that it finds there with an acknowledgement under the same id; the
  acknowledgement, when it comes in, wakes the task that waits, and the sender is told.\<close>

theorem message_handshake:
  assumes "tokio_runtime T pv sv ov" and "reachable pv rcv (msg_to msg) m c w" and "accepts (outbox pv sdr w)"
    and "channel (handle sdr) \<noteq> channel (handle rcv)" and "payload p = Message msg"
    and "conn_write C ser (packet_new c Map.empty MessageCliAck) (client_conn v) = (Ok (), d)"
  shows "\<exists>w1 w2 w3 k q. outcomes (server_process T sdr p) w = [(w1, Blocked k)] \<and>
           queued (outbox pv rcv w1) = queued (outbox pv rcv w) @ [q] \<and>
           outcomes (client_receive C ser (msg_to msg) q) v = [(v\<lparr>client_conn := d\<rparr>, Done ())] \<and>
           outcomes (sync_process T inner rcv (packet_new c Map.empty MessageCliAck)) w1 = [(w2, Done ())] \<and>
           outcomes k w2 = [(w3, Done ())] \<and>
           queued (outbox pv sdr w3) = queued (outbox pv sdr w) @ [packet_new (request_id p) Map.empty MessageSrvAck]"
proof -
  have "outcomes (client_receive C ser (msg_to msg) (packet_new c Map.empty (Message msg))) v =
      [(v\<lparr>client_conn := d\<rparr>, Done ())]"
    using assms(6) by (intro client_acknowledges) simp_all
  moreover have "request_id (packet_new c Map.empty MessageCliAck) = c" by simp
  from tokio_runtime.message_round [OF assms(1-5) this, of inner] obtain w1 w2 w3 k where
    "outcomes (server_process T sdr p) w = [(w1, Blocked k)]"
    "queued (outbox pv rcv w1) = queued (outbox pv rcv w) @ [packet_new c Map.empty (Message msg)]"
    "outcomes (sync_process T inner rcv (packet_new c Map.empty MessageCliAck)) w1 = [(w2, Done ())]"
    "outcomes k w2 = [(w3, Done ())]"
    "queued (outbox pv sdr w3) = queued (outbox pv sdr w) @ [packet_new (request_id p) Map.empty MessageSrvAck]" by blast
  ultimately show ?thesis by metis
qed

definition demo_client :: "(unit, (bytes option list \<times> bytes) tcp_connection) client_world" where
  "demo_client = \<lparr>payload_chan = (), id_generator = 1, send_counter = 0, rev_counter = 0,
     client_conn = \<lparr>stream = ([], []), buffer = []\<rparr>, client_now = 0\<rparr>"

theorem message_handshake_witness:
  "\<exists>w1 w2 w3 k q. outcomes (server_process list_tokio demo_sender (packet_new 5 Map.empty (Message demo_message)))
         (chat_world\<lparr>request_counter := [ctx_id demo_ctx \<mapsto> 6]\<rparr>) = [(w1, Blocked k)] \<and>
     queued (outbox id demo_ctx w1) = [q] \<and>
     outcomes (client_receive (tcp script) (\<lambda>p. serialize_u64 std_bytes (request_id p)) 2 q) demo_client
       = [(demo_client\<lparr>client_conn := \<lparr>stream = ([], frame [6]), buffer = []\<rparr>\<rparr>, Done ())] \<and>
     outcomes (sync_process list_tokio (server list_tokio) demo_ctx (packet_new 6 Map.empty MessageCliAck)) w1
       = [(w2, Done ())] \<and>
     outcomes k w2 = [(w3, Done ())] \<and>
     queued (outbox id demo_sender w3) = [packet_new 5 Map.empty MessageSrvAck]"
proof -
  let ?w = "chat_world\<lparr>request_counter := [ctx_id demo_ctx \<mapsto> 6]\<rparr>"
  have acked: "conn_write (tcp script) (\<lambda>p. serialize_u64 std_bytes (request_id p)) (packet_new 6 Map.empty MessageCliAck)
      (client_conn demo_client) = (Ok (), \<lparr>stream = ([], frame [6]), buffer = []\<rparr>)"
    using u64_payload(2)
    by (simp add: conn_write_def and_then_def tcp_write_buf_def script_def demo_client_def Let_def frame_def)
  have out: "reachable id demo_ctx (msg_to demo_message) 3 6 ?w" "outbox id x ?w = outbox id x chat_world" for x
    using chat_world_facts(1) by (simp_all add: reachable_def outbox_def registered_def chat_world_def)
  show ?thesis
    using message_handshake [OF list_runtime.tokio_runtime_axioms out(1) _ _ _ acked, of demo_sender
        "packet_new 5 Map.empty (Message demo_message)" "server list_tokio"] out(2) by simp
qed

text \<open>C35: the client numbers what it sends.  All payloads that wait in its channel are written in order, as packets with
  consecutive ids that begin with the value of the generator and wrap around; up to 2 to the 64 of them in a row
  are distinct.\<close>

theorem client_numbers_requests:
  assumes "mpsc M view" and "queued (view (payload_chan v)) = ds"
    and "writes C ser (numbered (id_generator v) ds) (client_conn v) c'"
  shows "(\<exists>v'. loops M B C ser de ident v v' \<and> client_conn v' = c' \<and> queued (view (payload_chan v')) = [] \<and>
            id_generator v' = id_generator v + of_nat (length ds)) \<and>
         (length ds \<le> 2 ^ 64 \<longrightarrow> distinct (map request_id (numbered (id_generator v) ds)))"
  using client_sends_all [OF assms] numbered_distinct by blast

theorem client_numbers_requests_witness:
  "(\<exists>v'. loops list_mpsc std_bytes (tcp script) (\<lambda>p. serialize_u64 std_bytes (request_id p)) (su_de demo_setup) 2
      \<lparr>payload_chan = \<lparr>queued = [Ping 1, Logout], capacity = 2, receiver_gone = False, senders_gone = False\<rparr>,
       id_generator = 5, send_counter = 0, rev_counter = 0, client_conn = demo_socket, client_now = 0\<rparr> v' \<and>
     stream (client_conn v') = ([], frame [5] @ frame [6]) \<and> id_generator v' = 7)"
proof -
  let ?v = "\<lparr>payload_chan = \<lparr>queued = [Ping 1, Logout], capacity = 2, receiver_gone = False, senders_gone = False\<rparr>,
       id_generator = 5, send_counter = 0, rev_counter = 0, client_conn = demo_socket, client_now = 0\<rparr>"
  have "writes (tcp script) (\<lambda>p. serialize_u64 std_bytes (request_id p)) (numbered (id_generator ?v) [Ping 1, Logout])
      (client_conn ?v) \<lparr>stream = ([], frame [5] @ frame [6]), buffer = []\<rparr>"
    using demo_writes [of Map.empty "Ping 1" Map.empty Logout] by (simp del: writes.simps)
  from client_numbers_requests [OF list_mpsc.mpsc_axioms _ this, of std_bytes "su_de demo_setup" 2] show ?thesis
    by fastforce
qed

end
