(* ===== verification/Token_Client.thy ===== *)
theory Token_Client
  imports Auth Client State_Properties
begin

text \<open>
  The tokens that the clients of \<open>im/src/test.rs\<close> log in with, and that the server's
  authentication accepts them.  The encryptor of the crypto crate is a parameter: it consumes its
  input in pieces and says after each whether it wants more input or more room for its output.
\<close>

section \<open>The token of a client\<close>

definition client_KEY :: bytes where
  "client_KEY = [0x0, 0x1, 0x2, 0x3, 0x4, 0x5, 0xC, 0x7, 0xB, 0x9, 0x10, 0x11, 0x12, 0x13, 0x14, 0x15]"

definition client_IV :: bytes where
  "client_IV = [0x0, 0x1, 0x2, 0x3, 0x4, 0x5, 0xC, 0x7, 0xB, 0x9, 0x10, 0x11, 0x12, 0x13, 0x14, 0x15]"

datatype buffer_result = BufferUnderflow | BufferOverflow

text \<open>
  \<open>cbc_encrypt\<close> writes into an empty buffer of 128 bytes: the result, the bytes written, the input
  that is left and the encryptor; it yields nothing when it fails.
\<close>

record 'e encrypt_ops =
  cbc_encryptor :: "bytes \<Rightarrow> bytes \<Rightarrow> 'e"
  cbc_encrypt :: "'e \<Rightarrow> bytes \<Rightarrow> (buffer_result \<times> bytes \<times> bytes \<times> 'e) option"
  base64_encode :: "bytes \<Rightarrow> rstring"

partial_function (option) encrypt_loop ::
  "'e encrypt_ops \<Rightarrow> 'e \<Rightarrow> bytes \<Rightarrow> bytes \<Rightarrow> (bytes, unit) outcome option" where
  "encrypt_loop E encryptor read_buffer final_result =
     (case cbc_encrypt E encryptor read_buffer of
        None \<Rightarrow> Some Panic
      | Some (result, written, read_buffer, encryptor) \<Rightarrow>
          let final_result = final_result @ written in
          (case result of
             BufferUnderflow \<Rightarrow> Some (Ok final_result)
           | BufferOverflow \<Rightarrow> encrypt_loop E encryptor read_buffer final_result))"

definition encrypt :: "buf_ops \<Rightarrow> 'e encrypt_ops \<Rightarrow> u64 \<Rightarrow> (rstring, unit) outcome option" where
  "encrypt B E user_id =
     (let data = put_u64 B user_id @ put_u16 B 32 @ put_u16 B 32;
          encryptor = cbc_encryptor E client_KEY client_IV
      in case encrypt_loop E encryptor data [] of
           Some (Ok final_result) \<Rightarrow> Some (Ok (base64_encode E final_result))
         | Some (Err e) \<Rightarrow> Some (Err e)
         | Some Panic \<Rightarrow> Some Panic
         | None \<Rightarrow> None)"

section \<open>The contract of the crypto crates\<close>

text \<open>The encryptor writes the pieces \<open>cs\<close> for an input and then wants more.\<close>

inductive emits :: "'e encrypt_ops \<Rightarrow> 'e \<Rightarrow> bytes \<Rightarrow> bytes list \<Rightarrow> bool" for E :: "'e encrypt_ops" where
  emits_last: "cbc_encrypt E e inp = Some (BufferUnderflow, c, rest, e') \<Longrightarrow> emits E e inp [c]"
| emits_more: "cbc_encrypt E e inp = Some (BufferOverflow, c, rest, e') \<Longrightarrow> emits E e' rest cs \<Longrightarrow> emits E e inp (c # cs)"

text \<open>
  Base64 decodes what it encoded, and the decryptor with the same key and vector finds the input of
  the encryptor at the front of its output.
\<close>

locale crypto_crates =
  fixes X :: crypto_ops and E :: "'e encrypt_ops"
  assumes base64: "base64_decode X (base64_encode E bs) = Some bs"
    and cbc: "length key = 16 \<Longrightarrow> length iv = 16 \<Longrightarrow> \<exists>cs rest. emits E (cbc_encryptor E key iv) inp cs \<and>
      cbc_decrypt X key iv (concat cs) (replicate (length (concat cs)) 0) = Some (inp @ rest)"
begin

lemma encrypt_loop_emits: "emits E e inp cs \<Longrightarrow> encrypt_loop E e inp acc = Some (Ok (acc @ concat cs))"
proof (induction arbitrary: acc rule: emits.induct)
  case (emits_last e inp c rest e')
  then show ?case by (subst encrypt_loop.simps) simp
next
  case (emits_more e inp c rest e' cs)
  then show ?case by (subst encrypt_loop.simps) simp
qed

lemma encrypt_returns:
  "\<exists>cs rest. encrypt B E k = Some (Ok (base64_encode E (concat cs))) \<and>
     cbc_decrypt X KEY IV (concat cs) (replicate (length (concat cs)) 0) =
       Some (put_u64 B k @ put_u16 B 32 @ put_u16 B 32 @ rest)"
proof -
  let ?data = "put_u64 B k @ put_u16 B 32 @ put_u16 B 32"
  have keys: "client_KEY = KEY" "client_IV = IV" by (simp_all add: client_KEY_def client_IV_def KEY_def IV_def)
  obtain cs rest where cs: "emits E (cbc_encryptor E KEY IV) ?data cs"
    "cbc_decrypt X KEY IV (concat cs) (replicate (length (concat cs)) 0) = Some (?data @ rest)"
    using cbc [of KEY IV ?data] by (auto simp: KEY_def IV_def)
  from cs(2) encrypt_loop_emits [OF cs(1), of "[]"] show ?thesis
    by (intro exI [of _ cs] exI [of _ rest]) (simp add: encrypt_def keys Let_def)
qed

end

text \<open>The crypto that leaves data as they are, in pieces of 128 bytes.\<close>

definition plain_encrypt :: "unit encrypt_ops" where
  "plain_encrypt =
     \<lparr>cbc_encryptor = (\<lambda>_ _. ()),
      cbc_encrypt = (\<lambda>e inp. Some (if length inp \<le> 128 then BufferUnderflow else BufferOverflow, take 128 inp, drop 128 inp, e)),
      base64_encode = (\<lambda>bs. bs)\<rparr>"

lemma plain_emits: "\<exists>cs. emits plain_encrypt () inp cs \<and> concat cs = inp"
proof (induction inp rule: measure_induct_rule [where f = length])
  case (less inp)
  show ?case
  proof (cases "length inp \<le> 128")
    case True
    then show ?thesis by (intro exI [of _ "[inp]"]) (simp add: plain_encrypt_def emits_last)
  next
    case False
    then have "length (drop 128 inp) < length inp" by simp
    then obtain cs where "emits plain_encrypt () (drop 128 inp) cs" "concat cs = drop 128 inp"
      using less.IH by blast
    then show ?thesis
      using False
      by (intro exI [of _ "take 128 inp # cs"] conjI emits_more [where e' = "()" and rest = "drop 128 inp"])
        (simp_all add: plain_encrypt_def)
  qed
qed

interpretation plain: crypto_crates plain_crypto plain_encrypt
proof
  show "\<exists>cs rest. emits plain_encrypt (cbc_encryptor plain_encrypt key iv) inp cs \<and>
      cbc_decrypt plain_crypto key iv (concat cs) (replicate (length (concat cs)) 0) = Some (inp @ rest)" for key iv inp
    using plain_emits [of inp] by (auto simp: plain_crypto_def)
qed (simp add: plain_crypto_def plain_encrypt_def)

section \<open>Properties\<close>

text \<open>C36: a client is who it says.  The encryption of a user's id ends with a token, and the server's authentication
  of the login that a client sends with that token yields the same id.\<close>

theorem client_token_accepted:
  assumes "bytes_crate B" and "crypto_crates X E"
  shows "\<exists>token. encrypt B E k = Some (Ok token) \<and> token_auth B X (packet_new i h (login_payload token)) = Ok k"
proof -
  obtain cs rest where cs: "encrypt B E k = Some (Ok (base64_encode E (concat cs)))"
    "cbc_decrypt X KEY IV (concat cs) (replicate (length (concat cs)) 0) = Some (put_u64 B k @ put_u16 B 32 @ put_u16 B 32 @ rest)"
    using crypto_crates.encrypt_returns [OF assms(2)] by blast
  then show ?thesis
    using bytes_crate.get_u64 [OF assms(1)] bytes_crate.put_u64 [OF assms(1)]
    by (simp add: token_auth_def login_payload_def parse_token_def decrypt_def crypto_crates.base64 [OF assms(2)])
qed

theorem client_token_accepted_witness:
  "\<exists>token. encrypt std_bytes plain_encrypt 3 = Some (Ok token) \<and>
     token_auth std_bytes plain_crypto (packet_new 1 Map.empty (login_payload token)) = Ok 3"
  by (rule client_token_accepted [OF std.bytes_crate_axioms plain.crypto_crates_axioms])

end
