(* ===== verification/Spec2Isabelle.thy ===== *)
theory Spec2Isabelle
  imports Serde_Properties Connection_Properties Sync_Properties Heart_Beat_Properties State_Properties
    Server_Properties Connection_Life Delivery System_Properties Client_Properties Token_Client
begin

text \<open>
  A verification of \<open>concurrent-biproxy\<close>: an instant-messaging server in asynchronous Rust over a
  connection library and a binary codec of its own.

  \<^bold>\<open>The program.\<close>  \<open>serde/src\<close> is a data format for serde: integers as a marker byte and up to
  eight bytes, signed ones zigzag-coded, lengths before strings, sequences and maps.  \<open>connect/src\<close>
  frames packets on a connection (\<open>connection.rs\<close>), gives every connection a task that writes what
  is queued and spawns the processing of what arrives (\<open>connector.rs\<close>), and offers middlewares that
  wrap a processor: requests that wait for a response (\<open>extract/sync_message.rs\<close>), a heart beat
  (\<open>extract/heart_beat.rs\<close>) and the login of users (\<open>extract/online_state.rs\<close>).  \<open>im/src\<close> is the
  application: packets, token authentication, the directory of users who are online, the server that
  passes messages on, and a test client.  Connections, spawned tasks and the reactors of the heart
  beat run concurrently and share the attributes of a context, the directory and the request counter.

  \<^bold>\<open>The codec.\<close>  Prelude (outcomes with \<open>?\<close>, bytes, byte order, UTF-8, the \<open>bytes\<close> crate as a locale),
  Serde_Error (\<open>error.rs\<close>), Ser (\<open>ser.rs\<close>), De (\<open>de.rs\<close>).  A serializer state is its output buffer, a
  deserializer state its cursor; every method is a state-passing function to an outcome \<open>Ok\<close>, \<open>Err\<close>
  or \<open>Panic\<close>.  Codec has the varint and the relations between what is written and what is read,
  with the locale \<open>item_codec\<close> of types that are read back; Serde_Protocol has the reading of
  compound values; Serde_Properties has round trips, bounds, rejections and where writer and
  reader disagree.

  \<^bold>\<open>Framing.\<close>  Connect_Error, Connection (\<open>connection.rs\<close>, \<open>tcp_connection.rs\<close>) and
  Connection_Properties.  The trait \<open>Connection\<close> is a record of functions; \<open>next\<close>, which may wait for
  ever, is a partial function whose value \<open>None\<close> is not returning: it repeats \<open>next_once\<close>, the body of its
  loop and the unit in which a \<open>select!\<close> can leave it.  No
  property rests only on what holds if \<open>next\<close> returns: \<open>next_returns_packet\<close> proves that it does.
  \<open>stream_in_order\<close> is the contract of the layer: a reader returns the packets of a writer in order.

  \<^bold>\<open>Asynchronous code.\<close>  Runtime has programs that return, panic or act on a shared state at an await
  point; an action lists the ways to go on, none while the future is pending and several when more
  branches of a \<open>select!\<close> are ready.  \<open>outcomes\<close> runs a program alone up to its end or to where it
  waits, \<open>advances\<close> runs it in part, and \<open>keeps\<close> is what it guarantees at every await point whatever
  others do.  World has the state of the server: the channels, the attributes of all contexts, the
  maps of waiters, the directory, the request counter with its lock, the spawned jobs and the time.
  The channels of tokio are operations under the locales \<open>mpsc\<close>, \<open>oneshot\<close> and \<open>tokio_runtime\<close>,
  which state their documented behaviour, and list channels interpret all three.

  \<^bold>\<open>Connections and middlewares.\<close>  Context (\<open>context.rs\<close>, \<open>processor.rs\<close>: a processor is a record of
  three programs), Sync_Message, Heart_Beat, State_Support (\<open>extract\<close>), Packet, Auth,
  Online_State_Server, Server, Client (\<open>im/src\<close>), Connector (\<open>connector.rs\<close>, and of \<open>main.rs\<close> the
  state, the stack of processors and one turn of its loop for what the listener returns).  Loops that need not end are one turn each; the task starts again after it.
  Sync_Properties, Heart_Beat_Properties, State_Properties, Server_Properties and Client_Properties
  have the properties of each: a request is answered, refused or timed out; a silent connection is
  noticed between three and four intervals after its last read; no packet of a stranger reaches the
  application; a message is delivered, answered by the client and acknowledged.  Token_Client has the
  tokens of the test clients (\<open>test.rs\<close>), with the crypto crates under the locale \<open>crypto_crates\<close>: the
  loop of the encryption ends, and the server accepts the token as that user's.

  \<^bold>\<open>The running server.\<close>  System has the scheduler, an inductive step relation in which any connection
  or task may act next (what \<open>main\<close> does with an accepted socket is one of its steps), and the locales
  \<open>counter_steps\<close> and \<open>handler_steps\<close>: a relation that allows the elementary steps of the handlers is
  kept by every handler, and no handler panics unless panics are allowed.  Server_Invariants lifts it to
  the whole server (the locale \<open>server_steps\<close>) and interprets it on the types of attributes, on the users
  that tokens prove and the directory of them, on what is posted into the queues of the connections (inside
  \<open>tokio_runtime\<close>, with its channels), on the absence of panics, on indices and on the locked counter.  Connection_Life has the life of a connection from its acceptance to its end, and that
  connections are isolated (what the work for one may touch of another, by \<open>handler_steps\<close> with \<open>own\<close>
  restricted to the one).  Server_Runs puts runs of the server together from runs of handlers;
  Delivery has the whole way of a message and of a login through connections, stack and tasks, and that
  a message which nobody receives is acknowledged after three seconds.
  System_Properties has that every user is proven by a token, that a queued message is there for a
  connection of its receiver and any other queued packet answers one that came in on the same connection,
  that the directory refines an abstract one
  with the single operation of publishing a proven user, that the server does not panic but for short
  tokens, and two races: the two maps of the directory can come to disagree, and a login and a message
  can lock the request counter for ever.

  \<^bold>\<open>Parameters.\<close>  What the code takes from elsewhere is an argument: the \<open>bytes\<close> crate, the channels of
  tokio, the socket, base64 and AES, the \<open>Serialize\<close> and \<open>Deserialize\<close> implementations that serde
  generates (visitors and seeds of the codec, \<open>ser\<close> and \<open>de\<close> of a connection), random numbers.  The
  laws assumed of them are the locales above; concrete instances satisfy them.

  \<^bold>\<open>Conventions.\<close>  Integers of fixed width are words; \<open>usize\<close> is 64 bits.  A string is its UTF-8 bytes.
  An attribute, \<open>dyn Any\<close> in the code, is a constructor of \<open>any\<close> per type that the program stores, and
  a downcast is the destructor.  \<open>Arc\<close> and maps behind locks are indices into the world.  A lock that
  is held over an await point is explicit (that of the request counter); a lock that is released
  before the next await point is a single action.  Time is in nanoseconds and passes in any amount
  between two steps; a deadline passes at its very nanosecond, where the timers of tokio tick in
  milliseconds.  A write to the socket is taken at once or fails: \<open>write_all\<close> does not wait in the
  model, and the two writes of a packet are one action.  A spawned task that panics ends, as tokio catches the panic.

  \<^bold>\<open>Not modelled.\<close>  Logging and printing, the binding of the listening socket of \<open>main\<close> (what it
  accepts is an argument of \<open>main_accept\<close>), the start of the test clients in \<open>im/src/test.rs\<close>, and the prototype
  under \<open>src/\<close> and \<open>tests/\<close> of the root crate, which is commented out.  The derived serialization of
  packets, and of the types of the tests in \<open>serde/src/lib.rs\<close>, is generated code: a parameter, of which
  only what it hands to a connection is used.  Nothing else of the program is left: the lines that no
  definition translates are imports, headers of implementations and associated types.  Dropped handles are not counted, so that the branch
  of a connection whose senders are all gone is reached only through the channel's contract.
\<close>

end
